(* ===== verification/Prelude.thy ===== *)
theory Prelude
  imports Main "HOL-Library.Sublist" "HOL-Library.Code_Target_Nat"
begin

text \<open>
  Shared vocabulary of the development: Go's error values, 64-bit integers, the keyed tables
  that the components build on, and the fact collections that their proofs use.
  \<^item> \<open>error\<close> is Go's \<open>error\<close> interface as the server uses it: a fresh message
    (\<open>errors.New\<close>, \<open>fmt.Errorf\<close> without a wrapped value), a message around another error
    (\<open>fmt.Errorf\<close> with the verb for wrapping), the two sentinels \<open>pgx.ErrNoRows\<close> and
    \<open>postgres.ErrNotFound\<close>, a PostgreSQL error with its five-character code, and an error that
    a library outside the repository returns.
  \<^item> A Go function that returns a value and an error is a function into \<open>error + 'a\<close>.
\<close>

named_theorems int64_simps \<open>bounds of Go's int64\<close>
named_theorems go_string_simps \<open>facts on Go strings that the component proofs rewrite with\<close>
named_theorems time_simps \<open>instants read as nanoseconds\<close>
named_theorems store_defs \<open>definitions of the store operations\<close>

section \<open>Errors\<close>

datatype error =
    NewError string
  | Wrap string error
  | NoRows
  | NotFound
  | PgError string
  | External string

text \<open>\<open>errors.Is\<close> and \<open>errors.As\<close> look through the wrapping.\<close>

primrec errors_root :: "error \<Rightarrow> error" where
  "errors_root (NewError m) = NewError m"
| "errors_root (Wrap m e) = errors_root e"
| "errors_root NoRows = NoRows"
| "errors_root NotFound = NotFound"
| "errors_root (PgError c) = PgError c"
| "errors_root (External m) = External m"

definition errors_Is :: "error \<Rightarrow> error \<Rightarrow> bool" where
  "errors_Is e target \<longleftrightarrow> errors_root e = target"

lemma errors_Is_simps [simp]:
  "errors_Is NoRows NoRows" "errors_Is NotFound NotFound"
  "errors_Is (Wrap m e) t = errors_Is e t"
  "\<not> errors_Is (PgError c) NoRows" "\<not> errors_Is (PgError c) NotFound"
  "\<not> errors_Is NoRows NotFound" "\<not> errors_Is NotFound NoRows"
  "\<not> errors_Is (NewError m) NoRows" "\<not> errors_Is (NewError m) NotFound"
  "\<not> errors_Is (External m) NoRows" "\<not> errors_Is (External m) NotFound"
  by (simp_all add: errors_Is_def)

type_synonym 'a result = "error + 'a"

definition is_ok :: "'a result \<Rightarrow> bool" where
  "is_ok r = (case r of Inl _ \<Rightarrow> False | Inr _ \<Rightarrow> True)"

lemma is_ok_simps [simp]: "is_ok (Inr x)" "\<not> is_ok (Inl e)"
  by (simp_all add: is_ok_def)

text \<open>The Go idiom \<open>x, err := f(); if err != nil return err\<close>.\<close>

definition bind_result :: "'a result \<Rightarrow> ('a \<Rightarrow> 'b result) \<Rightarrow> 'b result" where
  "bind_result r f = (case r of Inl e \<Rightarrow> Inl e | Inr x \<Rightarrow> f x)"

lemma bind_result_simps [simp]:
  "bind_result (Inl e) f = Inl e" "bind_result (Inr x) f = f x"
  by (simp_all add: bind_result_def)

lemma bind_result_Inr: "bind_result r f = Inr y \<longleftrightarrow> (\<exists>x. r = Inr x \<and> f x = Inr y)"
  by (cases r) auto

section \<open>64-bit integers\<close>

text \<open>
  Identifiers and counters are \<open>int64\<close>. They are \<open>int\<close> here, with the range checked where a
  value enters (parsing) and with the wrap-around written out where the code computes.
\<close>

type_synonym int64 = int

definition in_int64 :: "int \<Rightarrow> bool" where
  "in_int64 i \<longleftrightarrow> - (2 ^ 63) \<le> i \<and> i < 2 ^ 63"

definition wrap64 :: "int \<Rightarrow> int64" where
  "wrap64 i = (i + 2 ^ 63) mod 2 ^ 64 - 2 ^ 63"

lemma in_int64_iff [int64_simps]:
  "in_int64 i \<longleftrightarrow> - 9223372036854775808 \<le> i \<and> i < 9223372036854775808"
  by (simp add: in_int64_def)

lemma wrap64_in_int64: "in_int64 (wrap64 i)"
  by (simp add: wrap64_def in_int64_def)

lemma wrap64_id: "in_int64 i \<Longrightarrow> wrap64 i = i"
  by (simp add: wrap64_def in_int64_def)

lemma wrap64_add_multiple: "wrap64 (i + 2 ^ 64 * k) = wrap64 i"
proof -
  have "(i + 2 ^ 64 * k + 2 ^ 63) mod 2 ^ 64 = (i + 2 ^ 63 + 2 ^ 64 * k) mod (2 ^ 64 :: int)"
    by (simp add: algebra_simps)
  also have "\<dots> = (i + 2 ^ 63) mod 2 ^ 64"
    by (rule mod_mult_self2)
  finally show ?thesis
    by (simp add: wrap64_def)
qed

lemma mod_wrap_shift:
  "((i :: int) mod n * 256 + b) mod n = (i * 256 + b) mod n"
  by (metis mod_add_left_eq mod_mult_left_eq)

section \<open>First occurrences\<close>

text \<open>
  Two places of the server keep the first occurrence of every list element with a map of the
  elements already seen. \<open>remdups\<close> of the library keeps the last one, so the reference
  function is \<open>nub_first\<close>.
\<close>

definition nub_first :: "'a list \<Rightarrow> 'a list" where
  "nub_first xs = rev (remdups (rev xs))"

lemma distinct_nub_first [simp]: "distinct (nub_first xs)"
  by (simp add: nub_first_def)

lemma set_nub_first [simp]: "set (nub_first xs) = set xs"
  by (simp add: nub_first_def)

lemma nub_first_Nil [simp]: "nub_first [] = []"
  by (simp add: nub_first_def)

lemma nub_first_snoc:
  "nub_first (xs @ [x]) = (if x \<in> set xs then nub_first xs else nub_first xs @ [x])"
  by (simp add: nub_first_def)

lemma nub_first_distinct: "distinct xs \<Longrightarrow> nub_first xs = xs"
  by (simp add: nub_first_def distinct_remdups_id)

section \<open>The first element that satisfies a condition\<close>

lemma find_append: "find P (xs @ ys) = (case find P xs of None \<Rightarrow> find P ys | Some x \<Rightarrow> Some x)"
  by (induction xs) auto

lemma find_filter: "(\<And>x. P x \<Longrightarrow> Q x) \<Longrightarrow> find P (filter Q xs) = find P xs"
  by (induction xs) auto

lemma find_none: "(\<And>x. x \<in> set xs \<Longrightarrow> \<not> P x) \<Longrightarrow> find P xs = None"
  by (induction xs) auto

end
