(* ===== verification/Keyed_Table.thy ===== *)
theory Keyed_Table
  imports Prelude
begin

text \<open>
  Tables with a unique key, as lists of rows in insertion order, and the statements that the
  store runs on them: plain insertion with a unique-violation error, the upsert
  (\<open>INSERT ... ON CONFLICT (key) DO UPDATE\<close>), lookup, update and deletion by a condition. The locale
  \<open>keyed_table\<close> is the contract of an upsert: the merged row keeps the key.
\<close>

definition lookup_by :: "('r \<Rightarrow> 'k) \<Rightarrow> 'k \<Rightarrow> 'r list \<Rightarrow> 'r option" where
  "lookup_by key k rows = find (\<lambda>r. key r = k) rows"

definition has_key :: "('r \<Rightarrow> 'k) \<Rightarrow> 'k \<Rightarrow> 'r list \<Rightarrow> bool" where
  "has_key key k rows \<longleftrightarrow> list_ex (\<lambda>r. key r = k) rows"

definition upsert_by :: "('r \<Rightarrow> 'k) \<Rightarrow> ('r \<Rightarrow> 'r \<Rightarrow> 'r) \<Rightarrow> 'r \<Rightarrow> 'r list \<Rightarrow> 'r list" where
  "upsert_by key merge new rows =
     (if has_key key (key new) rows
      then map (\<lambda>r. if key r = key new then merge r new else r) rows
      else rows @ [new])"

definition unique_by :: "('r \<Rightarrow> 'k) \<Rightarrow> 'r list \<Rightarrow> bool" where
  "unique_by key rows \<longleftrightarrow> distinct (map key rows)"

definition update_where :: "('r \<Rightarrow> bool) \<Rightarrow> ('r \<Rightarrow> 'r) \<Rightarrow> 'r list \<Rightarrow> 'r list" where
  "update_where cond f rows = map (\<lambda>r. if cond r then f r else r) rows"

definition delete_where :: "('r \<Rightarrow> bool) \<Rightarrow> 'r list \<Rightarrow> 'r list" where
  "delete_where cond rows = filter (\<lambda>r. \<not> cond r) rows"

lemma has_key_set: "has_key key k rows \<longleftrightarrow> k \<in> key ` set rows"
  by (auto simp: has_key_def list_ex_iff)

lemma has_key_simps [simp]:
  "\<not> has_key key k []"
  "has_key key k (r # rows) \<longleftrightarrow> key r = k \<or> has_key key k rows"
  "has_key key k (rows @ rows') \<longleftrightarrow> has_key key k rows \<or> has_key key k rows'"
  by (simp_all add: has_key_def)

lemma lookup_by_simps [simp]:
  "lookup_by key k [] = None"
  "lookup_by key k (r # rows) = (if key r = k then Some r else lookup_by key k rows)"
  by (simp_all add: lookup_by_def)

lemma lookup_by_append:
  "lookup_by key k (rows @ rows') = (case lookup_by key k rows of None \<Rightarrow> lookup_by key k rows' | Some r \<Rightarrow> Some r)"
  by (induction rows) auto

lemma lookup_by_None: "lookup_by key k rows = None \<longleftrightarrow> \<not> has_key key k rows"
  by (induction rows) auto

lemma lookup_by_Some: "lookup_by key k rows = Some r \<Longrightarrow> r \<in> set rows \<and> key r = k"
  by (induction rows) (auto split: if_splits)

lemma lookup_by_unique: "unique_by key rows \<Longrightarrow> r \<in> set rows \<Longrightarrow> lookup_by key (key r) rows = Some r"
  by (induction rows) (auto simp: unique_by_def rev_image_eqI)

lemma unique_by_Nil [simp]: "unique_by key []"
  by (simp add: unique_by_def)

lemma unique_by_snoc [simp]: "unique_by key (rows @ [r]) \<longleftrightarrow> unique_by key rows \<and> \<not> has_key key (key r) rows"
  by (auto simp: unique_by_def has_key_set)

lemma unique_by_eq: "unique_by key rows \<Longrightarrow> r \<in> set rows \<Longrightarrow> r' \<in> set rows \<Longrightarrow> key r = key r' \<Longrightarrow> r = r'"
  by (metis lookup_by_unique option.inject)

lemma filter_unique_key:
  "unique_by key rows \<Longrightarrow> lookup_by key k rows = Some r \<Longrightarrow> filter (\<lambda>r. key r = k) rows = [r]"
proof (induction rows)
  case (Cons a rows)
  then have "filter (\<lambda>r. key r = key a) rows = []"
    by (auto simp: unique_by_def filter_empty_conv) (metis image_eqI)
  with Cons show ?case
    by (auto simp: unique_by_def split: if_splits)
qed simp

lemma map_key_update_where: "(\<And>r. cond r \<Longrightarrow> key (f r) = key r) \<Longrightarrow> map key (update_where cond f rows) = map key rows"
  by (simp add: update_where_def)

lemma unique_by_update_where [simp]:
  "(\<And>r. cond r \<Longrightarrow> key (f r) = key r) \<Longrightarrow> unique_by key (update_where cond f rows) = unique_by key rows"
  by (simp add: unique_by_def map_key_update_where)

lemma unique_by_delete_where [intro]: "unique_by key rows \<Longrightarrow> unique_by key (delete_where cond rows)"
  by (simp add: unique_by_def delete_where_def distinct_map_filter)

lemma set_delete_where [simp]: "set (delete_where cond rows) = {r \<in> set rows. \<not> cond r}"
  by (simp add: delete_where_def)

lemma set_update_where: "set (update_where cond f rows) = (\<lambda>r. if cond r then f r else r) ` set rows"
  by (simp add: update_where_def)

lemma length_update_where [simp]: "length (update_where cond f rows) = length rows"
  by (simp add: update_where_def)

lemma no_rows_where [simp]:
  "update_where (\<lambda>r. False) f rows = rows" "delete_where (\<lambda>r. False) rows = rows"
  by (simp_all add: update_where_def delete_where_def)

lemma has_key_update_where [simp]:
  "(\<And>r. cond r \<Longrightarrow> key (f r) = key r) \<Longrightarrow> has_key key k (update_where cond f rows) = has_key key k rows"
  by (induction rows) (auto simp: update_where_def)

lemma list_all_update_where:
  "list_all P rows \<Longrightarrow> (\<And>r. P r \<Longrightarrow> cond r \<Longrightarrow> P (f r)) \<Longrightarrow> list_all P (update_where cond f rows)"
  by (induction rows) (auto simp: update_where_def)

lemma list_all_delete_where: "list_all P rows \<Longrightarrow> list_all P (delete_where cond rows)"
  by (auto simp: delete_where_def list_all_iff)

lemma lookup_by_delete_where:
  "(\<And>r. key r = k \<Longrightarrow> \<not> cond r) \<Longrightarrow> lookup_by key k (delete_where cond rows) = lookup_by key k rows"
  by (induction rows) (auto simp: delete_where_def)

lemma lookup_by_update_where:
  "(\<And>r. cond r \<Longrightarrow> key (f r) = key r) \<Longrightarrow>
   lookup_by key k (update_where cond f rows) = map_option (\<lambda>r. if cond r then f r else r) (lookup_by key k rows)"
  by (induction rows) (auto simp: update_where_def)

lemma upsert_by_not_Nil [simp]: "upsert_by key merge new rows \<noteq> []"
  by (cases rows) (auto simp: upsert_by_def)

lemma unique_by_upsert_other:
  assumes "unique_by g rows" "\<And>old. key old = key new \<Longrightarrow> g (merge old new) = g old"
    and "\<not> has_key key (key new) rows \<Longrightarrow> \<not> has_key g (g new) rows"
  shows "unique_by g (upsert_by key merge new rows)"
proof (cases "has_key key (key new) rows")
  case True
  have "map g (upsert_by key merge new rows) = map g rows"
    using True assms(2) by (simp add: upsert_by_def)
  with assms(1) show ?thesis
    by (simp add: unique_by_def)
qed (use assms in \<open>simp add: upsert_by_def\<close>)

locale keyed_table =
  fixes key :: "'r \<Rightarrow> 'k" and merge :: "'r \<Rightarrow> 'r \<Rightarrow> 'r"
  assumes merge_key: "key old = key new \<Longrightarrow> key (merge old new) = key new"
begin

lemma keys_upsert:
  "map key (upsert_by key merge new rows) =
     (if has_key key (key new) rows then map key rows else map key rows @ [key new])"
  by (auto simp: upsert_by_def merge_key)

lemma unique_upsert: "unique_by key rows \<Longrightarrow> unique_by key (upsert_by key merge new rows)"
  by (simp add: unique_by_def keys_upsert) (simp add: has_key_set)

lemma lookup_merged:
  "lookup_by key k (map (\<lambda>r. if key r = key new then merge r new else r) rows) =
     map_option (\<lambda>r. if key r = key new then merge r new else r) (lookup_by key k rows)"
  by (induction rows) (auto simp: merge_key)

lemma other_rows_merged:
  "filter (\<lambda>r. key r \<noteq> key new) (map (\<lambda>r. if key r = key new then merge r new else r) rows) =
   filter (\<lambda>r. key r \<noteq> key new) rows"
  by (induction rows) (auto simp: merge_key)

lemma lookup_upsert:
  "lookup_by key (key new) (upsert_by key merge new rows) =
     Some (case lookup_by key (key new) rows of None \<Rightarrow> new | Some old \<Rightarrow> merge old new)"
proof (cases "lookup_by key (key new) rows")
  case None
  then have "\<not> has_key key (key new) rows"
    by (simp add: lookup_by_None)
  with None show ?thesis
    by (simp add: upsert_by_def lookup_by_append)
next
  case (Some old)
  then have "key old = key new" "has_key key (key new) rows"
    using lookup_by_Some [OF Some] lookup_by_None [of key "key new" rows] by auto
  with Some show ?thesis
    by (simp add: upsert_by_def lookup_merged)
qed

lemma frame_upsert:
  assumes "k \<noteq> key new"
  shows "lookup_by key k (upsert_by key merge new rows) = lookup_by key k rows"
proof (cases "lookup_by key k rows")
  case None
  with assms show ?thesis
    by (simp add: upsert_by_def lookup_by_append lookup_merged)
next
  case (Some old)
  then have "key old = k"
    using lookup_by_Some [OF Some] by simp
  with Some assms show ?thesis
    by (simp add: upsert_by_def lookup_by_append lookup_merged)
qed

lemma other_rows_upsert:
  "filter (\<lambda>r. key r \<noteq> key new) (upsert_by key merge new rows) = filter (\<lambda>r. key r \<noteq> key new) rows"
  by (simp add: upsert_by_def other_rows_merged)

text \<open>Every row afterwards is an old row, the new row or a merged one.\<close>

lemma rows_upsert:
  "r \<in> set (upsert_by key merge new rows) \<Longrightarrow>
   r \<in> set rows \<and> key r \<noteq> key new \<or> r = new \<and> \<not> has_key key (key new) rows \<or>
   (\<exists>old \<in> set rows. key old = key new \<and> r = merge old new)"
  by (auto simp: upsert_by_def has_key_set image_iff split: if_splits)

lemma all_upsert:
  "list_all P rows \<Longrightarrow> P new \<Longrightarrow> (\<And>old. P old \<Longrightarrow> key old = key new \<Longrightarrow> P (merge old new)) \<Longrightarrow>
   list_all P (upsert_by key merge new rows)"
  using rows_upsert by (fastforce simp: list_all_iff)

lemma has_key_upsert: "has_key key k (upsert_by key merge new rows) \<longleftrightarrow> k = key new \<or> has_key key k rows"
proof -
  have "set (map key (upsert_by key merge new rows)) = insert (key new) (key ` set rows)"
    by (simp only: keys_upsert) (auto simp: has_key_set)
  then show ?thesis by (auto simp: has_key_set)
qed

lemma key_set_upsert: "key ` set (upsert_by key merge new rows) = insert (key new) (key ` set rows)"
proof -
  have "k \<in> key ` set (upsert_by key merge new rows) \<longleftrightarrow> k \<in> insert (key new) (key ` set rows)" for k
    using has_key_upsert [of k new rows] by (simp only: has_key_set insert_iff)
  then show ?thesis by blast
qed

end

end
