(* ===== verification/Go_Time.thy ===== *)
theory Go_Time
  imports Prelude
begin

text \<open>
  Go's \<open>time.Time\<close> and \<open>time.Duration\<close>. An instant is its number of nanoseconds, a duration is an
  \<open>int64\<close> of nanoseconds. \<open>Time.Sub\<close> saturates at the ends of the \<open>int64\<close> range, as in Go; the
  product of a count and \<open>time.Second\<close> wraps around at 64 bits.
\<close>

datatype instant = Instant (nanos: int)

type_synonym duration = int

instantiation instant :: linorder
begin

definition less_eq_instant :: "instant \<Rightarrow> instant \<Rightarrow> bool" where
  "less_eq_instant a b \<longleftrightarrow> nanos a \<le> nanos b"

definition less_instant :: "instant \<Rightarrow> instant \<Rightarrow> bool" where
  "less_instant a b \<longleftrightarrow> nanos a < nanos b"

instance
  by standard (auto simp: less_eq_instant_def less_instant_def instant.expand)

end

lemmas [time_simps] = less_eq_instant_def less_instant_def

definition nanosecond :: duration where "nanosecond = 1"
definition second :: duration where "second = 1000000000"
definition minute :: duration where "minute = 60 * second"
definition hour :: duration where "hour = 60 * minute"

lemmas duration_defs [time_simps] = nanosecond_def second_def minute_def hour_def

definition time_Add :: "instant \<Rightarrow> duration \<Rightarrow> instant" where
  "time_Add t d = Instant (nanos t + d)"

definition time_Sub :: "instant \<Rightarrow> instant \<Rightarrow> duration" where
  "time_Sub t u = max (- (2 ^ 63)) (min (2 ^ 63 - 1) (nanos t - nanos u))"

definition time_Before :: "instant \<Rightarrow> instant \<Rightarrow> bool" where
  "time_Before t u \<longleftrightarrow> t < u"

definition time_After :: "instant \<Rightarrow> instant \<Rightarrow> bool" where
  "time_After t u \<longleftrightarrow> u < t"

text \<open>\<open>t.Truncate(time.Second)\<close>, what a JSON web token keeps of a time.\<close>

definition truncate_second :: "instant \<Rightarrow> instant" where
  "truncate_second t = Instant (nanos t - nanos t mod second)"

text \<open>\<open>time.Duration(n) * time.Second\<close> in 64-bit arithmetic.\<close>

definition seconds_wrapped :: "int64 \<Rightarrow> duration" where
  "seconds_wrapped n = wrap64 (n * second)"

lemma nanos_time_Add [simp]: "nanos (time_Add t d) = nanos t + d"
  by (simp add: time_Add_def)

lemma time_Add_Add [simp]: "time_Add (time_Add t d) e = time_Add t (d + e)"
  by (simp add: time_Add_def add.assoc)

lemma time_Before_iff [time_simps]: "time_Before t u \<longleftrightarrow> nanos t < nanos u"
  by (simp add: time_Before_def less_instant_def)

lemma time_After_iff [time_simps]: "time_After t u \<longleftrightarrow> nanos u < nanos t"
  by (simp add: time_After_def less_instant_def)

text \<open>Saturation does not change a comparison with a duration in the range.\<close>

lemma time_Sub_ge_iff: "in_int64 d \<Longrightarrow> d \<le> time_Sub t u \<longleftrightarrow> d \<le> nanos t - nanos u \<or> d = - (2 ^ 63)"
  by (auto simp: time_Sub_def in_int64_def)

lemma time_Sub_le_iff: "in_int64 d \<Longrightarrow> 0 \<le> d \<Longrightarrow> d < 2 ^ 63 - 1 \<Longrightarrow> time_Sub t u \<le> d \<longleftrightarrow> nanos t - nanos u \<le> d"
  by (auto simp: time_Sub_def in_int64_def)

lemma time_Sub_ge_pos: "in_int64 d \<Longrightarrow> 0 < d \<Longrightarrow> d \<le> time_Sub t u \<longleftrightarrow> nanos u + d \<le> nanos t"
  by (auto simp: time_Sub_ge_iff in_int64_def)

lemma truncate_second_le: "truncate_second t \<le> t"
  by (simp add: truncate_second_def less_eq_instant_def second_def)

lemma truncate_second_mono: "t \<le> u \<Longrightarrow> truncate_second t \<le> truncate_second u"
  by (simp add: truncate_second_def less_eq_instant_def minus_mod_eq_mult_div second_def zdiv_mono1)

lemma seconds_wrapped_exact:
  "0 \<le> n \<Longrightarrow> n \<le> 9223372036 \<Longrightarrow> seconds_wrapped n = n * second"
  unfolding seconds_wrapped_def
  by (rule wrap64_id) (simp add: in_int64_def second_def)

end
