(* ===== verification/Types.thy ===== *)
theory Types
  imports Prelude Go_Time
begin

text \<open>
  \<open>server/internal/types/types.go\<close>: the data that the store hands to the handlers and the
  workers. A Go pointer that may be nil is an option; a \<open>json.RawMessage\<close> is its bytes.
\<close>

record user =
  usr_ID :: int64
  usr_DisplayName :: string
  usr_Login :: string
  usr_Email :: "string option"
  usr_AvatarURL :: string
  usr_CreatedAt :: instant

record project =
  prj_ID :: int64
  prj_CreatedBy :: "int64 option"
  prj_Role :: string
  prj_Name :: string
  prj_Slug :: string
  prj_CreatedAt :: instant

record installation =
  ins_GitHubInstallationID :: int64
  ins_GitHubAccountID :: int64
  ins_TargetType :: string
  ins_TargetLogin :: string
  ins_RepositorySelection :: "string option"
  ins_CreatedAt :: instant
  ins_SyncedAt :: instant
  ins_DeletedAt :: "instant option"

record repo =
  rep_RepoID :: int64
  rep_FullName :: string
  rep_Owner :: string
  rep_OwnerID :: int64
  rep_Visibility :: string
  rep_SyncedAt :: instant
  rep_Bound :: bool
  rep_CanBind :: bool
  rep_BoundAt :: "instant option"
  rep_RevokedAt :: "instant option"
  rep_UpdatedFrom :: string

record run =
  run_ID :: int64
  run_PublicID :: string
  run_RepoID :: int64
  run_RepoFullName :: string
  run_RepoVisibility :: string
  run_ViewerIsMember :: bool
  run_CommitSHA :: string
  run_WorkflowName :: string
  run_WorkflowRef :: string
  run_WorkflowSHA :: string
  run_JobWorkflowRef :: string
  run_JobWorkflowSHA :: string
  run_JobKey :: string
  run_JobName :: string
  run_JobDisplayName :: "string option"
  run_GitHubRunID :: int64
  run_GitHubJobID :: "int64 option"
  run_RunAttempt :: int64
  run_Branch :: string
  run_EventName :: string
  run_Actor :: string
  run_ActorID :: "int64 option"
  run_RunnerEnvironment :: string
  run_ExecutionID :: string
  run_RunnerName :: string
  run_RunnerOS :: string
  run_CaptureStartedAt :: "instant option"
  run_CaptureEndedAt :: "instant option"
  run_PayloadSHA256 :: string
  run_PRNumber :: "int64 option"
  run_EnrichmentState :: string
  run_EgressJSON :: string
  run_CreatedAt :: instant

text \<open>The zero values of Go, which a composite literal leaves in the fields it does not name.\<close>

definition zero_time :: instant where
  "zero_time = Instant (- 62135596800 * second)"

definition zero_repo :: repo where
  "zero_repo =
     \<lparr>rep_RepoID = 0, rep_FullName = [], rep_Owner = [], rep_OwnerID = 0, rep_Visibility = [],
      rep_SyncedAt = zero_time, rep_Bound = False, rep_CanBind = False, rep_BoundAt = None,
      rep_RevokedAt = None, rep_UpdatedFrom = []\<rparr>"

definition zero_run :: run where
  "zero_run =
     \<lparr>run_ID = 0, run_PublicID = [], run_RepoID = 0, run_RepoFullName = [], run_RepoVisibility = [],
      run_ViewerIsMember = False, run_CommitSHA = [], run_WorkflowName = [], run_WorkflowRef = [],
      run_WorkflowSHA = [], run_JobWorkflowRef = [], run_JobWorkflowSHA = [], run_JobKey = [],
      run_JobName = [], run_JobDisplayName = None, run_GitHubRunID = 0, run_GitHubJobID = None,
      run_RunAttempt = 0, run_Branch = [], run_EventName = [], run_Actor = [], run_ActorID = None,
      run_RunnerEnvironment = [], run_ExecutionID = [], run_RunnerName = [], run_RunnerOS = [],
      run_CaptureStartedAt = None, run_CaptureEndedAt = None, run_PayloadSHA256 = [],
      run_PRNumber = None, run_EnrichmentState = [], run_EgressJSON = [], run_CreatedAt = zero_time\<rparr>"

end
