(* ===== verification/Store_Tables.thy ===== *)
theory Store_Tables
  imports Keyed_Table Types "HOL-Library.Char_ord" "HOL-Library.List_Lexorder"
begin

text \<open>
  The tables that the migrations \<open>0001\<close> to \<open>0006\<close> leave behind, as rows with the columns that the
  store reads or writes, and the constraints that the schema declares, as one predicate
  \<open>db_ok\<close>: primary and unique keys, foreign keys (also those that may be NULL), CHECK conditions,
  and for \<open>repo_coverage\<close> what its two columns mean together. Sequences are counters above every identifier given out (the
  gaps that PostgreSQL leaves in a sequence are not modelled). Timestamps are exact.
\<close>

section \<open>Rows\<close>

record users_row =
  us_id :: int64
  us_display_name :: string
  us_email :: "string option"
  us_avatar_url :: string
  us_created_at :: instant

record identities_row =
  id_provider :: string
  id_provider_user_id :: string
  id_provider_login :: string
  id_user_id :: int64

record sessions_row =
  se_token :: string
  se_user_id :: int64
  se_expires_at :: instant

record projects_row =
  pj_id :: int64
  pj_created_by :: "int64 option"
  pj_name :: string
  pj_slug :: string
  pj_created_at :: instant

record members_row =
  me_project_id :: int64
  me_user_id :: int64
  me_role :: string

record bindings_row =
  bi_project_id :: int64
  bi_repo_id :: int64
  bi_bound_by :: "int64 option"
  bi_bound_at :: instant
  bi_revoked_at :: "instant option"

record tokens_row =
  tk_user_id :: int64
  tk_access_enc :: "nat list"
  tk_access_expires_at :: "instant option"
  tk_refresh_enc :: "nat list option"
  tk_refresh_expires_at :: "instant option"

record access_row =
  ac_user_id :: int64
  ac_repo_id :: int64
  ac_installation_id :: int64

record syncs_row =
  sy_user_id :: int64
  sy_synced_at :: "instant option"
  sy_attempted_at :: "instant option"
  sy_last_error :: "string option"
  sy_etag :: "string option"

record repos_row =
  rp_repo_id :: int64
  rp_full_name :: string
  rp_owner :: string
  rp_owner_id :: int64
  rp_visibility :: string
  rp_visibility_source :: string
  rp_synced_at :: instant

record inst_repos_row =
  ir_installation_id :: int64
  ir_repo_id :: int64
  ir_synced_at :: instant

record coverage_row =
  cv_repo_id :: int64
  cv_installation_id :: "int64 option"
  cv_checked_at :: instant
  cv_uncovered_since :: "instant option"

record runs_row =
  rr_id :: int64
  rr_public_id :: string
  rr_repo_id :: int64
  rr_commit_sha :: string
  rr_workflow_name :: string
  rr_job_workflow_ref :: string
  rr_github_run_id :: int64
  rr_branch :: string
  rr_event_name :: string
  rr_actor :: string
  rr_pr_number :: "int64 option"
  rr_egress_json :: string
  rr_run_attempt :: int64
  rr_workflow_ref :: string
  rr_workflow_sha :: string
  rr_job_workflow_sha :: string
  rr_actor_id :: "int64 option"
  rr_runner_environment :: string
  rr_execution_id :: string
  rr_job_key :: string
  rr_runner_name :: string
  rr_runner_os :: string
  rr_capture_started_at :: "instant option"
  rr_capture_ended_at :: "instant option"
  rr_payload_sha256 :: string
  rr_github_job_id :: "int64 option"
  rr_job_display_name :: "string option"
  rr_job_conclusion :: "string option"
  rr_job_started_at :: "instant option"
  rr_job_completed_at :: "instant option"
  rr_enrichment_state :: string
  rr_created_at :: instant

record db =
  db_users :: "users_row list"
  db_identities :: "identities_row list"
  db_sessions :: "sessions_row list"
  db_projects :: "projects_row list"
  db_members :: "members_row list"
  db_bindings :: "bindings_row list"
  db_tokens :: "tokens_row list"
  db_access :: "access_row list"
  db_syncs :: "syncs_row list"
  db_repos :: "repos_row list"
  db_installations :: "installation list"
  db_inst_repos :: "inst_repos_row list"
  db_coverage :: "coverage_row list"
  db_runs :: "runs_row list"
  db_next_user :: int64
  db_next_project :: int64
  db_next_run :: int64

definition empty_db :: db where
  "empty_db =
     \<lparr>db_users = [], db_identities = [], db_sessions = [], db_projects = [], db_members = [],
      db_bindings = [], db_tokens = [], db_access = [], db_syncs = [], db_repos = [],
      db_installations = [], db_inst_repos = [], db_coverage = [], db_runs = [],
      db_next_user = 1, db_next_project = 1, db_next_run = 1\<rparr>"

section \<open>Keys\<close>

definition identity_key :: "identities_row \<Rightarrow> string \<times> string" where
  "identity_key r = (id_provider r, id_provider_user_id r)"

definition member_key :: "members_row \<Rightarrow> int64 \<times> int64" where
  "member_key r = (me_project_id r, me_user_id r)"

definition binding_key :: "bindings_row \<Rightarrow> int64 \<times> int64" where
  "binding_key r = (bi_project_id r, bi_repo_id r)"

definition access_key :: "access_row \<Rightarrow> int64 \<times> int64" where
  "access_key r = (ac_user_id r, ac_repo_id r)"

definition inst_repo_key :: "inst_repos_row \<Rightarrow> int64 \<times> int64" where
  "inst_repo_key r = (ir_installation_id r, ir_repo_id r)"

definition execution_key :: "runs_row \<Rightarrow> int64 \<times> string" where
  "execution_key r = (rr_repo_id r, rr_execution_id r)"

lemmas key_defs = identity_key_def member_key_def binding_key_def access_key_def inst_repo_key_def execution_key_def

section \<open>Constraints of the schema\<close>

definition coverage_row_ok :: "coverage_row \<Rightarrow> bool" where
  "coverage_row_ok r \<longleftrightarrow> (cv_installation_id r = None \<longleftrightarrow> cv_uncovered_since r \<noteq> None)"

definition repo_row_ok :: "repos_row \<Rightarrow> bool" where
  "repo_row_ok r \<longleftrightarrow> rp_visibility r \<in> {''public'', ''private'', ''internal''} \<and>
     rp_visibility_source r \<in> {''oidc'', ''api''}"

definition enrichment_states :: "string list" where
  "enrichment_states = [''pending'', ''matched'', ''ambiguous'', ''unavailable'']"

text \<open>\<open>UNIQUE\<close> on a column that may be NULL (NULLs never clash), and a foreign key that may be NULL.\<close>

definition unique_some :: "('r \<Rightarrow> 'k option) \<Rightarrow> 'r list \<Rightarrow> bool" where
  "unique_some key rows \<longleftrightarrow> distinct (List.map_filter key rows)"

definition null_or_user :: "users_row list \<Rightarrow> int64 option \<Rightarrow> bool" where
  "null_or_user users ref \<longleftrightarrow> (case ref of None \<Rightarrow> True | Some uid \<Rightarrow> has_key us_id uid users)"

definition member_row_ok :: "members_row \<Rightarrow> bool" where
  "member_row_ok r \<longleftrightarrow> me_role r \<in> {''owner'', ''admin'', ''member''}"

definition users_ok :: "db \<Rightarrow> bool" where
  "users_ok d \<longleftrightarrow> unique_by us_id (db_users d) \<and> unique_some us_email (db_users d) \<and>
     list_all (\<lambda>r. us_id r < db_next_user d) (db_users d) \<and>
     unique_by identity_key (db_identities d) \<and>
     list_all (\<lambda>r. has_key us_id (id_user_id r) (db_users d)) (db_identities d) \<and>
     unique_by se_token (db_sessions d) \<and>
     list_all (\<lambda>r. has_key us_id (se_user_id r) (db_users d)) (db_sessions d) \<and>
     unique_by tk_user_id (db_tokens d) \<and>
     list_all (\<lambda>r. has_key us_id (tk_user_id r) (db_users d)) (db_tokens d) \<and>
     unique_by sy_user_id (db_syncs d) \<and>
     list_all (\<lambda>r. has_key us_id (sy_user_id r) (db_users d)) (db_syncs d) \<and>
     unique_by access_key (db_access d) \<and>
     list_all (\<lambda>r. has_key us_id (ac_user_id r) (db_users d)) (db_access d)"

definition projects_ok :: "db \<Rightarrow> bool" where
  "projects_ok d \<longleftrightarrow> unique_by pj_id (db_projects d) \<and> unique_by pj_slug (db_projects d) \<and>
     list_all (\<lambda>r. pj_id r < db_next_project d) (db_projects d) \<and>
     list_all (\<lambda>r. null_or_user (db_users d) (pj_created_by r)) (db_projects d) \<and>
     unique_by member_key (db_members d) \<and> list_all member_row_ok (db_members d) \<and>
     list_all (\<lambda>r. has_key pj_id (me_project_id r) (db_projects d)) (db_members d) \<and>
     list_all (\<lambda>r. has_key us_id (me_user_id r) (db_users d)) (db_members d) \<and>
     unique_by binding_key (db_bindings d) \<and>
     list_all (\<lambda>r. null_or_user (db_users d) (bi_bound_by r)) (db_bindings d) \<and>
     list_all (\<lambda>r. has_key pj_id (bi_project_id r) (db_projects d)) (db_bindings d) \<and>
     list_all (\<lambda>r. has_key rp_repo_id (bi_repo_id r) (db_repos d)) (db_bindings d)"

definition repos_ok :: "db \<Rightarrow> bool" where
  "repos_ok d \<longleftrightarrow> unique_by rp_repo_id (db_repos d) \<and> list_all repo_row_ok (db_repos d) \<and>
     unique_by ins_GitHubInstallationID (db_installations d) \<and>
     unique_by inst_repo_key (db_inst_repos d) \<and>
     list_all (\<lambda>r. has_key ins_GitHubInstallationID (ir_installation_id r) (db_installations d)) (db_inst_repos d) \<and>
     unique_by cv_repo_id (db_coverage d) \<and> list_all coverage_row_ok (db_coverage d) \<and>
     list_all (\<lambda>r. has_key rp_repo_id (cv_repo_id r) (db_repos d)) (db_coverage d)"

definition runs_ok :: "db \<Rightarrow> bool" where
  "runs_ok d \<longleftrightarrow> unique_by rr_id (db_runs d) \<and> list_all (\<lambda>r. rr_id r < db_next_run d) (db_runs d) \<and>
     unique_by execution_key (db_runs d) \<and> unique_by rr_public_id (db_runs d) \<and>
     list_all (\<lambda>r. rr_enrichment_state r \<in> set enrichment_states) (db_runs d) \<and>
     list_all (\<lambda>r. has_key rp_repo_id (rr_repo_id r) (db_repos d)) (db_runs d)"

definition db_ok :: "db \<Rightarrow> bool" where
  "db_ok d \<longleftrightarrow> users_ok d \<and> projects_ok d \<and> repos_ok d \<and> runs_ok d"

lemmas db_ok_defs = db_ok_def users_ok_def projects_ok_def repos_ok_def runs_ok_def

lemma unique_some_simps [simp]:
  "unique_some key []"
  "unique_some key [r]"
  "unique_some key (rows @ [r]) \<longleftrightarrow>
     unique_some key rows \<and> (case key r of None \<Rightarrow> True | Some k \<Rightarrow> k \<notin> set (List.map_filter key rows))"
  by (auto simp: unique_some_def map_filter_def split: option.split)

lemma unique_some_update_where [simp]:
  assumes "\<And>r. cond r \<Longrightarrow> key (f r) = key r"
  shows "unique_some key (update_where cond f rows) = unique_some key rows"
proof -
  have "List.map_filter key (update_where cond f rows) = List.map_filter key rows"
    using assms by (induction rows) (auto simp: update_where_def map_filter_simps split: option.split)
  then show ?thesis
    by (simp add: unique_some_def)
qed

lemma null_or_user_simps [simp]:
  "null_or_user users None"
  "null_or_user users (Some uid) = has_key us_id uid users"
  "null_or_user (users @ [u]) ref \<longleftrightarrow> null_or_user users ref \<or> ref = Some (us_id u)"
  by (auto simp: null_or_user_def split: option.split)

lemma null_or_user_update_where [simp]:
  "(\<And>u. cond u \<Longrightarrow> us_id (f u) = us_id u) \<Longrightarrow> null_or_user (update_where cond f users) ref = null_or_user users ref"
  by (simp add: null_or_user_def split: option.split)

lemma db_ok_empty: "db_ok empty_db"
  by (simp add: db_ok_defs empty_db_def)

section \<open>PostgreSQL errors and values\<close>

definition unique_violation :: error where "unique_violation = PgError ''23505''"
definition foreign_key_violation :: error where "foreign_key_violation = PgError ''23503''"
definition check_violation :: error where "check_violation = PgError ''23514''"
definition invalid_text :: error where "invalid_text = PgError ''22P02''"

text \<open>
  How PostgreSQL reads a uuid and a jsonb value from text: the canonical text, or None for a
  text that it refuses.
\<close>

record pg_types =
  uuid_in :: "string \<Rightarrow> string option"
  jsonb_in :: "string \<Rightarrow> string option"

section \<open>Ordering of result rows\<close>

text \<open>
  \<open>ORDER BY\<close> descending and ascending. PostgreSQL leaves the order of equal keys open; the model
  keeps table order, and compares texts by their characters where the database has its collation.
\<close>

definition order_desc :: "('r \<Rightarrow> 'k :: linorder) \<Rightarrow> 'r list \<Rightarrow> 'r list" where
  "order_desc f rows = rev (sort_key f (rev rows))"

definition order_asc :: "('r \<Rightarrow> 'k :: linorder) \<Rightarrow> 'r list \<Rightarrow> 'r list" where
  "order_asc f rows = sort_key f rows"

lemma set_order_desc [simp]: "set (order_desc f rows) = set rows"
  by (simp add: order_desc_def)

lemma set_order_asc [simp]: "set (order_asc f rows) = set rows"
  by (simp add: order_asc_def)

lemma length_order [simp]: "length (order_desc f rows) = length rows" "length (order_asc f rows) = length rows"
  by (simp_all add: order_desc_def order_asc_def)

lemma order_desc_sorted: "sorted_wrt (\<lambda>a b. f b \<le> f a) (order_desc f rows)"
proof -
  have "sorted_wrt (\<lambda>a b. f a \<le> f b) (sort_key f (rev rows))"
    using sorted_sort_key [of f "rev rows"] by (simp add: sorted_map)
  then show ?thesis
    by (simp add: order_desc_def sorted_wrt_rev)
qed

end
