(* ===== verification/Pg.thy ===== *)
theory Pg
  imports Prelude
begin

text \<open>
  How the server talks to PostgreSQL through \<open>pgxpool\<close>: single statements that commit by
  themselves (\<open>pool.Exec\<close>, \<open>pool.QueryRow\<close>, \<open>pool.Query\<close>) and transactions (\<open>pool.Begin\<close>, the
  statements on \<open>tx\<close>, \<open>tx.Commit\<close>, and the deferred \<open>tx.Rollback\<close> on every other exit).

  Every exchange with the database may fail. The state therefore carries, beside the committed
  tables, the fate of the coming exchanges: \<open>Before e\<close> loses the request (nothing happened),
  \<open>After e\<close> loses the reply (the database acted, the client sees the error). An empty list means
  that no more failures come. A theorem over all states covers all failures at all points.

  Two documented rules of the database matter to this program and are part of the model: a
  statement that fails leaves the tables as they were, and inside a transaction every statement
  after a failed one is refused with code 25P02 until the transaction ends.

  Statements are functions from the tables to an error or a value and new tables, written with
  the store operations. Statements of concurrent requests are not interleaved inside one
  transaction; operations run one after another.
\<close>

section \<open>Exchanges\<close>

datatype fault = Before error | After error

type_synonym fate = "fault option list"

type_synonym ('t, 'a) stmt = "'t \<Rightarrow> ('a \<times> 't) result"

record 't pg =
  tables :: 't
  coming :: fate

definition healthy :: "'t \<Rightarrow> 't pg" where
  "healthy t = \<lparr>tables = t, coming = []\<rparr>"

definition next_fate :: "fate \<Rightarrow> fault option \<times> fate" where
  "next_fate fs = (case fs of [] \<Rightarrow> (None, []) | f # fs' \<Rightarrow> (f, fs'))"

lemma next_fate_simps [simp]:
  "next_fate [] = (None, [])" "next_fate (f # fs) = (f, fs)"
  by (simp_all add: next_fate_def)

section \<open>Single statements\<close>

type_synonym ('t, 'a) dbop = "'t pg \<Rightarrow> 'a result \<times> 't pg"

definition exec :: "('t, 'a) stmt \<Rightarrow> ('t, 'a) dbop" where
  "exec st s =
     (case next_fate (coming s) of
        (Some (Before e), fs) \<Rightarrow> (Inl e, s\<lparr>coming := fs\<rparr>)
      | (Some (After e), fs) \<Rightarrow>
          (Inl e, (case st (tables s) of
                     Inl _ \<Rightarrow> s\<lparr>coming := fs\<rparr>
                   | Inr (_, t) \<Rightarrow> s\<lparr>tables := t, coming := fs\<rparr>))
      | (None, fs) \<Rightarrow>
          (case st (tables s) of
             Inl e \<Rightarrow> (Inl e, s\<lparr>coming := fs\<rparr>)
           | Inr (x, t) \<Rightarrow> (Inr x, s\<lparr>tables := t, coming := fs\<rparr>)))"

text \<open>A query reads and does not write.\<close>

definition query :: "('t \<Rightarrow> 'a result) \<Rightarrow> ('t, 'a) dbop" where
  "query q = exec (\<lambda>t. bind_result (q t) (\<lambda>x. Inr (x, t)))"

text \<open>\<open>QueryRow(...).Scan\<close>: the first row, or \<open>pgx.ErrNoRows\<close> when there is none.\<close>

definition query_row :: "('t \<Rightarrow> 'a option) \<Rightarrow> ('t, 'a) dbop" where
  "query_row q s =
     (case query (\<lambda>t. Inr (q t)) s of
        (Inl e, s') \<Rightarrow> (Inl e, s')
      | (Inr None, s') \<Rightarrow> (Inl NoRows, s')
      | (Inr (Some v), s') \<Rightarrow> (Inr v, s'))"

text \<open>Sequencing as the Go code does it, and the wrapping of an error with a message.\<close>

definition ret :: "'a \<Rightarrow> 's \<Rightarrow> 'a result \<times> 's" where
  "ret x s = (Inr x, s)"

definition fail :: "error \<Rightarrow> 's \<Rightarrow> 'a result \<times> 's" where
  "fail e s = (Inl e, s)"

definition bind_op :: "('s \<Rightarrow> 'a result \<times> 's) \<Rightarrow> ('a \<Rightarrow> 's \<Rightarrow> 'b result \<times> 's) \<Rightarrow> 's \<Rightarrow> 'b result \<times> 's" where
  "bind_op m f s = (case m s of (Inl e, s') \<Rightarrow> (Inl e, s') | (Inr x, s') \<Rightarrow> f x s')"

definition catch_op :: "('s \<Rightarrow> 'a result \<times> 's) \<Rightarrow> (error \<Rightarrow> 's \<Rightarrow> 'b result \<times> 's) \<Rightarrow>
    ('a \<Rightarrow> 's \<Rightarrow> 'b result \<times> 's) \<Rightarrow> 's \<Rightarrow> 'b result \<times> 's" where
  "catch_op m h f s = (case m s of (Inl e, s') \<Rightarrow> h e s' | (Inr x, s') \<Rightarrow> f x s')"

definition wrap_err :: "string \<Rightarrow> ('s \<Rightarrow> 'a result \<times> 's) \<Rightarrow> 's \<Rightarrow> 'a result \<times> 's" where
  "wrap_err msg m s = (case m s of (Inl e, s') \<Rightarrow> (Inl (Wrap msg e), s') | (Inr x, s') \<Rightarrow> (Inr x, s'))"

text \<open>No row becomes \<open>ErrNotFound\<close>, any other error is wrapped.\<close>

definition or_not_found :: "string \<Rightarrow> ('s \<Rightarrow> 'a result \<times> 's) \<Rightarrow> 's \<Rightarrow> 'a result \<times> 's" where
  "or_not_found msg m =
     catch_op m (\<lambda>err. if errors_Is err NoRows then fail NotFound else fail (Wrap msg err)) ret"

text \<open>A loop over a list that stops at the first error.\<close>

primrec for_each :: "('x \<Rightarrow> 's \<Rightarrow> unit result \<times> 's) \<Rightarrow> 'x list \<Rightarrow> 's \<Rightarrow> unit result \<times> 's" where
  "for_each f [] s = (Inr (), s)"
| "for_each f (x # xs) s = (case f x s of (Inl e, s') \<Rightarrow> (Inl e, s') | (Inr _, s') \<Rightarrow> for_each f xs s')"

section \<open>Transactions\<close>

record 't tx =
  work :: 't
  aborted :: bool
  tx_coming :: fate

type_synonym ('t, 'a) txop = "'t tx \<Rightarrow> 'a result \<times> 't tx"

definition in_failed_transaction :: error where
  "in_failed_transaction = PgError ''25P02''"

definition tx_exec :: "('t, 'a) stmt \<Rightarrow> ('t, 'a) txop" where
  "tx_exec st x =
     (case next_fate (tx_coming x) of
        (Some (Before e), fs) \<Rightarrow> (Inl e, x\<lparr>aborted := True, tx_coming := fs\<rparr>)
      | (Some (After e), fs) \<Rightarrow> (Inl e, x\<lparr>aborted := True, tx_coming := fs\<rparr>)
      | (None, fs) \<Rightarrow>
          if aborted x then (Inl in_failed_transaction, x\<lparr>tx_coming := fs\<rparr>)
          else (case st (work x) of
                  Inl e \<Rightarrow> (Inl e, x\<lparr>aborted := True, tx_coming := fs\<rparr>)
                | Inr (v, t) \<Rightarrow> (Inr v, x\<lparr>work := t, tx_coming := fs\<rparr>)))"

definition tx_query :: "('t \<Rightarrow> 'a result) \<Rightarrow> ('t, 'a) txop" where
  "tx_query q = tx_exec (\<lambda>t. bind_result (q t) (\<lambda>v. Inr (v, t)))"

text \<open>
  \<open>pgx.ErrNoRows\<close> comes from the client library when a query gave no row; the database does not
  see it as a failure, so the transaction goes on.
\<close>

definition tx_query_row :: "('t \<Rightarrow> 'a option) \<Rightarrow> ('t, 'a) txop" where
  "tx_query_row q x =
     (case tx_exec (\<lambda>t. Inr (q t, t)) x of
        (Inl e, x') \<Rightarrow> (Inl e, x')
      | (Inr None, x') \<Rightarrow> (Inl NoRows, x')
      | (Inr (Some v), x') \<Rightarrow> (Inr v, x'))"

text \<open>
  Begin, body, Commit. On every error exit the deferred Rollback discards the work. Committing
  a transaction that has failed rolls it back, and the client library reports that as an error.
\<close>

definition commit_rolled_back :: error where
  "commit_rolled_back = External ''commit unexpectedly resulted in rollback''"

definition transaction :: "string \<Rightarrow> string \<Rightarrow> ('t, 'a) txop \<Rightarrow> ('t, 'a) dbop" where
  "transaction begin_msg commit_msg body s =
     (case next_fate (coming s) of
        (Some (Before e), fs) \<Rightarrow> (Inl (Wrap begin_msg e), s\<lparr>coming := fs\<rparr>)
      | (Some (After e), fs) \<Rightarrow> (Inl (Wrap begin_msg e), s\<lparr>coming := fs\<rparr>)
      | (None, fs) \<Rightarrow>
          (case body \<lparr>work = tables s, aborted = False, tx_coming = fs\<rparr> of
             (Inl e, x) \<Rightarrow> (Inl e, s\<lparr>coming := tx_coming x\<rparr>)
           | (Inr v, x) \<Rightarrow>
               (case next_fate (tx_coming x) of
                  (Some (Before e), fs') \<Rightarrow> (Inl (Wrap commit_msg e), s\<lparr>coming := fs'\<rparr>)
                | (Some (After e), fs') \<Rightarrow>
                    (Inl (Wrap commit_msg e),
                     if aborted x then s\<lparr>coming := fs'\<rparr> else s\<lparr>tables := work x, coming := fs'\<rparr>)
                | (None, fs') \<Rightarrow>
                    if aborted x then (Inl (Wrap commit_msg commit_rolled_back), s\<lparr>coming := fs'\<rparr>)
                    else (Inr v, s\<lparr>tables := work x, coming := fs'\<rparr>))))"

section \<open>Rules\<close>

lemmas op_defs = ret_def fail_def bind_op_def catch_op_def wrap_err_def

lemma exec_healthy [simp]:
  "exec st (healthy t) =
     (case st t of Inl e \<Rightarrow> (Inl e, healthy t) | Inr (x, t') \<Rightarrow> (Inr x, healthy t'))"
  by (simp add: exec_def healthy_def split: sum.splits)

lemma query_healthy [simp]: "query q (healthy t) = (q t, healthy t)"
  by (cases "q t") (simp_all add: query_def)

lemma tables_healthy [simp]: "tables (healthy t) = t" "coming (healthy t) = []"
  by (simp_all add: healthy_def)

lemma query_tables [simp]: "tables (snd (query q s)) = tables s"
  by (auto simp: query_def exec_def bind_result_def split: prod.splits option.splits fault.splits sum.splits)

text \<open>A statement that succeeds has taken effect; one that fails may have taken effect or not.\<close>

lemma exec_ok: "exec st s = (Inr x, s') \<Longrightarrow> st (tables s) = Inr (x, tables s')"
  by (auto simp: exec_def split: prod.splits option.splits fault.splits sum.splits)

lemma exec_tables:
  "tables (snd (exec st s)) = tables s \<or> (\<exists>x. st (tables s) = Inr (x, tables (snd (exec st s))))"
  by (auto simp: exec_def split: prod.splits option.splits fault.splits sum.splits)

lemma query_ok: "query q s = (Inr x, s') \<Longrightarrow> q (tables s) = Inr x \<and> tables s' = tables s"
  unfolding query_def by (drule exec_ok) (auto simp: bind_result_Inr)

lemma query_row_healthy [simp]:
  "query_row q (healthy t) = (case q t of None \<Rightarrow> Inl NoRows | Some v \<Rightarrow> Inr v, healthy t)"
  by (simp add: query_row_def split: option.split)

lemma query_row_tables [simp]: "tables (snd (query_row q s)) = tables s"
proof (cases "query (\<lambda>t. Inr (q t)) s")
  case (Pair r s')
  then have "tables s' = tables s"
    using query_tables [of "\<lambda>t. Inr (q t)" s] by simp
  with Pair show ?thesis
    by (auto simp: query_row_def split: sum.splits option.splits)
qed

lemma query_row_ok: "query_row q s = (Inr v, s') \<Longrightarrow> q (tables s) = Some v \<and> tables s' = tables s"
  by (auto simp: query_row_def split: prod.splits sum.splits option.splits dest: query_ok)

lemma or_not_found_ok: "or_not_found msg m s = (Inr v, s') \<longleftrightarrow> m s = (Inr v, s')"
  by (auto simp: or_not_found_def catch_op_def ret_def fail_def split: prod.splits sum.splits)

lemma snd_or_not_found [simp]: "snd (or_not_found msg m s) = snd (m s)"
  by (auto simp: or_not_found_def catch_op_def ret_def fail_def split: prod.splits sum.splits)

lemma fst_or_not_found:
  "fst (or_not_found msg m s) =
     (case fst (m s) of
        Inl e \<Rightarrow> Inl (if errors_Is e NoRows then NotFound else Wrap msg e)
      | Inr v \<Rightarrow> Inr v)"
  by (auto simp: or_not_found_def catch_op_def ret_def fail_def split: prod.splits sum.splits)

text \<open>
  Atomicity, the reason the code uses a transaction: afterwards the tables are the old ones or
  the ones the whole body made in an unfailed transaction; success means the latter.
\<close>

definition body_result :: "('t, 'a) txop \<Rightarrow> 't pg \<Rightarrow> 'a result \<times> 't tx" where
  "body_result body s =
     body \<lparr>work = tables s, aborted = False, tx_coming = snd (next_fate (coming s))\<rparr>"

lemma transaction_atomic:
  "tables (snd (transaction b c body s)) = tables s \<or>
   (\<exists>v x. body_result body s = (Inr v, x) \<and> \<not> aborted x \<and>
      tables (snd (transaction b c body s)) = work x)"
  by (auto simp: transaction_def body_result_def Let_def
      split: prod.splits option.splits fault.splits sum.splits if_splits)

lemma transaction_ok:
  "transaction b c body s = (Inr v, s') \<Longrightarrow>
   \<exists>x. body_result body s = (Inr v, x) \<and> \<not> aborted x \<and> tables s' = work x"
  by (auto simp: transaction_def body_result_def
      split: prod.splits option.splits fault.splits sum.splits if_splits)

lemma tx_exec_healthy:
  "tx_coming x = [] \<Longrightarrow> \<not> aborted x \<Longrightarrow>
   tx_exec st x = (case st (work x) of Inl e \<Rightarrow> (Inl e, x\<lparr>aborted := True\<rparr>)
                   | Inr (v, t) \<Rightarrow> (Inr v, x\<lparr>work := t\<rparr>))"
  by (auto simp: tx_exec_def split: sum.splits)

lemma tx_exec_aborted: "aborted x \<Longrightarrow> \<exists>e. fst (tx_exec st x) = Inl e \<and> aborted (snd (tx_exec st x))"
  by (auto simp: tx_exec_def split: prod.splits option.splits fault.splits)

lemma tx_exec_aborted_keeps: "aborted x \<Longrightarrow> work (snd (tx_exec st x)) = work x"
  by (auto simp: tx_exec_def split: prod.splits option.splits fault.splits)

lemma tx_exec_ok:
  "tx_exec st x = (Inr v, x') \<Longrightarrow> st (work x) = Inr (v, work x') \<and> aborted x' = aborted x \<and> \<not> aborted x"
  by (auto simp: tx_exec_def split: prod.splits option.splits fault.splits if_splits sum.splits)

lemma tx_query_row_ok:
  "tx_query_row q x = (Inr v, x') \<Longrightarrow> q (work x) = Some v \<and> work x' = work x \<and> \<not> aborted x'"
  by (auto simp: tx_query_row_def split: prod.splits sum.splits option.splits dest: tx_exec_ok)

lemma bind_op_ok: "bind_op m f s = (Inr y, s'') \<longleftrightarrow> (\<exists>x s'. m s = (Inr x, s') \<and> f x s' = (Inr y, s''))"
  by (auto simp: bind_op_def split: prod.splits sum.splits)

lemma wrap_err_ok: "wrap_err msg m s = (Inr y, s') \<longleftrightarrow> m s = (Inr y, s')"
  by (auto simp: wrap_err_def split: prod.splits sum.splits)

lemma wrap_err_snd [simp]: "snd (wrap_err msg m s) = snd (m s)"
  by (auto simp: wrap_err_def split: prod.splits sum.splits)

lemma fst_wrap_err: "fst (wrap_err msg m s) = (case fst (m s) of Inl e \<Rightarrow> Inl (Wrap msg e) | Inr x \<Rightarrow> Inr x)"
  by (auto simp: wrap_err_def split: prod.splits sum.splits)

section \<open>Preservation through the combinators\<close>

definition preserves :: "('s \<Rightarrow> bool) \<Rightarrow> ('s \<Rightarrow> 'a result \<times> 's) \<Rightarrow> bool" where
  "preserves P m \<longleftrightarrow> (\<forall>s. P s \<longrightarrow> P (snd (m s)))"

named_theorems preserve_rules \<open>rules for \<open>preserves\<close>\<close>

lemma preservesD: "preserves P m \<Longrightarrow> P s \<Longrightarrow> P (snd (m s))"
  by (simp add: preserves_def)

lemma preservesE: "preserves P m \<Longrightarrow> P s \<Longrightarrow> m s = (r, s') \<Longrightarrow> P s'"
  using preservesD [of P m s] by simp

lemma preserves_ret [preserve_rules]: "preserves P (ret x)"
  by (simp add: preserves_def ret_def)

lemma preserves_fail [preserve_rules]: "preserves P (fail e)"
  by (simp add: preserves_def fail_def)

lemma preserves_wrap [preserve_rules]: "preserves P m \<Longrightarrow> preserves P (wrap_err msg m)"
  by (simp add: preserves_def)

lemma preserves_catch [preserve_rules]:
  "preserves P m \<Longrightarrow> (\<And>e. preserves P (h e)) \<Longrightarrow> (\<And>x. preserves P (f x)) \<Longrightarrow> preserves P (catch_op m h f)"
  unfolding preserves_def [of _ "catch_op m h f"] catch_op_def
  by (auto split: prod.split sum.split intro: preservesD dest: preservesE)

lemma preserves_bind [preserve_rules]:
  "preserves P m \<Longrightarrow> (\<And>x. preserves P (f x)) \<Longrightarrow> preserves P (bind_op m f)"
  unfolding preserves_def [of _ "bind_op m f"] bind_op_def
  by (auto split: prod.split sum.split intro: preservesD dest: preservesE)

lemma preserves_if [preserve_rules]:
  "(c \<Longrightarrow> preserves P m) \<Longrightarrow> (\<not> c \<Longrightarrow> preserves P m') \<Longrightarrow> preserves P (if c then m else m')"
  by simp

lemma preserves_option [preserve_rules]:
  "preserves P m \<Longrightarrow> (\<And>x. preserves P (f x)) \<Longrightarrow> preserves P (case v of None \<Rightarrow> m | Some x \<Rightarrow> f x)"
  by (cases v) simp_all

lemma preserves_for_each [preserve_rules]:
  assumes "\<And>x. preserves P (f x)"
  shows "preserves P (for_each f xs)"
proof -
  have "P s \<Longrightarrow> P (snd (for_each f xs s))" for s
  proof (induction xs arbitrary: s)
    case (Cons x xs)
    then show ?case
      using assms [of x] preservesE [OF assms [of x], of s]
      by (auto split: prod.split sum.split)
  qed simp
  then show ?thesis by (simp add: preserves_def)
qed

lemma preserves_or_not_found [preserve_rules]: "preserves P m \<Longrightarrow> preserves P (or_not_found msg m)"
  by (simp add: preserves_def)

lemma preserves_query [preserve_rules]: "preserves (\<lambda>s. I (tables s)) (query q)"
  by (simp add: preserves_def)

lemma preserves_query_row [preserve_rules]: "preserves (\<lambda>s. I (tables s)) (query_row q)"
  by (simp add: preserves_def)

lemma preserves_tx_query_row [preserve_rules]: "preserves (\<lambda>x. I (work x)) (tx_query_row q)"
proof -
  have "work (snd (tx_query_row q x)) = work x" for x
    by (auto simp: tx_query_row_def tx_exec_def split: prod.splits option.splits fault.splits sum.splits if_splits)
  then show ?thesis by (simp add: preserves_def)
qed

lemma preserves_transaction [preserve_rules]:
  assumes "preserves (\<lambda>x. I (work x)) body"
  shows "preserves (\<lambda>s. I (tables s)) (transaction b c body)"
proof -
  have "I (tables (snd (transaction b c body s)))" if "I (tables s)" for s
    using transaction_atomic [of b c body s] preservesD [OF assms] that
    by (metis body_result_def select_convs(1) snd_conv)
  then show ?thesis by (simp add: preserves_def)
qed

section \<open>Invariants of the tables\<close>

text \<open>
  The contract of a statement towards an invariant of the tables, and what follows for the
  operations made of it, whatever fails.
\<close>

locale keeps_invariant =
  fixes invar :: "'t \<Rightarrow> bool" and st :: "('t, 'a) stmt"
  assumes keeps: "invar t \<Longrightarrow> st t = Inr (x, t') \<Longrightarrow> invar t'"
begin

lemma exec_keeps: "invar (tables s) \<Longrightarrow> invar (tables (snd (exec st s)))"
  using exec_tables [of st s] keeps by metis

lemma wrapped_exec_keeps: "invar (tables s) \<Longrightarrow> invar (tables (snd (wrap_err msg (exec st) s)))"
  by (simp add: exec_keeps)

lemma tx_exec_keeps: "invar (work x) \<Longrightarrow> invar (work (snd (tx_exec st x)))"
  using keeps by (auto simp: tx_exec_def split: prod.splits option.splits fault.splits sum.splits)

lemma preserves_exec: "preserves (\<lambda>s. invar (tables s)) (exec st)"
  by (simp add: preserves_def exec_keeps)

lemma preserves_tx_exec: "preserves (\<lambda>x. invar (work x)) (tx_exec st)"
  by (simp add: preserves_def tx_exec_keeps)

end

end
