(* ===== verification/Go_Strings.thy ===== *)
theory Go_Strings
  imports Prelude
begin

text \<open>
  The parts of Go's \<open>strings\<close>, \<open>strconv\<close> and \<open>path/filepath\<close> that the server uses. A Go string
  is a sequence of bytes, and so is \<open>string\<close> here: one \<open>char\<close> per byte.
  \<^item> \<open>TrimSpace\<close> and \<open>Fields\<close> are exact on every byte sequence: the UTF-8 encodings of all
    white-space code points are listed, and no other bytes can be confused with one.
  \<^item> \<open>ToLower\<close> maps the ASCII letters and the only two other code points whose lower case is
    ASCII (U+0130 and U+212A); the remaining non-ASCII letters keep their bytes. Every
    comparison the server makes after \<open>ToLower\<close> is against an ASCII word, so it has the same
    outcome.
  \<^item> \<open>EqualFold\<close> folds the ASCII letters and the two code points that fold to ASCII (U+017F and
    U+212A); other non-ASCII text is compared byte by byte.
\<close>

section \<open>Prefixes of a finite set of byte sequences\<close>

text \<open>
  \<open>trim_encs ws s\<close> drops members of \<open>ws\<close> from the front of \<open>s\<close> for as long as one is there.
\<close>

function trim_encs :: "string list \<Rightarrow> string \<Rightarrow> string" where
  "trim_encs ws s =
     (case find (\<lambda>w. w \<noteq> [] \<and> prefix w s) ws of
        None \<Rightarrow> s
      | Some w \<Rightarrow> trim_encs ws (drop (length w) s))"
  by pat_completeness auto
termination
  by (relation "measure (\<lambda>(ws, s). length s)")
     (auto simp: find_Some_iff prefix_def)

declare trim_encs.simps [simp del]

lemma trim_encs_None: "find (\<lambda>w. w \<noteq> [] \<and> prefix w s) ws = None \<Longrightarrow> trim_encs ws s = s"
  by (simp add: trim_encs.simps [of ws s])

lemma trim_encs_suffix: "suffix (trim_encs ws s) s"
proof (induction ws s rule: trim_encs.induct)
  case (1 ws s)
  show ?case
  proof (cases "find (\<lambda>w. w \<noteq> [] \<and> prefix w s) ws")
    case None
    then show ?thesis by (simp add: trim_encs_None)
  next
    case (Some w)
    with "1.IH" have "suffix (trim_encs ws (drop (length w) s)) (drop (length w) s)"
      by blast
    then have "suffix (trim_encs ws (drop (length w) s)) s"
      by (meson suffix_drop suffix_order.trans)
    with Some show ?thesis by (simp add: trim_encs.simps [of ws s])
  qed
qed

lemma trim_encs_result:
  "find (\<lambda>w. w \<noteq> [] \<and> prefix w (trim_encs ws s)) ws = None"
proof (induction ws s rule: trim_encs.induct)
  case (1 ws s)
  show ?case
  proof (cases "find (\<lambda>w. w \<noteq> [] \<and> prefix w s) ws")
    case None
    then show ?thesis by (simp add: trim_encs_None)
  next
    case (Some w)
    with "1.IH" show ?thesis by (simp add: trim_encs.simps [of ws s])
  qed
qed

lemma trim_encs_idem [simp]: "trim_encs ws (trim_encs ws s) = trim_encs ws s"
  by (rule trim_encs_None) (rule trim_encs_result)

lemma trim_encs_prefix_closed:
  assumes "trim_encs ws s = s" and "prefix t s"
  shows "trim_encs ws t = t"
proof (rule trim_encs_None)
  from assms(1) have none: "find (\<lambda>w. w \<noteq> [] \<and> prefix w s) ws = None"
    using trim_encs_result by metis
  have "prefix w t \<Longrightarrow> prefix w s" for w
    using assms(2) by (rule prefix_order.trans [rotated])
  with none show "find (\<lambda>w. w \<noteq> [] \<and> prefix w t) ws = None"
    by (auto simp: find_None_iff)
qed

lemma length_trim_encs: "length (trim_encs ws s) \<le> length s"
  using trim_encs_suffix by (rule suffix_length_le)

section \<open>White space\<close>

definition white_space :: "string list" where
  "white_space =
     [[CHR 0x09], [CHR 0x0A], [CHR 0x0B], [CHR 0x0C], [CHR 0x0D], [CHR 0x20],
      [CHR 0xC2, CHR 0x85], [CHR 0xC2, CHR 0xA0], [CHR 0xE1, CHR 0x9A, CHR 0x80],
      [CHR 0xE2, CHR 0x80, CHR 0x80], [CHR 0xE2, CHR 0x80, CHR 0x81],
      [CHR 0xE2, CHR 0x80, CHR 0x82], [CHR 0xE2, CHR 0x80, CHR 0x83],
      [CHR 0xE2, CHR 0x80, CHR 0x84], [CHR 0xE2, CHR 0x80, CHR 0x85],
      [CHR 0xE2, CHR 0x80, CHR 0x86], [CHR 0xE2, CHR 0x80, CHR 0x87],
      [CHR 0xE2, CHR 0x80, CHR 0x88], [CHR 0xE2, CHR 0x80, CHR 0x89],
      [CHR 0xE2, CHR 0x80, CHR 0x8A], [CHR 0xE2, CHR 0x80, CHR 0xA8],
      [CHR 0xE2, CHR 0x80, CHR 0xA9], [CHR 0xE2, CHR 0x80, CHR 0xAF],
      [CHR 0xE2, CHR 0x81, CHR 0x9F], [CHR 0xE3, CHR 0x80, CHR 0x80]]"

definition TrimSpace :: "string \<Rightarrow> string" where
  "TrimSpace s = rev (trim_encs (map rev white_space) (rev (trim_encs white_space s)))"

definition blank :: "string \<Rightarrow> bool" where
  "blank s \<longleftrightarrow> TrimSpace s = []"

lemma TrimSpace_sublist_left: "prefix (TrimSpace s) (trim_encs white_space s)"
  by (metis TrimSpace_def rev_rev_ident suffix_to_prefix trim_encs_suffix)

lemma TrimSpace_idem [simp, go_string_simps]: "TrimSpace (TrimSpace s) = TrimSpace s"
proof -
  have "trim_encs white_space (TrimSpace s) = TrimSpace s"
    by (rule trim_encs_prefix_closed [OF trim_encs_idem TrimSpace_sublist_left])
  then show ?thesis
    by (simp add: TrimSpace_def)
qed

lemma TrimSpace_Nil [simp, go_string_simps]: "TrimSpace [] = []"
  by (simp add: TrimSpace_def trim_encs.simps white_space_def)

lemma blank_TrimSpace [simp]: "blank (TrimSpace s) = blank s"
  by (simp add: blank_def)

lemma blank_Nil [simp]: "blank []"
  by (simp add: blank_def)

lemma trim_encs_Nil_last: "trim_encs ws s = [] \<Longrightarrow> s \<noteq> [] \<Longrightarrow> \<exists>w \<in> set ws. w \<noteq> [] \<and> last s = last w"
proof (induction ws s rule: trim_encs.induct)
  case (1 ws s)
  show ?case
  proof (cases "find (\<lambda>w. w \<noteq> [] \<and> prefix w s) ws")
    case None
    with 1 show ?thesis by (simp add: trim_encs_None)
  next
    case (Some w)
    then have w: "w \<in> set ws" "w \<noteq> []" "prefix w s"
      by (auto simp: find_Some_iff)
    show ?thesis
    proof (cases "drop (length w) s = []")
      case True
      with w show ?thesis by (auto simp: prefix_def)
    next
      case False
      moreover have "trim_encs ws (drop (length w) s) = []"
        using "1.prems"(1) Some by (simp add: trim_encs.simps [of ws s])
      ultimately have "\<exists>w' \<in> set ws. w' \<noteq> [] \<and> last (drop (length w) s) = last w'"
        using "1.IH" Some by blast
      with False show ?thesis by simp
    qed
  qed
qed

text \<open>A text that begins with a byte that begins no white space is not blank.\<close>

lemma not_blank_Cons: "c \<notin> hd ` set white_space \<Longrightarrow> \<not> blank (c # s)"
proof
  assume c: "c \<notin> hd ` set white_space" and "blank (c # s)"
  have ne: "w \<noteq> []" if "w \<in> set white_space" for w
    using that by (auto simp: white_space_def)
  have "find (\<lambda>w. w \<noteq> [] \<and> prefix w (c # s)) white_space = None"
    using c ne by (auto simp: find_None_iff prefix_Cons) (metis image_eqI list.sel(1))
  then have "trim_encs (map rev white_space) (rev (c # s)) = []"
    using \<open>blank (c # s)\<close> by (simp add: blank_def TrimSpace_def trim_encs_None)
  from trim_encs_Nil_last [OF this] obtain w where "w \<in> set white_space" "w \<noteq> []" "c = last (rev w)"
    by auto
  with c show False by (auto simp: last_rev)
qed

lemma length_TrimSpace: "length (TrimSpace s) \<le> length s"
  by (metis TrimSpace_def length_rev length_trim_encs order_trans)

lemma set_TrimSpace: "set (TrimSpace s) \<subseteq> set s"
  by (metis TrimSpace_sublist_left set_mono_prefix set_mono_suffix subset_trans trim_encs_suffix)

text \<open>\<open>strings.Fields\<close>: the maximal runs of bytes between white space.\<close>

function fields_from :: "string \<Rightarrow> string \<Rightarrow> string list" where
  "fields_from cur s =
     (case s of
        [] \<Rightarrow> if cur = [] then [] else [cur]
      | c # t \<Rightarrow>
          (case find (\<lambda>w. w \<noteq> [] \<and> prefix w s) white_space of
             Some w \<Rightarrow> (if cur = [] then [] else [cur]) @ fields_from [] (drop (length w) s)
           | None \<Rightarrow> fields_from (cur @ [c]) t))"
  by pat_completeness auto
termination
  by (relation "measure (\<lambda>(cur, s). length s)")
     (auto simp: find_Some_iff prefix_def)

declare fields_from.simps [simp del]

definition Fields :: "string \<Rightarrow> string list" where
  "Fields s = fields_from [] s"

section \<open>Letter case\<close>

definition is_upper :: "char \<Rightarrow> bool" where
  "is_upper c \<longleftrightarrow> 65 \<le> (of_char c :: nat) \<and> (of_char c :: nat) \<le> 90"

definition is_lower :: "char \<Rightarrow> bool" where
  "is_lower c \<longleftrightarrow> 97 \<le> (of_char c :: nat) \<and> (of_char c :: nat) \<le> 122"

definition is_digit :: "char \<Rightarrow> bool" where
  "is_digit c \<longleftrightarrow> 48 \<le> (of_char c :: nat) \<and> (of_char c :: nat) \<le> 57"

definition lower_char :: "char \<Rightarrow> char" where
  "lower_char c = (if is_upper c then char_of (of_char c + 32 :: nat) else c)"

function ToLower :: "string \<Rightarrow> string" where
  "ToLower [] = []"
| "ToLower (c # s) =
     (if c = CHR 0xC4 \<and> take 1 s = [CHR 0xB0] then CHR ''i'' # ToLower (drop 1 s)
      else if c = CHR 0xE2 \<and> take 2 s = [CHR 0x84, CHR 0xAA] then CHR ''k'' # ToLower (drop 2 s)
      else lower_char c # ToLower s)"
  by pat_completeness auto
termination
  by (relation "measure length") auto

function fold_case :: "string \<Rightarrow> string" where
  "fold_case [] = []"
| "fold_case (c # s) =
     (if c = CHR 0xC5 \<and> take 1 s = [CHR 0xBF] then CHR ''s'' # fold_case (drop 1 s)
      else if c = CHR 0xE2 \<and> take 2 s = [CHR 0x84, CHR 0xAA] then CHR ''k'' # fold_case (drop 2 s)
      else lower_char c # fold_case s)"
  by pat_completeness auto
termination
  by (relation "measure length") auto

definition EqualFold :: "string \<Rightarrow> string \<Rightarrow> bool" where
  "EqualFold a b \<longleftrightarrow> fold_case a = fold_case b"

lemma of_char_lower_char:
  "(of_char (lower_char c) :: nat) = (if is_upper c then of_char c + 32 else of_char c)"
  by (auto simp: lower_char_def is_upper_def)

lemma lower_char_not_upper [simp]: "\<not> is_upper (lower_char c)"
  by (auto simp: is_upper_def of_char_lower_char)

lemma lower_char_id [simp]: "\<not> is_upper c \<Longrightarrow> lower_char c = c"
  by (simp add: lower_char_def)

lemma ToLower_no_upper: "c \<in> set (ToLower s) \<Longrightarrow> \<not> is_upper c"
proof (induction s rule: ToLower.induct)
  case 1
  then show ?case by simp
next
  case (2 d s)
  have "\<not> is_upper (CHR ''i'')" and "\<not> is_upper (CHR ''k'')"
    by (simp_all add: is_upper_def)
  with 2 show ?case by (auto split: if_splits)
qed

lemma EqualFold_refl [simp]: "EqualFold a a"
  by (simp add: EqualFold_def)

lemma EqualFold_sym: "EqualFold a b = EqualFold b a"
  by (auto simp: EqualFold_def)

lemma EqualFold_trans: "EqualFold a b \<Longrightarrow> EqualFold b c \<Longrightarrow> EqualFold a c"
  by (simp add: EqualFold_def)

section \<open>Prefixes, suffixes and splitting\<close>

definition HasPrefix :: "string \<Rightarrow> string \<Rightarrow> bool" where
  "HasPrefix s p \<longleftrightarrow> prefix p s"

definition TrimSuffix :: "string \<Rightarrow> string \<Rightarrow> string" where
  "TrimSuffix s t = (if suffix t s then take (length s - length t) s else s)"

text \<open>\<open>strings.TrimRight\<close> and \<open>strings.Trim\<close> with a one-character cutset.\<close>

definition TrimRight :: "string \<Rightarrow> char \<Rightarrow> string" where
  "TrimRight s c = rev (dropWhile (\<lambda>x. x = c) (rev s))"

definition TrimBoth :: "string \<Rightarrow> char \<Rightarrow> string" where
  "TrimBoth s c = TrimRight (dropWhile (\<lambda>x. x = c) s) c"

text \<open>\<open>strings.Split\<close> at a one-character separator; it never returns the empty list.\<close>

fun Split :: "string \<Rightarrow> char \<Rightarrow> string list" where
  "Split [] sep = [[]]"
| "Split (c # s) sep =
     (if c = sep then [] # Split s sep
      else (case Split s sep of [] \<Rightarrow> [[c]] | p # ps \<Rightarrow> (c # p) # ps))"

lemma Split_not_Nil [simp]: "Split s sep \<noteq> []"
  by (induction s) (auto split: list.splits)

text \<open>\<open>strings.SplitN(s, sep, 2)\<close>: the text before and after the first separator.\<close>

definition SplitN2 :: "string \<Rightarrow> char \<Rightarrow> string list" where
  "SplitN2 s sep =
     (if sep \<in> set s
      then [takeWhile (\<lambda>x. x \<noteq> sep) s, tl (dropWhile (\<lambda>x. x \<noteq> sep) s)]
      else [s])"

text \<open>\<open>strings.LastIndex\<close> for a one-character substring, with None for -1.\<close>

definition LastIndex :: "string \<Rightarrow> char \<Rightarrow> nat option" where
  "LastIndex s c =
     (if c \<in> set s then Some (length s - 1 - length (takeWhile (\<lambda>x. x \<noteq> c) (rev s))) else None)"

text \<open>\<open>strings.ReplaceAll(raw, `\n`, "\n")\<close>: a backslash followed by n becomes a line feed.\<close>

fun unescape_newlines :: "string \<Rightarrow> string" where
  "unescape_newlines [] = []"
| "unescape_newlines [c] = [c]"
| "unescape_newlines (c # d # s) =
     (if c = CHR 0x5C \<and> d = CHR ''n'' then CHR 0x0A # unescape_newlines s
      else c # unescape_newlines (d # s))"

text \<open>\<open>filepath.Base\<close> on Unix.\<close>

definition path_Base :: "string \<Rightarrow> string" where
  "path_Base p =
     (if p = [] then ''.''
      else (let q = TrimRight p (CHR ''/'')
            in if q = [] then ''/'' else rev (takeWhile (\<lambda>x. x \<noteq> CHR ''/'') (rev q))))"

lemma path_Base_not_Nil [simp]: "path_Base p \<noteq> []"
proof -
  have "takeWhile (\<lambda>x. x \<noteq> CHR ''/'') (dropWhile (\<lambda>x. x = CHR ''/'') (rev p)) \<noteq> []"
    if "dropWhile (\<lambda>x. x = CHR ''/'') (rev p) \<noteq> []"
    using hd_dropWhile [OF that] that by (cases "dropWhile (\<lambda>x. x = CHR ''/'') (rev p)") auto
  then show ?thesis
    by (auto simp: path_Base_def TrimRight_def Let_def)
qed

section \<open>Decimal numbers\<close>

definition digit_char :: "nat \<Rightarrow> char" where
  "digit_char d = char_of (48 + d)"

definition digit_val :: "char \<Rightarrow> nat" where
  "digit_val c = of_char c - 48"

fun nat_digits :: "nat \<Rightarrow> string" where
  "nat_digits n = (if n < 10 then [digit_char n] else nat_digits (n div 10) @ [digit_char (n mod 10)])"

declare nat_digits.simps [simp del]

definition FormatInt :: "int \<Rightarrow> string" where
  "FormatInt i = (if i < 0 then CHR ''-'' # nat_digits (nat (- i)) else nat_digits (nat i))"

fun parse_digits :: "nat \<Rightarrow> string \<Rightarrow> nat option" where
  "parse_digits acc [] = Some acc"
| "parse_digits acc (c # s) =
     (if is_digit c then parse_digits (10 * acc + digit_val c) s else None)"

text \<open>\<open>strconv.ParseInt(s, 10, 64)\<close>, with None for a syntax or a range error.\<close>

definition parse_sign :: "string \<Rightarrow> bool \<times> string" where
  "parse_sign s =
     (case s of
        [] \<Rightarrow> (False, [])
      | c # t \<Rightarrow> if c = CHR ''+'' then (False, t) else if c = CHR ''-'' then (True, t) else (False, s))"

definition ParseInt :: "string \<Rightarrow> int64 option" where
  "ParseInt s =
     (case parse_sign s of
        (neg, ds) \<Rightarrow>
          if ds = [] then None
          else (case parse_digits 0 ds of
                  None \<Rightarrow> None
                | Some n \<Rightarrow>
                    (let v = (if neg then - int n else int n)
                     in if in_int64 v then Some v else None)))"

lemma ParseInt_in_int64: "ParseInt s = Some v \<Longrightarrow> in_int64 v"
  by (auto simp: ParseInt_def Let_def split: prod.splits if_splits option.splits)

lemma is_digit_digit_char: "d < 10 \<Longrightarrow> is_digit (digit_char d)"
  by (simp add: is_digit_def digit_char_def)

lemma digit_val_digit_char: "d < 10 \<Longrightarrow> digit_val (digit_char d) = d"
  by (simp add: digit_val_def digit_char_def)

lemma parse_digits_append:
  "parse_digits acc (s @ t) = (case parse_digits acc s of None \<Rightarrow> None | Some a \<Rightarrow> parse_digits a t)"
  by (induction s arbitrary: acc) auto

lemma parse_digits_nat_digits: "parse_digits 0 (nat_digits n) = Some n"
proof (induction n rule: nat_digits.induct)
  case (1 n)
  show ?case
  proof (cases "n < 10")
    case True
    then show ?thesis
      by (simp add: nat_digits.simps [of n] is_digit_digit_char digit_val_digit_char)
  next
    case False
    with 1 have "parse_digits 0 (nat_digits (n div 10)) = Some (n div 10)" by blast
    with False show ?thesis
      by (simp add: nat_digits.simps [of n] parse_digits_append is_digit_digit_char
          digit_val_digit_char)
  qed
qed

lemma nat_digits_digits: "c \<in> set (nat_digits n) \<Longrightarrow> is_digit c"
proof (induction n rule: nat_digits.induct)
  case (1 n)
  show ?case
  proof (cases "n < 10")
    case True
    with 1 show ?thesis by (simp add: nat_digits.simps [of n] is_digit_digit_char)
  next
    case False
    with 1 show ?thesis by (auto simp: nat_digits.simps [of n] is_digit_digit_char)
  qed
qed

lemma nat_digits_not_Nil [simp]: "nat_digits n \<noteq> []"
  by (simp add: nat_digits.simps [of n])

lemma parse_sign_nat_digits [simp]: "parse_sign (nat_digits n) = (False, nat_digits n)"
proof (cases "nat_digits n")
  case Nil
  then show ?thesis by simp
next
  case (Cons c t)
  then have "is_digit c" using nat_digits_digits [of c n] by simp
  then have "c \<noteq> CHR ''+'' \<and> c \<noteq> CHR ''-''" by (auto simp: is_digit_def)
  with Cons show ?thesis by (simp add: parse_sign_def)
qed

lemma ParseInt_FormatInt: "in_int64 i \<Longrightarrow> ParseInt (FormatInt i) = Some i"
  by (auto simp: ParseInt_def FormatInt_def parse_digits_nat_digits parse_sign_def)
     (simp_all add: ParseInt_def parse_digits_nat_digits flip: parse_sign_def)

lemma FormatInt_inj: "in_int64 i \<Longrightarrow> in_int64 j \<Longrightarrow> FormatInt i = FormatInt j \<Longrightarrow> i = j"
  by (metis ParseInt_FormatInt option.inject)

end
