(* ===== verification/Store_Accounts.thy ===== *)
theory Store_Accounts
  imports Store_Tables Pg Go_Strings
begin

text \<open>
  \<open>server/internal/postgres/store.go\<close>, first part: users and their GitHub identities, sessions,
  encrypted GitHub tokens, the record of access synchronisations and the repositories a user
  may bind. A statement is a function on the tables (suffix \<open>_stmt\<close>); an operation of the store is
  one or more exchanges with the database, in the order of the code, with its error messages.
  \<open>now\<close> is what \<open>NOW()\<close> gives for the statement or the transaction.
\<close>

section \<open>Helpers\<close>

definition nullableInt64 :: "int64 option \<Rightarrow> int64 option" where
  "nullableInt64 v = (case v of None \<Rightarrow> None | Some n \<Rightarrow> Some n)"

definition nullableString :: "string \<Rightarrow> string option" where
  "nullableString v0 = (let v = TrimSpace v0 in if v = [] then None else Some v)"

lemma nullableInt64_id [simp]: "nullableInt64 v = v"
  by (simp add: nullableInt64_def split: option.split)

section \<open>Users\<close>

definition user_view :: "db \<Rightarrow> users_row \<Rightarrow> user" where
  "user_view d u =
     \<lparr>usr_ID = us_id u, usr_DisplayName = us_display_name u,
      usr_Login = (case find (\<lambda>i. id_user_id i = us_id u \<and> id_provider i = ''github'') (db_identities d) of
                     None \<Rightarrow> [] | Some i \<Rightarrow> id_provider_login i),
      usr_Email = us_email u, usr_AvatarURL = us_avatar_url u, usr_CreatedAt = us_created_at u\<rparr>"

definition getUserByIDTx :: "int64 \<Rightarrow> (db, user) txop" where
  "getUserByIDTx userID =
     wrap_err ''get user by id''
       (tx_query_row (\<lambda>d. map_option (user_view d) (lookup_by us_id userID (db_users d))))"

definition insert_user_stmt :: "instant \<Rightarrow> string \<Rightarrow> string \<Rightarrow> (db, int64) stmt" where
  "insert_user_stmt now login avatarURL d =
     (let uid = db_next_user d in
      Inr (uid, d\<lparr>db_users := db_users d @ [\<lparr>us_id = uid, us_display_name = login, us_email = None,
                     us_avatar_url = avatarURL, us_created_at = now\<rparr>],
                  db_next_user := uid + 1\<rparr>))"

definition insert_identity_stmt :: "string \<Rightarrow> string \<Rightarrow> int64 \<Rightarrow> (db, unit) stmt" where
  "insert_identity_stmt providerUserID login userID d =
     (if has_key identity_key (''github'', providerUserID) (db_identities d) then Inl unique_violation
      else if \<not> has_key us_id userID (db_users d) then Inl foreign_key_violation
      else Inr ((), d\<lparr>db_identities := db_identities d @
             [\<lparr>id_provider = ''github'', id_provider_user_id = providerUserID,
               id_provider_login = login, id_user_id = userID\<rparr>]\<rparr>))"

definition update_identity_stmt :: "string \<Rightarrow> string \<Rightarrow> (db, unit) stmt" where
  "update_identity_stmt providerUserID login d =
     Inr ((), d\<lparr>db_identities :=
       update_where (\<lambda>i. identity_key i = (''github'', providerUserID))
         (\<lambda>i. i\<lparr>id_provider_login := login\<rparr>) (db_identities d)\<rparr>)"

definition update_profile_stmt :: "int64 \<Rightarrow> string \<Rightarrow> string \<Rightarrow> (db, unit) stmt" where
  "update_profile_stmt userID login avatarURL d =
     Inr ((), d\<lparr>db_users :=
       update_where (\<lambda>u. us_id u = userID)
         (\<lambda>u. u\<lparr>us_display_name := login, us_avatar_url := avatarURL\<rparr>) (db_users d)\<rparr>)"

text \<open>The identity of the first part of the transaction: found, or inserted with a new user.\<close>

definition github_identity :: "instant \<Rightarrow> string \<Rightarrow> string \<Rightarrow> string \<Rightarrow> (db, int64) txop" where
  "github_identity now providerUserID login avatarURL =
     catch_op
       (tx_query_row (\<lambda>d. map_option id_user_id
          (lookup_by identity_key (''github'', providerUserID) (db_identities d))))
       (\<lambda>err. if \<not> errors_Is err NoRows then fail (Wrap ''lookup github identity'' err)
              else bind_op (wrap_err ''insert user'' (tx_exec (insert_user_stmt now login avatarURL)))
                (\<lambda>userID. bind_op
                   (wrap_err ''insert github identity''
                      (tx_exec (insert_identity_stmt providerUserID login userID)))
                   (\<lambda>_. ret userID)))
       (\<lambda>userID. bind_op
          (wrap_err ''update github identity login'' (tx_exec (update_identity_stmt providerUserID login)))
          (\<lambda>_. ret userID))"

definition UpsertUserFromGitHub :: "instant \<Rightarrow> int64 \<Rightarrow> string \<Rightarrow> string \<Rightarrow> (db, user) dbop" where
  "UpsertUserFromGitHub now githubID login avatarURL =
     transaction ''begin user upsert'' ''commit user upsert''
       (bind_op (github_identity now (FormatInt githubID) login avatarURL) (\<lambda>userID.
        bind_op (wrap_err ''update user profile'' (tx_exec (update_profile_stmt userID login avatarURL))) (\<lambda>_.
        getUserByIDTx userID)))"

section \<open>Sessions\<close>

definition create_session_stmt :: "int64 \<Rightarrow> string \<Rightarrow> instant \<Rightarrow> (db, unit) stmt" where
  "create_session_stmt userID token expiresAt d =
     (if has_key se_token token (db_sessions d) then Inl unique_violation
      else if \<not> has_key us_id userID (db_users d) then Inl foreign_key_violation
      else Inr ((), d\<lparr>db_sessions := db_sessions d @
             [\<lparr>se_token = token, se_user_id = userID, se_expires_at = expiresAt\<rparr>]\<rparr>))"

definition CreateSession :: "int64 \<Rightarrow> string \<Rightarrow> instant \<Rightarrow> (db, unit) dbop" where
  "CreateSession userID token expiresAt =
     wrap_err ''create session'' (exec (create_session_stmt userID token expiresAt))"

definition delete_session_stmt :: "string \<Rightarrow> (db, unit) stmt" where
  "delete_session_stmt token d =
     Inr ((), d\<lparr>db_sessions := delete_where (\<lambda>s. se_token s = token) (db_sessions d)\<rparr>)"

definition DeleteSession :: "string \<Rightarrow> (db, unit) dbop" where
  "DeleteSession token = wrap_err ''delete session'' (exec (delete_session_stmt token))"

definition session_user :: "instant \<Rightarrow> string \<Rightarrow> db \<Rightarrow> user option" where
  "session_user now token d =
     (case find (\<lambda>s. se_token s = token \<and> now < se_expires_at s) (db_sessions d) of
        None \<Rightarrow> None
      | Some s \<Rightarrow> map_option (user_view d) (lookup_by us_id (se_user_id s) (db_users d)))"

text \<open>No session is not an error here: the result is a nil user.\<close>

definition GetUserBySessionToken :: "instant \<Rightarrow> string \<Rightarrow> (db, user option) dbop" where
  "GetUserBySessionToken now token =
     catch_op (query_row (session_user now token))
       (\<lambda>err. if errors_Is err NoRows then ret None else fail (Wrap ''get user by session token'' err))
       (\<lambda>u. ret (Some u))"

section \<open>GitHub tokens\<close>

definition upsert_tokens_stmt ::
  "int64 \<Rightarrow> nat list \<Rightarrow> instant option \<Rightarrow> nat list option \<Rightarrow> instant option \<Rightarrow> (db, unit) stmt" where
  "upsert_tokens_stmt userID accessEnc accessExp refreshEnc refreshExp d =
     (if \<not> has_key us_id userID (db_users d) then Inl foreign_key_violation
      else Inr ((), d\<lparr>db_tokens := upsert_by tk_user_id (\<lambda>old new. new)
             \<lparr>tk_user_id = userID, tk_access_enc = accessEnc, tk_access_expires_at = accessExp,
              tk_refresh_enc = refreshEnc, tk_refresh_expires_at = refreshExp\<rparr> (db_tokens d)\<rparr>))"

definition UpsertUserGitHubTokens ::
  "int64 \<Rightarrow> nat list \<Rightarrow> instant option \<Rightarrow> nat list option \<Rightarrow> instant option \<Rightarrow> (db, unit) dbop" where
  "UpsertUserGitHubTokens userID accessEnc accessExp refreshEnc refreshExp =
     wrap_err ''upsert user github tokens''
       (exec (upsert_tokens_stmt userID accessEnc accessExp refreshEnc refreshExp))"

definition GetUserGitHubTokens ::
  "int64 \<Rightarrow> (db, nat list \<times> instant option \<times> nat list option \<times> instant option) dbop" where
  "GetUserGitHubTokens userID =
     or_not_found ''get user github tokens''
       (query_row (\<lambda>d. map_option
          (\<lambda>t. (tk_access_enc t, tk_access_expires_at t, tk_refresh_enc t, tk_refresh_expires_at t))
          (lookup_by tk_user_id userID (db_tokens d))))"

section \<open>Access synchronisations\<close>

record userAccessSync =
  uas_SyncedAt :: "instant option"
  uas_AttemptedAt :: "instant option"
  uas_LastError :: "string option"
  uas_ETag :: "string option"

definition GetUserAccessSync :: "int64 \<Rightarrow> (db, userAccessSync) dbop" where
  "GetUserAccessSync userID =
     or_not_found ''get user access sync''
       (query_row (\<lambda>d. map_option
          (\<lambda>r. \<lparr>uas_SyncedAt = sy_synced_at r, uas_AttemptedAt = sy_attempted_at r,
                uas_LastError = sy_last_error r, uas_ETag = sy_etag r\<rparr>)
          (lookup_by sy_user_id userID (db_syncs d))))"

definition upsert_sync_stmt ::
  "int64 \<Rightarrow> instant option \<Rightarrow> instant \<Rightarrow> string option \<Rightarrow> string option \<Rightarrow> (db, unit) stmt" where
  "upsert_sync_stmt userID syncedAt attemptedAt lastError etag d =
     (if \<not> has_key us_id userID (db_users d) then Inl foreign_key_violation
      else Inr ((), d\<lparr>db_syncs := upsert_by sy_user_id (\<lambda>old new. new)
             \<lparr>sy_user_id = userID, sy_synced_at = syncedAt, sy_attempted_at = Some attemptedAt,
              sy_last_error = lastError, sy_etag = etag\<rparr> (db_syncs d)\<rparr>))"

definition UpsertUserAccessSync ::
  "int64 \<Rightarrow> instant option \<Rightarrow> instant \<Rightarrow> string option \<Rightarrow> string option \<Rightarrow> (db, unit) dbop" where
  "UpsertUserAccessSync userID syncedAt attemptedAt lastError etag =
     wrap_err ''upsert user access sync'' (exec (upsert_sync_stmt userID syncedAt attemptedAt lastError etag))"

section \<open>Repositories a user may bind\<close>

record userRepoAccessRow =
  ura_RepoID :: int64
  ura_InstallationID :: int64

definition can_bind :: "db \<Rightarrow> int64 \<Rightarrow> int64 \<Rightarrow> bool" where
  "can_bind d userID repoID \<longleftrightarrow> has_key access_key (userID, repoID) (db_access d)"

definition UserCanAccessRepoForBinding :: "int64 \<Rightarrow> int64 \<Rightarrow> (db, bool) dbop" where
  "UserCanAccessRepoForBinding userID repoID =
     wrap_err ''check user repo access'' (query_row (\<lambda>d. Some (can_bind d userID repoID)))"

definition clear_access_stmt :: "int64 \<Rightarrow> (db, unit) stmt" where
  "clear_access_stmt userID d =
     Inr ((), d\<lparr>db_access := delete_where (\<lambda>r. ac_user_id r = userID) (db_access d)\<rparr>)"

definition insert_access_stmt :: "int64 \<Rightarrow> userRepoAccessRow \<Rightarrow> (db, unit) stmt" where
  "insert_access_stmt userID row d =
     (if has_key access_key (userID, ura_RepoID row) (db_access d) then Inl unique_violation
      else if \<not> has_key us_id userID (db_users d) then Inl foreign_key_violation
      else Inr ((), d\<lparr>db_access := db_access d @
             [\<lparr>ac_user_id = userID, ac_repo_id = ura_RepoID row, ac_installation_id = ura_InstallationID row\<rparr>]\<rparr>))"

definition ReplaceUserRepoAccess :: "int64 \<Rightarrow> userRepoAccessRow list \<Rightarrow> (db, unit) dbop" where
  "ReplaceUserRepoAccess userID rows =
     transaction ''begin replace user repo access'' ''commit replace user repo access''
       (bind_op (wrap_err ''clear user repo access'' (tx_exec (clear_access_stmt userID))) (\<lambda>_.
        for_each (\<lambda>row. wrap_err ''insert user repo access'' (tx_exec (insert_access_stmt userID row))) rows))"

end
