(* ===== verification/Store_Projects.thy ===== *)
theory Store_Projects
  imports Store_Accounts
begin

text \<open>
  \<open>server/internal/postgres/store.go\<close>, second part: projects with their members and slugs, and the
  bindings of repositories to projects, on which the visibility of private runs rests.
\<close>

section \<open>Slugs\<close>

definition is_slug_char :: "char \<Rightarrow> bool" where
  "is_slug_char c \<longleftrightarrow> is_lower c \<or> is_digit c"

text \<open>
  \<open>slugSanitizer.ReplaceAllString(slug, "-")\<close> for the pattern of one or more characters outside
  a-z and 0-9; the flag says that the current run already has its dash.
\<close>

fun slugSanitizer :: "bool \<Rightarrow> string \<Rightarrow> string" where
  "slugSanitizer in_run [] = []"
| "slugSanitizer in_run (c # s) =
     (if is_slug_char c then c # slugSanitizer False s
      else if in_run then slugSanitizer True s
      else CHR ''-'' # slugSanitizer True s)"

definition slugify :: "string \<Rightarrow> string" where
  "slugify input = TrimBoth (slugSanitizer False (ToLower (TrimSpace input))) (CHR ''-'')"

section \<open>Projects\<close>

definition project_view :: "string \<Rightarrow> projects_row \<Rightarrow> project" where
  "project_view role p =
     \<lparr>prj_ID = pj_id p, prj_CreatedBy = pj_created_by p, prj_Role = role, prj_Name = pj_name p,
      prj_Slug = pj_slug p, prj_CreatedAt = pj_created_at p\<rparr>"

definition insert_project_stmt :: "instant \<Rightarrow> int64 \<Rightarrow> string \<Rightarrow> string \<Rightarrow> (db, project) stmt" where
  "insert_project_stmt now userID name slug d =
     (if has_key pj_slug slug (db_projects d) then Inl unique_violation
      else if \<not> has_key us_id userID (db_users d) then Inl foreign_key_violation
      else (let row = \<lparr>pj_id = db_next_project d, pj_created_by = Some userID, pj_name = name,
                       pj_slug = slug, pj_created_at = now\<rparr>
            in Inr (project_view [] row,
                    d\<lparr>db_projects := db_projects d @ [row],
                      db_next_project := db_next_project d + 1\<rparr>)))"

definition insert_owner_stmt :: "int64 \<Rightarrow> int64 \<Rightarrow> (db, unit) stmt" where
  "insert_owner_stmt projectID userID d =
     (if has_key member_key (projectID, userID) (db_members d) then Inl unique_violation
      else if \<not> has_key pj_id projectID (db_projects d) \<or> \<not> has_key us_id userID (db_users d)
      then Inl foreign_key_violation
      else Inr ((), d\<lparr>db_members := db_members d @
             [\<lparr>me_project_id = projectID, me_user_id = userID, me_role = ''owner''\<rparr>]\<rparr>))"

definition project_slug :: "string \<Rightarrow> nat \<Rightarrow> string" where
  "project_slug base i = (if 0 < i then base @ ''-'' @ FormatInt (int i + 1) else base)"

text \<open>\<open>errors.As(err, &pgErr) && pgErr.Code == "23505"\<close>\<close>

definition is_unique_violation :: "error \<Rightarrow> bool" where
  "is_unique_violation err \<longleftrightarrow> errors_root err = PgError ''23505''"

text \<open>The loop over the attempts, the indices of which are \<open>0\<close> to \<open>99\<close>.\<close>

primrec create_project_attempts :: "instant \<Rightarrow> int64 \<Rightarrow> string \<Rightarrow> string \<Rightarrow> nat list \<Rightarrow> (db, project) txop" where
  "create_project_attempts now userID name base [] =
     fail (NewError ''could not generate unique project slug'')"
| "create_project_attempts now userID name base (i # is) =
     catch_op (tx_exec (insert_project_stmt now userID name (project_slug base i)))
       (\<lambda>err. if is_unique_violation err then create_project_attempts now userID name base is
              else fail (Wrap ''create project'' err))
       (\<lambda>p. bind_op (wrap_err ''create project membership'' (tx_exec (insert_owner_stmt (prj_ID p) userID)))
          (\<lambda>_. ret (p\<lparr>prj_Role := ''owner''\<rparr>)))"

definition project_base :: "string \<Rightarrow> string" where
  "project_base name = (let base = slugify name in if base = [] then ''project'' else base)"

definition CreateProject :: "instant \<Rightarrow> int64 \<Rightarrow> string \<Rightarrow> (db, project) dbop" where
  "CreateProject now userID name =
     transaction ''begin create project'' ''commit create project''
       (create_project_attempts now userID name (project_base name) [0..<100])"

definition member_project :: "db \<Rightarrow> members_row \<Rightarrow> project option" where
  "member_project d m = map_option (project_view (me_role m)) (lookup_by pj_id (me_project_id m) (db_projects d))"

definition projects_of_user :: "int64 \<Rightarrow> db \<Rightarrow> project list" where
  "projects_of_user userID d =
     order_desc prj_CreatedAt
       (List.map_filter (member_project d) (filter (\<lambda>m. me_user_id m = userID) (db_members d)))"

definition ListProjectsByUser :: "int64 \<Rightarrow> (db, project list) dbop" where
  "ListProjectsByUser userID = wrap_err ''list projects'' (query (\<lambda>d. Inr (projects_of_user userID d)))"

definition project_by_slug :: "int64 \<Rightarrow> string \<Rightarrow> db \<Rightarrow> project option" where
  "project_by_slug userID slug d =
     find (\<lambda>p. prj_Slug p = slug)
       (List.map_filter (member_project d) (filter (\<lambda>m. me_user_id m = userID) (db_members d)))"

definition GetProjectBySlug :: "int64 \<Rightarrow> string \<Rightarrow> (db, project) dbop" where
  "GetProjectBySlug userID slug = or_not_found ''get project'' (query_row (project_by_slug userID slug))"

section \<open>Bindings\<close>

definition live :: "bindings_row \<Rightarrow> bool" where
  "live b \<longleftrightarrow> bi_revoked_at b = None"

definition repo_view :: "repos_row \<Rightarrow> bindings_row option \<Rightarrow> bool \<Rightarrow> bool \<Rightarrow> repo" where
  "repo_view r b bound canBind =
     \<lparr>rep_RepoID = rp_repo_id r, rep_FullName = rp_full_name r, rep_Owner = rp_owner r,
      rep_OwnerID = rp_owner_id r, rep_Visibility = rp_visibility r, rep_SyncedAt = rp_synced_at r,
      rep_Bound = bound, rep_CanBind = canBind, rep_BoundAt = map_option bi_bound_at b,
      rep_RevokedAt = Option.bind b bi_revoked_at, rep_UpdatedFrom = rp_visibility_source r\<rparr>"

definition project_repos :: "int64 \<Rightarrow> db \<Rightarrow> repo list" where
  "project_repos projectID d =
     order_asc rep_FullName
       (List.map_filter
          (\<lambda>b. map_option (\<lambda>r. repo_view r (Some b) True False) (lookup_by rp_repo_id (bi_repo_id b) (db_repos d)))
          (filter (\<lambda>b. bi_project_id b = projectID \<and> live b) (db_bindings d)))"

definition ListProjectRepos :: "int64 \<Rightarrow> (db, repo list) dbop" where
  "ListProjectRepos projectID = wrap_err ''list project repos'' (query (\<lambda>d. Inr (project_repos projectID d)))"

definition bindable_repos :: "int64 \<Rightarrow> int64 \<Rightarrow> db \<Rightarrow> repo list" where
  "bindable_repos projectID userID d =
     order_asc rep_FullName
       (map (\<lambda>r. let b = lookup_by binding_key (projectID, rp_repo_id r) (db_bindings d)
                 in repo_view r b (case b of None \<Rightarrow> False | Some b' \<Rightarrow> live b') (can_bind d userID (rp_repo_id r)))
          (db_repos d))"

definition ListReposForProjectBinding :: "int64 \<Rightarrow> int64 \<Rightarrow> (db, repo list) dbop" where
  "ListReposForProjectBinding projectID userID =
     wrap_err ''list bindable repos'' (query (\<lambda>d. Inr (bindable_repos projectID userID d)))"

definition bind_stmt :: "instant \<Rightarrow> int64 \<Rightarrow> int64 \<Rightarrow> int64 \<Rightarrow> (db, unit) stmt" where
  "bind_stmt now projectID repoID userID d =
     (if \<not> has_key pj_id projectID (db_projects d) \<or> \<not> has_key rp_repo_id repoID (db_repos d) \<or>
         \<not> has_key us_id userID (db_users d) then Inl foreign_key_violation
      else Inr ((), d\<lparr>db_bindings := upsert_by binding_key (\<lambda>old new. new)
             \<lparr>bi_project_id = projectID, bi_repo_id = repoID, bi_bound_by = Some userID,
              bi_bound_at = now, bi_revoked_at = None\<rparr> (db_bindings d)\<rparr>))"

definition BindRepoToProject :: "instant \<Rightarrow> int64 \<Rightarrow> int64 \<Rightarrow> int64 \<Rightarrow> (db, unit) dbop" where
  "BindRepoToProject now projectID repoID userID =
     wrap_err ''bind repo'' (exec (bind_stmt now projectID repoID userID))"

definition unbind_stmt :: "instant \<Rightarrow> int64 \<Rightarrow> int64 \<Rightarrow> (db, unit) stmt" where
  "unbind_stmt now projectID repoID d =
     Inr ((), d\<lparr>db_bindings :=
       update_where (\<lambda>b. binding_key b = (projectID, repoID) \<and> live b)
         (\<lambda>b. b\<lparr>bi_revoked_at := Some now\<rparr>) (db_bindings d)\<rparr>)"

definition UnbindRepoFromProject :: "instant \<Rightarrow> int64 \<Rightarrow> int64 \<Rightarrow> (db, unit) dbop" where
  "UnbindRepoFromProject now projectID repoID =
     wrap_err ''unbind repo'' (exec (unbind_stmt now projectID repoID))"

end
