(* ===== verification/Store_Runs.thy ===== *)
theory Store_Runs
  imports Store_Projects
begin

text \<open>
  \<open>server/internal/postgres/store.go\<close>, third part: repositories, installations, coverage, runs
  with their visibility, retention and enrichment.
\<close>

section \<open>Reading runs\<close>

text \<open>The EXISTS subquery: the user is a member of a project to which the repository is bound.\<close>

definition is_member :: "db \<Rightarrow> int64 option \<Rightarrow> int64 \<Rightarrow> bool" where
  "is_member d userID repoID \<longleftrightarrow>
     (case userID of
        None \<Rightarrow> False
      | Some uid \<Rightarrow>
          list_ex (\<lambda>b. bi_repo_id b = repoID \<and> live b \<and>
            list_ex (\<lambda>m. me_project_id m = bi_project_id b \<and> me_user_id m = uid) (db_members d)) (db_bindings d))"

text \<open>The columns that the three run queries select, in the order of \<open>scanRun\<close>.\<close>

definition scanRun :: "runs_row \<Rightarrow> repos_row \<Rightarrow> bool \<Rightarrow> run" where
  "scanRun r rp viewer =
     zero_run\<lparr>run_ID := rr_id r, run_PublicID := rr_public_id r, run_RepoID := rr_repo_id r,
       run_RepoFullName := rp_full_name rp, run_RepoVisibility := rp_visibility rp,
       run_ViewerIsMember := viewer, run_CommitSHA := rr_commit_sha r,
       run_WorkflowName := rr_workflow_name r, run_JobWorkflowRef := rr_job_workflow_ref r,
       run_JobName := (case rr_job_display_name r of None \<Rightarrow> rr_job_key r | Some n \<Rightarrow> n),
       run_JobDisplayName := rr_job_display_name r, run_GitHubRunID := rr_github_run_id r,
       run_GitHubJobID := rr_github_job_id r, run_RunAttempt := rr_run_attempt r,
       run_Branch := rr_branch r, run_EventName := rr_event_name r, run_Actor := rr_actor r,
       run_ActorID := rr_actor_id r, run_PRNumber := rr_pr_number r,
       run_EnrichmentState := rr_enrichment_state r, run_EgressJSON := rr_egress_json r,
       run_CreatedAt := rr_created_at r\<rparr>"

definition run_limit :: "int \<Rightarrow> nat" where
  "run_limit limit = nat (if limit \<le> 0 then 100 else limit)"

definition project_runs :: "int64 \<Rightarrow> db \<Rightarrow> run list" where
  "project_runs projectID d =
     concat (map (\<lambda>r.
       List.map_filter (\<lambda>b. if bi_project_id b = projectID \<and> bi_repo_id b = rr_repo_id r \<and> live b
                            then map_option (\<lambda>rp. scanRun r rp True) (lookup_by rp_repo_id (rr_repo_id r) (db_repos d))
                            else None) (db_bindings d)) (db_runs d))"

definition ListRunsForProject :: "int64 \<Rightarrow> int \<Rightarrow> (db, run list) dbop" where
  "ListRunsForProject projectID limit =
     wrap_err ''list runs for project''
       (query (\<lambda>d. Inr (take (run_limit limit) (order_desc run_CreatedAt (project_runs projectID d)))))"

text \<open>A run as a viewer may see it: the repository is public, or the viewer is a member.\<close>

definition visible_run :: "db \<Rightarrow> int64 option \<Rightarrow> runs_row \<Rightarrow> run option" where
  "visible_run d userID r =
     (case lookup_by rp_repo_id (rr_repo_id r) (db_repos d) of
        None \<Rightarrow> None
      | Some rp \<Rightarrow>
          if rp_visibility rp = ''public'' \<or> is_member d userID (rr_repo_id r)
          then Some (scanRun r rp (is_member d userID (rr_repo_id r)))
          else None)"

text \<open>The error of \<open>scanRun\<close> wraps the client's; a text that is no uuid is refused by the database.\<close>

definition GetRunByPublicID :: "pg_types \<Rightarrow> string \<Rightarrow> int64 option \<Rightarrow> (db, run) dbop" where
  "GetRunByPublicID pt publicID userID =
     or_not_found ''get run by public id'' (wrap_err ''scan run''
       (case uuid_in pt publicID of
          None \<Rightarrow> query (\<lambda>d. Inl invalid_text)
        | Some uuid \<Rightarrow>
            query_row (\<lambda>d. Option.bind (lookup_by rr_public_id uuid (db_runs d)) (visible_run d (nullableInt64 userID)))))"

definition repo_runs :: "string \<Rightarrow> int64 option \<Rightarrow> db \<Rightarrow> run list" where
  "repo_runs fullName userID d =
     filter (\<lambda>run. run_RepoFullName run = fullName) (List.map_filter (visible_run d userID) (db_runs d))"

definition ListRunsForRepo :: "string \<Rightarrow> string \<Rightarrow> int64 option \<Rightarrow> int \<Rightarrow> (db, run list) dbop" where
  "ListRunsForRepo owner repo userID limit =
     (let fullName = TrimSpace owner @ ''/'' @ TrimSpace repo in
      wrap_err ''list runs for repo''
        (query (\<lambda>d. Inr (take (run_limit limit)
           (order_desc run_CreatedAt (repo_runs fullName (nullableInt64 userID) d))))))"

section \<open>Installations\<close>

definition merge_installation :: "installation \<Rightarrow> installation \<Rightarrow> installation" where
  "merge_installation old new = new\<lparr>ins_CreatedAt := ins_CreatedAt old\<rparr>"

definition upsert_installation_stmt ::
  "instant \<Rightarrow> int64 \<Rightarrow> int64 \<Rightarrow> string \<Rightarrow> string \<Rightarrow> string option \<Rightarrow> bool \<Rightarrow> (db, installation option) stmt" where
  "upsert_installation_stmt now installationID accountID targetType targetLogin selection deleted d =
     (let new = \<lparr>ins_GitHubInstallationID = installationID, ins_GitHubAccountID = accountID,
                 ins_TargetType = targetType, ins_TargetLogin = targetLogin,
                 ins_RepositorySelection = selection, ins_CreatedAt = now, ins_SyncedAt = now,
                 ins_DeletedAt = (if deleted then Some now else None)\<rparr>;
          rows = upsert_by ins_GitHubInstallationID merge_installation new (db_installations d)
      in Inr (lookup_by ins_GitHubInstallationID installationID rows, d\<lparr>db_installations := rows\<rparr>))"

definition UpsertInstallation ::
  "instant \<Rightarrow> int64 \<Rightarrow> int64 \<Rightarrow> string \<Rightarrow> string \<Rightarrow> string \<Rightarrow> (db, installation) dbop" where
  "UpsertInstallation now installationID accountID targetType targetLogin selection =
     wrap_err ''upsert installation''
       (bind_op (exec (upsert_installation_stmt now installationID accountID targetType targetLogin
                         (nullableString selection) False))
          (\<lambda>row. case row of None \<Rightarrow> fail NoRows | Some i \<Rightarrow> ret i))"

definition UpsertInstallationFromPull ::
  "instant \<Rightarrow> int64 \<Rightarrow> int64 \<Rightarrow> string \<Rightarrow> string \<Rightarrow> string \<Rightarrow> bool \<Rightarrow> (db, unit) dbop" where
  "UpsertInstallationFromPull now installationID accountID targetType targetLogin selection deleted =
     wrap_err ''upsert installation from pull''
       (bind_op (exec (upsert_installation_stmt now installationID accountID targetType targetLogin
                         (nullableString selection) deleted)) (\<lambda>_. ret ()))"

definition soft_delete :: "instant \<Rightarrow> installation \<Rightarrow> installation" where
  "soft_delete now i = i\<lparr>ins_DeletedAt := Some now, ins_SyncedAt := now\<rparr>"

definition delete_installation_stmt :: "instant \<Rightarrow> int64 \<Rightarrow> (db, unit) stmt" where
  "delete_installation_stmt now installationID d =
     Inr ((), d\<lparr>db_installations :=
       update_where (\<lambda>i. ins_GitHubInstallationID i = installationID) (soft_delete now) (db_installations d)\<rparr>)"

definition DeleteInstallation :: "instant \<Rightarrow> int64 \<Rightarrow> (db, unit) dbop" where
  "DeleteInstallation now installationID =
     wrap_err ''soft delete installation'' (exec (delete_installation_stmt now installationID))"

definition mark_all_deleted_stmt :: "instant \<Rightarrow> (db, unit) stmt" where
  "mark_all_deleted_stmt now d =
     Inr ((), d\<lparr>db_installations :=
       update_where (\<lambda>i. ins_DeletedAt i = None) (soft_delete now) (db_installations d)\<rparr>)"

definition mark_missing_deleted_stmt :: "instant \<Rightarrow> int64 list \<Rightarrow> (db, unit) stmt" where
  "mark_missing_deleted_stmt now keepIDs d =
     Inr ((), d\<lparr>db_installations :=
       update_where (\<lambda>i. ins_DeletedAt i = None \<and> ins_GitHubInstallationID i \<notin> set keepIDs)
         (soft_delete now) (db_installations d)\<rparr>)"

definition MarkInstallationsMissingFromPullDeleted :: "instant \<Rightarrow> int64 list \<Rightarrow> (db, unit) dbop" where
  "MarkInstallationsMissingFromPullDeleted now keepIDs =
     (if length keepIDs = 0
      then wrap_err ''mark missing installations deleted'' (exec (mark_all_deleted_stmt now))
      else wrap_err ''mark missing installations deleted'' (exec (mark_missing_deleted_stmt now keepIDs)))"

definition clear_inst_repos_stmt :: "int64 \<Rightarrow> (db, unit) stmt" where
  "clear_inst_repos_stmt installationID d =
     Inr ((), d\<lparr>db_inst_repos := delete_where (\<lambda>r. ir_installation_id r = installationID) (db_inst_repos d)\<rparr>)"

definition insert_inst_repo_stmt :: "instant \<Rightarrow> int64 \<Rightarrow> int64 \<Rightarrow> (db, unit) stmt" where
  "insert_inst_repo_stmt now installationID repoID d =
     (if has_key inst_repo_key (installationID, repoID) (db_inst_repos d) then Inl unique_violation
      else if \<not> has_key ins_GitHubInstallationID installationID (db_installations d)
      then Inl foreign_key_violation
      else Inr ((), d\<lparr>db_inst_repos := db_inst_repos d @
             [\<lparr>ir_installation_id = installationID, ir_repo_id = repoID, ir_synced_at = now\<rparr>]\<rparr>))"

definition ReplaceInstallationRepos :: "instant \<Rightarrow> int64 \<Rightarrow> repo list \<Rightarrow> (db, unit) dbop" where
  "ReplaceInstallationRepos now installationID repos =
     transaction ''begin replace installation repos'' ''commit replace installation repos''
       (bind_op (wrap_err ''clear installation repos'' (tx_exec (clear_inst_repos_stmt installationID))) (\<lambda>_.
        for_each (\<lambda>r. wrap_err ''insert installation repo''
          (tx_exec (insert_inst_repo_stmt now installationID (rep_RepoID r)))) repos))"

definition installation_for_repo :: "int64 \<Rightarrow> db \<Rightarrow> int64 option" where
  "installation_for_repo repoID d =
     (case sort (map ir_installation_id (filter (\<lambda>r. ir_repo_id r = repoID \<and>
          list_ex (\<lambda>i. ins_GitHubInstallationID i = ir_installation_id r \<and> ins_DeletedAt i = None)
            (db_installations d)) (db_inst_repos d))) of
        [] \<Rightarrow> None
      | i # _ \<Rightarrow> Some i)"

text \<open>No installation is not an error here: the result is nil.\<close>

definition GetAnyInstallationIDForRepo :: "int64 \<Rightarrow> (db, int64 option) dbop" where
  "GetAnyInstallationIDForRepo repoID =
     catch_op (query_row (installation_for_repo repoID))
       (\<lambda>err. if errors_Is err NoRows then ret None else fail (Wrap ''get installation for repo'' err))
       (\<lambda>i. ret (Some i))"

section \<open>Repositories and coverage\<close>

definition upsert_repo_stmt ::
  "instant \<Rightarrow> repo \<Rightarrow> string \<Rightarrow> string \<Rightarrow> (db, unit) stmt" where
  "upsert_repo_stmt now r visibility visibilitySource d =
     (let new = \<lparr>rp_repo_id = rep_RepoID r, rp_full_name = rep_FullName r, rp_owner = rep_Owner r,
                 rp_owner_id = rep_OwnerID r, rp_visibility = visibility,
                 rp_visibility_source = visibilitySource, rp_synced_at = now\<rparr>
      in if \<not> repo_row_ok new then Inl check_violation
         else Inr ((), d\<lparr>db_repos := upsert_by rp_repo_id (\<lambda>old new. new) new (db_repos d)\<rparr>))"

definition UpsertRepo :: "instant \<Rightarrow> repo \<Rightarrow> (db, unit) dbop" where
  "UpsertRepo now r =
     (let visibility0 = ToLower (TrimSpace (rep_Visibility r));
          visibility = (if visibility0 = [] then ''private'' else visibility0);
          source0 = ToLower (TrimSpace (rep_UpdatedFrom r));
          visibilitySource = (if source0 = ''oidc'' \<or> source0 = ''api'' then source0 else ''oidc'')
      in wrap_err ''upsert repo'' (exec (upsert_repo_stmt now r visibility visibilitySource)))"

record repoSyncRow =
  rs_RepoID :: int64
  rs_FullName :: string
  rs_Owner :: string
  rs_OwnerID :: int64
  rs_Visibility :: string

definition ListReposForSync :: "(db, repoSyncRow list) dbop" where
  "ListReposForSync =
     wrap_err ''list repos for sync''
       (query (\<lambda>d. Inr (map (\<lambda>r. \<lparr>rs_RepoID = rp_repo_id r, rs_FullName = rp_full_name r,
          rs_Owner = rp_owner r, rs_OwnerID = rp_owner_id r, rs_Visibility = rp_visibility r\<rparr>) (db_repos d))))"

definition ListRepoCoverageCandidates :: "(db, int64 list) dbop" where
  "ListRepoCoverageCandidates =
     wrap_err ''list coverage candidates'' (query (\<lambda>d. Inr (map rp_repo_id (db_repos d))))"

definition merge_coverage :: "instant \<Rightarrow> coverage_row \<Rightarrow> coverage_row \<Rightarrow> coverage_row" where
  "merge_coverage now old new =
     new\<lparr>cv_checked_at := now,
        cv_uncovered_since :=
          (if cv_installation_id new = None
           then (case cv_uncovered_since old of None \<Rightarrow> Some now | Some t \<Rightarrow> Some t)
           else None)\<rparr>"

definition new_coverage :: "instant \<Rightarrow> int64 \<Rightarrow> int64 option \<Rightarrow> coverage_row" where
  "new_coverage now repoID installationID =
     \<lparr>cv_repo_id = repoID, cv_installation_id = installationID, cv_checked_at = now,
      cv_uncovered_since = (if installationID = None then Some now else None)\<rparr>"

text \<open>
  How PostgreSQL finds the types of the parameters of a statement sent without types, as the
  client library sends them: a reference that is compared, cast or stored gets the type of that
  place; the operand of \<open>IS NULL\<close> has none, and what was parsed there stays of unknown type. When
  another place then gives the same parameter a type, the two references disagree, and the
  statement is refused with code 42P08, whatever the tables hold.
\<close>

datatype param_use = Typed nat | NullTest nat

definition ambiguous_parameter :: error where
  "ambiguous_parameter = PgError ''42P08''"

definition parse_params :: "param_use list \<Rightarrow> ('t, 'a) stmt \<Rightarrow> ('t, 'a) stmt" where
  "parse_params uses st t =
     (if list_ex (\<lambda>u. case u of NullTest n \<Rightarrow> List.member uses (Typed n) | Typed n \<Rightarrow> False) uses
      then Inl ambiguous_parameter else st t)"

text \<open>\<open>VALUES ($1, $2, NOW(), CASE WHEN $2 IS NULL THEN NOW() ELSE NULL END)\<close>, with what the statement would store.\<close>

definition upsert_coverage_stmt :: "instant \<Rightarrow> int64 \<Rightarrow> int64 option \<Rightarrow> (db, unit) stmt" where
  "upsert_coverage_stmt now repoID installationID =
     parse_params [Typed 1, Typed 2, NullTest 2]
       (\<lambda>d. if \<not> has_key rp_repo_id repoID (db_repos d) then Inl foreign_key_violation
            else Inr ((), d\<lparr>db_coverage := upsert_by cv_repo_id (merge_coverage now)
                   (new_coverage now repoID installationID) (db_coverage d)\<rparr>))"

definition UpsertRepoCoverage :: "instant \<Rightarrow> int64 \<Rightarrow> int64 option \<Rightarrow> (db, unit) dbop" where
  "UpsertRepoCoverage now repoID installationID =
     wrap_err ''upsert repo coverage'' (exec (upsert_coverage_stmt now repoID installationID))"

definition uncovered :: "db \<Rightarrow> int64 \<Rightarrow> bool" where
  "uncovered d repoID \<longleftrightarrow>
     list_ex (\<lambda>c. cv_repo_id c = repoID \<and> cv_installation_id c = None) (db_coverage d)"

definition revoke_uncovered_stmt :: "instant \<Rightarrow> (db, nat) stmt" where
  "revoke_uncovered_stmt now d =
     Inr (length (filter (\<lambda>b. live b \<and> uncovered d (bi_repo_id b)) (db_bindings d)),
          d\<lparr>db_bindings :=
            update_where (\<lambda>b. live b \<and> uncovered d (bi_repo_id b))
              (\<lambda>b. b\<lparr>bi_revoked_at := Some now\<rparr>) (db_bindings d)\<rparr>)"

definition RevokeUncoveredProjectBindings :: "instant \<Rightarrow> (db, nat) dbop" where
  "RevokeUncoveredProjectBindings now =
     wrap_err ''revoke uncovered bindings'' (exec (revoke_uncovered_stmt now))"

text \<open>The condition of the DELETE, for the cut-off instant.\<close>

definition unretained :: "db \<Rightarrow> instant \<Rightarrow> runs_row \<Rightarrow> bool" where
  "unretained d cutoff r \<longleftrightarrow>
     list_ex (\<lambda>rp. rp_repo_id rp = rr_repo_id r \<and> rp_visibility rp \<noteq> ''public'') (db_repos d) \<and>
     list_ex (\<lambda>rc. cv_repo_id rc = rr_repo_id r \<and>
        (case cv_uncovered_since rc of None \<Rightarrow> False | Some t \<Rightarrow> t < cutoff)) (db_coverage d) \<and>
     \<not> list_ex (\<lambda>b. bi_repo_id b = rr_repo_id r \<and> live b) (db_bindings d)"

definition purge_stmt :: "instant \<Rightarrow> int64 \<Rightarrow> (db, nat) stmt" where
  "purge_stmt now seconds d =
     (let gone = unretained d (time_Add now (- (seconds * second)))
      in Inr (length (filter gone (db_runs d)), d\<lparr>db_runs := delete_where gone (db_runs d)\<rparr>))"

text \<open>\<open>int64(minUncoveredAge.Seconds())\<close> truncates towards zero.\<close>

definition whole_seconds :: "duration \<Rightarrow> int64" where
  "whole_seconds age = sgn age * (\<bar>age\<bar> div second)"

definition PurgeUnretainedRuns :: "instant \<Rightarrow> duration \<Rightarrow> (db, nat) dbop" where
  "PurgeUnretainedRuns now minUncoveredAge =
     wrap_err ''purge runs'' (exec (purge_stmt now (whole_seconds minUncoveredAge)))"

end
