(* ===== verification/Store_Ingest.thy ===== *)
theory Store_Ingest
  imports Store_Runs
begin

text \<open>
  \<open>server/internal/postgres/store.go\<close>, fourth part: storing an uploaded run and the enrichment of
  stored runs with the jobs that GitHub reports. The public id of a new row is the value that
  \<open>uuidv7()\<close> gives, an argument here.
\<close>

section \<open>Storing a run\<close>

definition merge_run :: "runs_row \<Rightarrow> runs_row \<Rightarrow> runs_row" where
  "merge_run old new =
     new\<lparr>rr_id := rr_id old, rr_public_id := rr_public_id old, rr_job_conclusion := rr_job_conclusion old,
        rr_job_started_at := rr_job_started_at old, rr_job_completed_at := rr_job_completed_at old,
        rr_enrichment_state := rr_enrichment_state old, rr_created_at := rr_created_at old\<rparr>"

definition new_run_row :: "instant \<Rightarrow> string \<Rightarrow> int64 \<Rightarrow> string \<Rightarrow> string \<Rightarrow> run \<Rightarrow> runs_row" where
  "new_run_row now public_id rid execution egress run =
     \<lparr>rr_id = rid, rr_public_id = public_id, rr_repo_id = run_RepoID run,
      rr_commit_sha = run_CommitSHA run, rr_workflow_name = run_WorkflowName run,
      rr_job_workflow_ref = run_JobWorkflowRef run, rr_github_run_id = run_GitHubRunID run,
      rr_branch = run_Branch run, rr_event_name = run_EventName run, rr_actor = run_Actor run,
      rr_pr_number = run_PRNumber run, rr_egress_json = egress, rr_run_attempt = run_RunAttempt run,
      rr_workflow_ref = run_WorkflowRef run, rr_workflow_sha = run_WorkflowSHA run,
      rr_job_workflow_sha = run_JobWorkflowSHA run, rr_actor_id = run_ActorID run,
      rr_runner_environment = run_RunnerEnvironment run, rr_execution_id = execution,
      rr_job_key = run_JobKey run, rr_runner_name = run_RunnerName run, rr_runner_os = run_RunnerOS run,
      rr_capture_started_at = run_CaptureStartedAt run, rr_capture_ended_at = run_CaptureEndedAt run,
      rr_payload_sha256 = run_PayloadSHA256 run, rr_github_job_id = run_GitHubJobID run,
      rr_job_display_name = run_JobDisplayName run, rr_job_conclusion = None,
      rr_job_started_at = None, rr_job_completed_at = None,
      rr_enrichment_state = ''pending'', rr_created_at = now\<rparr>"

text \<open>The column \<open>run_attempt\<close> is a 32-bit integer; the client library refuses a wider value.\<close>

definition in_int32 :: "int \<Rightarrow> bool" where
  "in_int32 i \<longleftrightarrow> - (2 ^ 31) \<le> i \<and> i < 2 ^ 31"

definition with_run :: "runs_row \<Rightarrow> db \<Rightarrow> db" where
  "with_run new d =
     d\<lparr>db_runs := upsert_by execution_key merge_run new (db_runs d),
       db_next_run := (if has_key execution_key (execution_key new) (db_runs d) then db_next_run d
                       else db_next_run d + 1)\<rparr>"

definition upsert_run_stmt :: "pg_types \<Rightarrow> instant \<Rightarrow> string \<Rightarrow> run \<Rightarrow> (db, unit) stmt" where
  "upsert_run_stmt pt now public_id run d =
     (if \<not> in_int32 (run_RunAttempt run) then Inl (External ''value out of range for int4'')
      else (case uuid_in pt (run_ExecutionID run) of
              None \<Rightarrow> Inl invalid_text
            | Some execution \<Rightarrow>
                (case jsonb_in pt (run_EgressJSON run) of
                   None \<Rightarrow> Inl invalid_text
                 | Some egress \<Rightarrow>
                     (let new = new_run_row now public_id (db_next_run d) execution egress run
                      in if \<not> has_key execution_key (execution_key new) (db_runs d) \<and>
                            has_key rr_public_id public_id (db_runs d) then Inl unique_violation
                         else if \<not> has_key rp_repo_id (run_RepoID run) (db_repos d)
                         then Inl foreign_key_violation
                         else Inr ((), with_run new d)))))"

definition UpsertRun :: "pg_types \<Rightarrow> instant \<Rightarrow> string \<Rightarrow> run \<Rightarrow> (db, unit) dbop" where
  "UpsertRun pt now public_id run0 =
     (let run = (if length (run_EgressJSON run0) = 0 then run0\<lparr>run_EgressJSON := ''{}''\<rparr> else run0)
      in wrap_err ''upsert run'' (exec (upsert_run_stmt pt now public_id run)))"

definition runs_of_owner_since :: "int64 \<Rightarrow> instant \<Rightarrow> db \<Rightarrow> nat" where
  "runs_of_owner_since ownerID since d =
     length (filter (\<lambda>r. since \<le> rr_created_at r \<and>
       list_ex (\<lambda>rp. rp_repo_id rp = rr_repo_id r \<and> rp_owner_id rp = ownerID) (db_repos d)) (db_runs d))"

definition CountRunsByOwnerSince :: "int64 \<Rightarrow> instant \<Rightarrow> (db, nat) dbop" where
  "CountRunsByOwnerSince ownerID since =
     wrap_err ''count runs by owner since'' (query_row (\<lambda>d. Some (runs_of_owner_since ownerID since d)))"

section \<open>Enrichment\<close>

record enrichmentGroup =
  eg_RepoID :: int64
  eg_Owner :: string
  eg_RepoName :: string
  eg_RunID :: int64
  eg_RunAttempt :: int64

record enrichmentRunRow =
  er_ID :: int64
  er_RunnerName :: string
  er_CaptureStartedAt :: "instant option"
  er_CaptureEndedAt :: "instant option"

text \<open>
  \<open>SELECT DISTINCT ... ORDER BY\<close>: PostgreSQL refuses an ordering column that is not in the select
  list, with code 42P10, whatever the tables hold.
\<close>

definition select_distinct :: "string list \<Rightarrow> string \<Rightarrow> (db \<Rightarrow> 'r list) \<Rightarrow> nat \<Rightarrow> db \<Rightarrow> 'r list result" where
  "select_distinct columns order_by rows limit d =
     (if order_by \<in> set columns then Inr (take limit (nub_first (rows d))) else Inl (PgError ''42P10''))"

definition pending_groups :: "db \<Rightarrow> enrichmentGroup list" where
  "pending_groups d =
     List.map_filter
       (\<lambda>r. map_option
          (\<lambda>rp. \<lparr>eg_RepoID = rr_repo_id r, eg_Owner = rp_owner rp,
                 eg_RepoName = (case Split (rp_full_name rp) (CHR ''/'') of _ # name # _ \<Rightarrow> name | _ \<Rightarrow> []),
                 eg_RunID = rr_github_run_id r, eg_RunAttempt = rr_run_attempt r\<rparr>)
          (lookup_by rp_repo_id (rr_repo_id r) (db_repos d)))
       (order_asc rr_created_at (filter (\<lambda>r. rr_enrichment_state r = ''pending'') (db_runs d)))"

definition ListPendingEnrichmentGroups :: "int \<Rightarrow> (db, enrichmentGroup list) dbop" where
  "ListPendingEnrichmentGroups limit =
     wrap_err ''list pending enrichment groups''
       (query (select_distinct
          [''r.repo_id'', ''rp.owner'', ''repo_name'', ''r.github_run_id'', ''r.run_attempt'']
          ''r.created_at'' pending_groups (run_limit limit)))"

definition ListRunsForEnrichmentGroup :: "int64 \<Rightarrow> int64 \<Rightarrow> int64 \<Rightarrow> (db, enrichmentRunRow list) dbop" where
  "ListRunsForEnrichmentGroup repoID runID runAttempt =
     wrap_err ''list runs for enrichment group''
       (query (\<lambda>d. Inr (map (\<lambda>r. \<lparr>er_ID = rr_id r, er_RunnerName = rr_runner_name r,
            er_CaptureStartedAt = rr_capture_started_at r, er_CaptureEndedAt = rr_capture_ended_at r\<rparr>)
          (filter (\<lambda>r. rr_repo_id r = repoID \<and> rr_github_run_id r = runID \<and>
             rr_run_attempt r = runAttempt \<and> rr_enrichment_state r = ''pending'') (db_runs d)))))"

definition update_run_stmt :: "int64 \<Rightarrow> (runs_row \<Rightarrow> runs_row) \<Rightarrow> (db, unit) stmt" where
  "update_run_stmt runID f d =
     Inr ((), d\<lparr>db_runs := update_where (\<lambda>r. rr_id r = runID) f (db_runs d)\<rparr>)"

definition mark_unavailable :: "runs_row \<Rightarrow> runs_row" where
  "mark_unavailable r = r\<lparr>rr_enrichment_state := ''unavailable''\<rparr>"

definition mark_ambiguous :: "runs_row \<Rightarrow> runs_row" where
  "mark_ambiguous r = r\<lparr>rr_enrichment_state := ''ambiguous''\<rparr>"

definition mark_matched ::
  "int64 \<Rightarrow> string option \<Rightarrow> string option \<Rightarrow> instant option \<Rightarrow> instant option \<Rightarrow> runs_row \<Rightarrow> runs_row" where
  "mark_matched githubJobID name conclusion startedAt completedAt r =
     r\<lparr>rr_enrichment_state := ''matched'', rr_github_job_id := Some githubJobID,
       rr_job_display_name := name, rr_job_conclusion := conclusion,
       rr_job_started_at := startedAt, rr_job_completed_at := completedAt\<rparr>"

definition MarkRunEnrichmentUnavailable :: "int64 \<Rightarrow> (db, unit) dbop" where
  "MarkRunEnrichmentUnavailable runID =
     wrap_err ''mark run enrichment unavailable'' (exec (update_run_stmt runID mark_unavailable))"

definition MarkRunEnrichmentAmbiguous :: "int64 \<Rightarrow> (db, unit) dbop" where
  "MarkRunEnrichmentAmbiguous runID =
     wrap_err ''mark run enrichment ambiguous'' (exec (update_run_stmt runID mark_ambiguous))"

definition MarkRunEnrichmentMatched ::
  "int64 \<Rightarrow> int64 \<Rightarrow> string \<Rightarrow> string \<Rightarrow> instant option \<Rightarrow> instant option \<Rightarrow> (db, unit) dbop" where
  "MarkRunEnrichmentMatched runID githubJobID name conclusion startedAt completedAt =
     wrap_err ''mark run enrichment matched''
       (exec (update_run_stmt runID
          (mark_matched githubJobID (nullableString name) (nullableString conclusion) startedAt completedAt)))"

end
