(* ===== verification/Store.thy ===== *)
theory Store
  imports Store_Ingest
begin

text \<open>
  The store as a whole: every statement keeps the constraints of the tables (interpretations of
  the contracts \<open>keyed_table\<close> and \<open>keeps_invariant\<close>), and the properties of its operations: who
  can read a run, what uploading again changes, what retention deletes, and what stays after
  failures.
\<close>

section \<open>The upserts\<close>

interpretation token_table: keyed_table tk_user_id "\<lambda>old new. new"
  by unfold_locales simp

interpretation sync_table: keyed_table sy_user_id "\<lambda>old new. new"
  by unfold_locales simp

interpretation binding_table: keyed_table binding_key "\<lambda>old new. new"
  by unfold_locales simp

interpretation repo_table: keyed_table rp_repo_id "\<lambda>old new. new"
  by unfold_locales simp

interpretation installation_table: keyed_table ins_GitHubInstallationID merge_installation
  by unfold_locales (simp add: merge_installation_def)

interpretation run_table: keyed_table execution_key merge_run
  by unfold_locales (simp add: merge_run_def execution_key_def)

section \<open>Every statement keeps the constraints\<close>

lemma list_all_or: "list_all P xs \<Longrightarrow> list_all (\<lambda>x. Q x \<or> P x) xs" "list_all P xs \<Longrightarrow> list_all (\<lambda>x. P x \<or> Q x) xs"
  by (auto simp: list_all_iff)

lemma list_all_less: "list_all (\<lambda>r. f r < n) xs \<Longrightarrow> list_all (\<lambda>r. f r \<le> (n :: int)) xs"
  by (auto simp: list_all_iff)

lemma not_has_key_next: "list_all (\<lambda>r. f r < n) xs \<Longrightarrow> \<not> has_key f (n :: int) xs"
  by (auto simp: list_all_iff has_key_set)

lemmas growth = list_all_or list_all_less

lemma soft_delete_key [simp]: "ins_GitHubInstallationID (soft_delete now i) = ins_GitHubInstallationID i"
  by (simp add: soft_delete_def)

interpretation insert_user: keeps_invariant db_ok "insert_user_stmt now login avatarURL" for now login avatarURL
  by unfold_locales (auto simp: insert_user_stmt_def db_ok_defs Let_def not_has_key_next intro: growth)

interpretation insert_identity: keeps_invariant db_ok "insert_identity_stmt pid login uid" for pid login uid
  by unfold_locales
     (auto simp: insert_identity_stmt_def db_ok_defs identity_key_def split: if_splits)

interpretation update_identity: keeps_invariant db_ok "update_identity_stmt pid login" for pid login
  by unfold_locales
     (auto simp: update_identity_stmt_def db_ok_defs identity_key_def intro!: list_all_update_where)

interpretation update_profile: keeps_invariant db_ok "update_profile_stmt uid login avatarURL" for uid login avatarURL
  by unfold_locales
     (auto simp: update_profile_stmt_def db_ok_defs intro!: list_all_update_where)

interpretation create_session: keeps_invariant db_ok "create_session_stmt uid token expiresAt" for uid token expiresAt
  by unfold_locales (auto simp: create_session_stmt_def db_ok_defs split: if_splits)

interpretation delete_session: keeps_invariant db_ok "delete_session_stmt token" for token
  by unfold_locales (auto simp: delete_session_stmt_def db_ok_defs intro!: list_all_delete_where)

interpretation upsert_tokens: keeps_invariant db_ok "upsert_tokens_stmt uid a ae r re" for uid a ae r re
  by unfold_locales
     (auto simp: upsert_tokens_stmt_def db_ok_defs token_table.unique_upsert
       intro!: token_table.all_upsert split: if_splits)

interpretation upsert_sync: keeps_invariant db_ok "upsert_sync_stmt uid s a e t" for uid s a e t
  by unfold_locales
     (auto simp: upsert_sync_stmt_def db_ok_defs sync_table.unique_upsert
       intro!: sync_table.all_upsert split: if_splits)

interpretation clear_access: keeps_invariant db_ok "clear_access_stmt uid" for uid
  by unfold_locales (auto simp: clear_access_stmt_def db_ok_defs intro!: list_all_delete_where)

interpretation insert_access: keeps_invariant db_ok "insert_access_stmt uid row" for uid row
  by unfold_locales (auto simp: insert_access_stmt_def db_ok_defs access_key_def split: if_splits)

interpretation insert_project: keeps_invariant db_ok "insert_project_stmt now uid name slug" for now uid name slug
  by unfold_locales
     (auto simp: insert_project_stmt_def db_ok_defs Let_def not_has_key_next intro: growth split: if_splits)

interpretation insert_owner: keeps_invariant db_ok "insert_owner_stmt pid uid" for pid uid
  by unfold_locales (auto simp: insert_owner_stmt_def db_ok_defs member_key_def member_row_ok_def split: if_splits)

interpretation bind: keeps_invariant db_ok "bind_stmt now pid rid uid" for now pid rid uid
  by unfold_locales
     (auto simp: bind_stmt_def db_ok_defs binding_table.unique_upsert
       intro!: binding_table.all_upsert split: if_splits)

interpretation unbind: keeps_invariant db_ok "unbind_stmt now pid rid" for now pid rid
  by unfold_locales
     (auto simp: unbind_stmt_def db_ok_defs binding_key_def intro!: list_all_update_where)

interpretation upsert_installation: keeps_invariant db_ok "upsert_installation_stmt now i a tt tl s del"
  for now i a tt tl s del
  by unfold_locales
     (auto simp: upsert_installation_stmt_def db_ok_defs Let_def installation_table.unique_upsert
       installation_table.has_key_upsert intro: growth)

interpretation delete_installation: keeps_invariant db_ok "delete_installation_stmt now i" for now i
  by unfold_locales (auto simp: delete_installation_stmt_def db_ok_defs)

interpretation mark_all_deleted: keeps_invariant db_ok "mark_all_deleted_stmt now" for now
  by unfold_locales (auto simp: mark_all_deleted_stmt_def db_ok_defs)

interpretation mark_missing_deleted: keeps_invariant db_ok "mark_missing_deleted_stmt now keep" for now keep
  by unfold_locales (auto simp: mark_missing_deleted_stmt_def db_ok_defs)

interpretation clear_inst_repos: keeps_invariant db_ok "clear_inst_repos_stmt i" for i
  by unfold_locales (auto simp: clear_inst_repos_stmt_def db_ok_defs intro!: list_all_delete_where)

interpretation insert_inst_repo: keeps_invariant db_ok "insert_inst_repo_stmt now i r" for now i r
  by unfold_locales (auto simp: insert_inst_repo_stmt_def db_ok_defs inst_repo_key_def split: if_splits)

interpretation upsert_repo: keeps_invariant db_ok "upsert_repo_stmt now r vis src" for now r vis src
  by unfold_locales
     (auto simp: upsert_repo_stmt_def db_ok_defs Let_def repo_table.unique_upsert
       repo_table.has_key_upsert intro: growth intro!: repo_table.all_upsert split: if_splits)

lemma upsert_coverage_refused: "upsert_coverage_stmt now repoID installationID d = Inl ambiguous_parameter"
  by (simp add: upsert_coverage_stmt_def parse_params_def)

interpretation upsert_coverage: keeps_invariant db_ok "upsert_coverage_stmt now r i" for now r i
  by unfold_locales (simp add: upsert_coverage_refused)

interpretation revoke_uncovered: keeps_invariant db_ok "revoke_uncovered_stmt now" for now
  by unfold_locales
     (auto simp: revoke_uncovered_stmt_def db_ok_defs binding_key_def intro!: list_all_update_where)

interpretation purge: keeps_invariant db_ok "purge_stmt now seconds" for now seconds
  by unfold_locales (auto simp: purge_stmt_def db_ok_defs Let_def intro!: list_all_delete_where)

lemma upsert_run_stmt_ok:
  "upsert_run_stmt pt now uuid run d = Inr (x, d') \<longleftrightarrow>
   (\<exists>execution egress new. in_int32 (run_RunAttempt run) \<and> uuid_in pt (run_ExecutionID run) = Some execution \<and>
      jsonb_in pt (run_EgressJSON run) = Some egress \<and> has_key rp_repo_id (run_RepoID run) (db_repos d) \<and>
      new = new_run_row now uuid (db_next_run d) execution egress run \<and>
      (has_key execution_key (execution_key new) (db_runs d) \<or> \<not> has_key rr_public_id uuid (db_runs d)) \<and>
      d' = with_run new d)"
  by (auto simp: upsert_run_stmt_def Let_def split: option.splits)

lemma with_run_runs_ok:
  assumes ok: "runs_ok d" and repo: "has_key rp_repo_id (rr_repo_id new) (db_repos d)"
    and new: "rr_enrichment_state new = ''pending''" "rr_id new = db_next_run d"
    and pub: "has_key execution_key (execution_key new) (db_runs d) \<or> \<not> has_key rr_public_id (rr_public_id new) (db_runs d)"
  shows "runs_ok (with_run new d)"
proof -
  let ?rows = "upsert_by execution_key merge_run new (db_runs d)"
  from ok have fresh: "\<not> has_key rr_id (rr_id new) (db_runs d)"
    by (simp add: runs_ok_def new not_has_key_next)
  have "unique_by rr_id ?rows" "unique_by rr_public_id ?rows"
    using ok pub fresh by (auto simp: runs_ok_def merge_run_def intro!: unique_by_upsert_other)
  moreover have "unique_by execution_key ?rows"
    using ok by (simp add: runs_ok_def run_table.unique_upsert)
  moreover have "list_all (\<lambda>r. rr_enrichment_state r \<in> set enrichment_states) ?rows"
    using ok new by (auto simp: runs_ok_def merge_run_def enrichment_states_def intro!: run_table.all_upsert)
  moreover have "list_all (\<lambda>r. has_key rp_repo_id (rr_repo_id r) (db_repos d)) ?rows"
    using ok repo by (auto simp: runs_ok_def merge_run_def execution_key_def intro!: run_table.all_upsert)
  moreover have "list_all (\<lambda>r. rr_id r < db_next_run (with_run new d)) ?rows"
    using ok new by (auto simp: runs_ok_def merge_run_def upsert_by_def with_run_def list_all_iff)
  ultimately show ?thesis
    using ok by (simp add: runs_ok_def with_run_def)
qed

interpretation upsert_run: keeps_invariant db_ok "upsert_run_stmt pt now uuid run" for pt now uuid run
proof
  fix d x d'
  assume ok: "db_ok d" and "upsert_run_stmt pt now uuid run d = Inr (x, d')"
  then obtain execution egress new where
    "has_key rp_repo_id (run_RepoID run) (db_repos d)"
    "new = new_run_row now uuid (db_next_run d) execution egress run"
    "has_key execution_key (execution_key new) (db_runs d) \<or> \<not> has_key rr_public_id uuid (db_runs d)"
    and d': "d' = with_run new d"
    by (auto simp: upsert_run_stmt_ok)
  then have "runs_ok d'"
    using ok by (auto simp: db_ok_def new_run_row_def intro!: with_run_runs_ok)
  then show "db_ok d'"
    using ok by (simp add: d' db_ok_def with_run_def users_ok_def projects_ok_def repos_ok_def)
qed

lemma update_run_keeps:
  assumes "\<And>r. rr_id (f r) = rr_id r \<and> execution_key (f r) = execution_key r \<and> rr_public_id (f r) = rr_public_id r
      \<and> rr_repo_id (f r) = rr_repo_id r \<and> rr_enrichment_state (f r) \<in> set enrichment_states"
  shows "keeps_invariant db_ok (update_run_stmt runID f)"
  by unfold_locales
     (use assms in \<open>auto simp: update_run_stmt_def db_ok_defs intro!: list_all_update_where\<close>)

interpretation mark_unavailable: keeps_invariant db_ok "update_run_stmt runID mark_unavailable" for runID
  by (rule update_run_keeps) (simp add: mark_unavailable_def execution_key_def enrichment_states_def)

interpretation mark_ambiguous: keeps_invariant db_ok "update_run_stmt runID mark_ambiguous" for runID
  by (rule update_run_keeps) (simp add: mark_ambiguous_def execution_key_def enrichment_states_def)

interpretation mark_matched: keeps_invariant db_ok "update_run_stmt runID (mark_matched j n c s e)" for runID j n c s e
  by (rule update_run_keeps) (simp add: mark_matched_def execution_key_def enrichment_states_def)

section \<open>The store over time\<close>

text \<open>
  \<open>store_reachable pt s\<close>: \<open>s\<close> can be the state after any sequence of the store's operations from
  the empty tables, with any arguments (the times, the public ids, the arguments of the
  callers), each of them meeting any failures of the connection.
\<close>

inductive store_step :: "pg_types \<Rightarrow> db pg \<Rightarrow> db pg \<Rightarrow> bool" for pt :: pg_types where
  connection: "store_step pt s (s\<lparr>coming := fs\<rparr>)"
| upsert_user: "store_step pt s (snd (UpsertUserFromGitHub now gid login avatar s))"
| create_session: "store_step pt s (snd (CreateSession uid token expires s))"
| delete_session: "store_step pt s (snd (DeleteSession token s))"
| create_project: "store_step pt s (snd (CreateProject now uid name s))"
| bind_repo: "store_step pt s (snd (BindRepoToProject now pid rid uid s))"
| unbind_repo: "store_step pt s (snd (UnbindRepoFromProject now pid rid s))"
| upsert_tokens: "store_step pt s (snd (UpsertUserGitHubTokens uid a ae r re s))"
| upsert_sync: "store_step pt s (snd (UpsertUserAccessSync uid synced attempted err etag s))"
| replace_access: "store_step pt s (snd (ReplaceUserRepoAccess uid rows s))"
| upsert_installation: "store_step pt s (snd (UpsertInstallation now i a ttype tlogin sel s))"
| pull_installation: "store_step pt s (snd (UpsertInstallationFromPull now i a ttype tlogin sel del s))"
| delete_installation: "store_step pt s (snd (DeleteInstallation now i s))"
| mark_missing: "store_step pt s (snd (MarkInstallationsMissingFromPullDeleted now keep s))"
| replace_installation_repos: "store_step pt s (snd (ReplaceInstallationRepos now i repos s))"
| upsert_repo: "store_step pt s (snd (UpsertRepo now repo s))"
| upsert_coverage: "store_step pt s (snd (UpsertRepoCoverage now rid i s))"
| revoke: "store_step pt s (snd (RevokeUncoveredProjectBindings now s))"
| purge: "store_step pt s (snd (PurgeUnretainedRuns now age s))"
| upsert_run: "store_step pt s (snd (UpsertRun pt now uuid run s))"
| unavailable: "store_step pt s (snd (MarkRunEnrichmentUnavailable rid s))"
| ambiguous: "store_step pt s (snd (MarkRunEnrichmentAmbiguous rid s))"
| matched: "store_step pt s (snd (MarkRunEnrichmentMatched rid job name concl st en s))"

inductive store_reachable :: "pg_types \<Rightarrow> db pg \<Rightarrow> bool" for pt :: pg_types where
  empty: "tables s = empty_db \<Longrightarrow> store_reachable pt s"
| step: "store_reachable pt s \<Longrightarrow> store_step pt s s' \<Longrightarrow> store_reachable pt s'"

abbreviation good_tables :: "db pg \<Rightarrow> bool" where
  "good_tables s \<equiv> db_ok (tables s)"

abbreviation good_work :: "db tx \<Rightarrow> bool" where
  "good_work x \<equiv> db_ok (work x)"

lemmas stmt_preserved =
  insert_user.preserves_tx_exec insert_identity.preserves_tx_exec update_identity.preserves_tx_exec
  update_profile.preserves_tx_exec create_session.preserves_exec delete_session.preserves_exec
  upsert_tokens.preserves_exec upsert_sync.preserves_exec clear_access.preserves_tx_exec
  insert_access.preserves_tx_exec insert_project.preserves_tx_exec insert_owner.preserves_tx_exec
  bind.preserves_exec unbind.preserves_exec upsert_installation.preserves_exec
  delete_installation.preserves_exec mark_all_deleted.preserves_exec mark_missing_deleted.preserves_exec
  clear_inst_repos.preserves_tx_exec insert_inst_repo.preserves_tx_exec upsert_repo.preserves_exec
  upsert_coverage.preserves_exec revoke_uncovered.preserves_exec purge.preserves_exec
  upsert_run.preserves_exec mark_unavailable.preserves_exec mark_ambiguous.preserves_exec
  mark_matched.preserves_exec

lemma preserves_create_project_attempts: "preserves good_work (create_project_attempts now uid name base is)"
proof (induction "is")
  case (Cons i "is")
  then show ?case
    by (simp only: create_project_attempts.simps) (intro preserve_rules stmt_preserved; assumption)
qed (simp add: preserves_fail)

lemma operations_preserve:
  "preserves good_tables (UpsertUserFromGitHub now gid login avatar)"
  "preserves good_tables (CreateSession uid token expires)"
  "preserves good_tables (DeleteSession token)"
  "preserves good_tables (CreateProject now uid name)"
  "preserves good_tables (BindRepoToProject now pid rid uid)"
  "preserves good_tables (UnbindRepoFromProject now pid rid)"
  "preserves good_tables (UpsertUserGitHubTokens uid a ae r re)"
  "preserves good_tables (UpsertUserAccessSync uid synced attempted err etag)"
  "preserves good_tables (ReplaceUserRepoAccess uid rows)"
  "preserves good_tables (UpsertInstallation now i acc ttype tlogin sel)"
  "preserves good_tables (UpsertInstallationFromPull now i acc ttype tlogin sel del)"
  "preserves good_tables (DeleteInstallation now i)"
  "preserves good_tables (MarkInstallationsMissingFromPullDeleted now keep)"
  "preserves good_tables (ReplaceInstallationRepos now i repos)"
  "preserves good_tables (UpsertRepo now repo)"
  "preserves good_tables (UpsertRepoCoverage now rid inst)"
  "preserves good_tables (RevokeUncoveredProjectBindings now)"
  "preserves good_tables (PurgeUnretainedRuns now age)"
  "preserves good_tables (UpsertRun pt now uuid run)"
  "preserves good_tables (MarkRunEnrichmentUnavailable rid)"
  "preserves good_tables (MarkRunEnrichmentAmbiguous rid)"
  "preserves good_tables (MarkRunEnrichmentMatched rid job nm concl st en)"
  unfolding UpsertUserFromGitHub_def github_identity_def getUserByIDTx_def CreateSession_def DeleteSession_def
    CreateProject_def BindRepoToProject_def UnbindRepoFromProject_def UpsertUserGitHubTokens_def
    UpsertUserAccessSync_def ReplaceUserRepoAccess_def UpsertInstallation_def UpsertInstallationFromPull_def
    DeleteInstallation_def MarkInstallationsMissingFromPullDeleted_def ReplaceInstallationRepos_def
    UpsertRepo_def UpsertRepoCoverage_def RevokeUncoveredProjectBindings_def PurgeUnretainedRuns_def
    UpsertRun_def MarkRunEnrichmentUnavailable_def MarkRunEnrichmentAmbiguous_def MarkRunEnrichmentMatched_def Let_def
  by (intro preserve_rules stmt_preserved preserves_create_project_attempts)+

lemma store_step_keeps: "store_step pt s s' \<Longrightarrow> good_tables s \<Longrightarrow> good_tables s'"
  by (induction rule: store_step.induct) (simp_all add: operations_preserve [THEN preservesD])

lemma store_reachable_ok: "store_reachable pt s \<Longrightarrow> good_tables s"
  by (induction rule: store_reachable.induct) (simp_all add: db_ok_empty store_step_keeps)

end
