(* ===== verification/Store_Properties.thy ===== *)
theory Store_Properties
  imports Store
begin

text \<open>
  Properties of the store's operations: who can read a run, what revoking a binding does, that the
  coverage of a repository is never recorded, and what retention deletes.
\<close>

section \<open>Reading\<close>

text \<open>The exchange that comes next succeeds.\<close>

definition answers :: "'t pg \<Rightarrow> bool" where
  "answers s \<longleftrightarrow> fst (next_fate (coming s)) = None"

lemma query_row_iff: "fst (query_row q s) = Inr v \<longleftrightarrow> answers s \<and> q (tables s) = Some v"
  by (auto simp: query_row_def query_def exec_def answers_def
      split: prod.splits option.splits fault.splits sum.splits)

lemma query_iff: "fst (query q s) = Inr v \<longleftrightarrow> answers s \<and> q (tables s) = Inr v"
  by (auto simp: query_def exec_def answers_def bind_result_def
      split: prod.splits option.splits fault.splits sum.splits)

lemma fst_or_not_found_Inr: "fst (or_not_found msg m s) = Inr v \<longleftrightarrow> fst (m s) = Inr v"
  by (auto simp: fst_or_not_found split: sum.splits)

lemma fst_wrap_err_Inr: "fst (wrap_err msg m s) = Inr v \<longleftrightarrow> fst (m s) = Inr v"
  by (auto simp: fst_wrap_err split: sum.splits)

lemma exec_fst_ok: "fst (exec st s) = Inr x \<Longrightarrow> st (tables s) = Inr (x, tables (snd (exec st s)))"
  by (metis exec_ok prod.collapse)

lemma wrapped_exec_ok:
  "fst (wrap_err msg (exec st) s) = Inr x \<Longrightarrow> st (tables s) = Inr (x, tables (snd (wrap_err msg (exec st) s)))"
  by (simp add: fst_wrap_err_Inr exec_fst_ok)

text \<open>The viewer is a member of a project that the repository is bound to now.\<close>

definition through_membership :: "db \<Rightarrow> int64 option \<Rightarrow> int64 \<Rightarrow> bool" where
  "through_membership d viewer repoID \<longleftrightarrow>
     (\<exists>uid b m. viewer = Some uid \<and> b \<in> set (db_bindings d) \<and> bi_repo_id b = repoID \<and> bi_revoked_at b = None \<and>
        m \<in> set (db_members d) \<and> me_project_id m = bi_project_id b \<and> me_user_id m = uid)"

lemma is_member_iff: "is_member d viewer repoID \<longleftrightarrow> through_membership d viewer repoID"
  by (cases viewer) (auto simp: is_member_def through_membership_def list_ex_iff live_def)

lemma visible_run_iff:
  assumes "db_ok d" "r \<in> set (db_runs d)"
  shows "visible_run d viewer r = Some run \<longleftrightarrow>
    (\<exists>rp \<in> set (db_repos d). rp_repo_id rp = rr_repo_id r \<and>
       (rp_visibility rp = ''public'' \<or> through_membership d viewer (rr_repo_id r)) \<and>
       run = scanRun r rp (through_membership d viewer (rr_repo_id r)))"
proof -
  have u: "unique_by rp_repo_id (db_repos d)"
    using assms(1) by (simp add: db_ok_def repos_ok_def)
  have "lookup_by rp_repo_id (rr_repo_id r) (db_repos d) = Some rp \<longleftrightarrow>
      rp \<in> set (db_repos d) \<and> rp_repo_id rp = rr_repo_id r" for rp
    using lookup_by_unique [OF u] lookup_by_Some by metis
  moreover have "visible_run d viewer r = Some run \<longleftrightarrow>
      (\<exists>rp. lookup_by rp_repo_id (rr_repo_id r) (db_repos d) = Some rp \<and>
         (rp_visibility rp = ''public'' \<or> through_membership d viewer (rr_repo_id r)) \<and>
         run = scanRun r rp (through_membership d viewer (rr_repo_id r)))"
    by (cases "lookup_by rp_repo_id (rr_repo_id r) (db_repos d)") (auto simp: visible_run_def is_member_iff)
  ultimately show ?thesis
    by (auto simp: Bex_def)
qed

text \<open>A database with one private run that is bound to a project of user 1.\<close>

definition demo_row :: "runs_row" where
  "demo_row = new_run_row (Instant 5) ''p1'' 1 ''e1'' ''{}'' (zero_run\<lparr>run_RepoID := 7, run_RunAttempt := 1\<rparr>)"

definition demo_repo_row :: repos_row where
  "demo_repo_row = \<lparr>rp_repo_id = 7, rp_full_name = ''o/r'', rp_owner = ''o'', rp_owner_id = 3,
     rp_visibility = ''private'', rp_visibility_source = ''oidc'', rp_synced_at = Instant 5\<rparr>"

definition demo_db :: db where
  "demo_db = empty_db\<lparr>
     db_users := [\<lparr>us_id = 1, us_display_name = ''u'', us_email = None, us_avatar_url = [], us_created_at = Instant 0\<rparr>],
     db_projects := [\<lparr>pj_id = 1, pj_created_by = Some 1, pj_name = ''P'', pj_slug = ''p'', pj_created_at = Instant 1\<rparr>],
     db_members := [\<lparr>me_project_id = 1, me_user_id = 1, me_role = ''owner''\<rparr>],
     db_bindings := [\<lparr>bi_project_id = 1, bi_repo_id = 7, bi_bound_by = Some 1, bi_bound_at = Instant 2, bi_revoked_at = None\<rparr>],
     db_repos := [demo_repo_row], db_runs := [demo_row],
     db_next_user := 2, db_next_project := 2, db_next_run := 2\<rparr>"

definition demo_types :: pg_types where
  "demo_types = \<lparr>uuid_in = (\<lambda>s. if s = [] then None else Some s), jsonb_in = Some\<rparr>"

lemma demo_db_ok: "db_ok demo_db"
  by (simp add: db_ok_defs demo_db_def empty_db_def demo_row_def demo_repo_row_def new_run_row_def zero_run_def
      unique_by_def has_key_def repo_row_ok_def member_row_ok_def enrichment_states_def)

section \<open>Properties\<close>

text \<open>
  C5: The visibility rule: looking a run up by its public id gives a run exactly when the
  database answers, the id is a uuid of a stored run, and its repository is public or the viewer
  is a member of a project that the repository is bound to by a binding that is not revoked; the
  run handed out is the stored one, with the member flag of this viewer.
\<close>

theorem GetRunByPublicID_visibility:
  assumes "db_ok (tables s)"
  shows "(fst (GetRunByPublicID pt publicID viewer s) = Inr run) =
    (answers s \<and> (\<exists>r \<in> set (db_runs (tables s)). \<exists>rp \<in> set (db_repos (tables s)).
       uuid_in pt publicID = Some (rr_public_id r) \<and> rp_repo_id rp = rr_repo_id r \<and>
       (rp_visibility rp = ''public'' \<or> through_membership (tables s) viewer (rr_repo_id r)) \<and>
       run = scanRun r rp (through_membership (tables s) viewer (rr_repo_id r))))"
proof (cases "uuid_in pt publicID")
  case None
  then show ?thesis
    by (simp add: GetRunByPublicID_def fst_or_not_found_Inr fst_wrap_err_Inr query_iff)
next
  case (Some uuid)
  have u: "unique_by rr_public_id (db_runs (tables s))"
    using assms by (simp add: db_ok_def runs_ok_def)
  have "lookup_by rr_public_id uuid (db_runs (tables s)) = Some r \<longleftrightarrow>
      r \<in> set (db_runs (tables s)) \<and> rr_public_id r = uuid" for r
    using lookup_by_unique [OF u] lookup_by_Some by metis
  then have "(Option.bind (lookup_by rr_public_id uuid (db_runs (tables s))) (visible_run (tables s) viewer) = Some run) \<longleftrightarrow>
      (\<exists>r \<in> set (db_runs (tables s)). rr_public_id r = uuid \<and> visible_run (tables s) viewer r = Some run)"
    by (auto simp: bind_eq_Some_conv)
  with Some show ?thesis
    by (auto simp: GetRunByPublicID_def fst_or_not_found_Inr fst_wrap_err_Inr query_row_iff
        visible_run_iff [OF assms])
qed

theorem GetRunByPublicID_visibility_witness:
  "fst (GetRunByPublicID demo_types ''p1'' (Some 1) (healthy demo_db)) = Inr (scanRun demo_row demo_repo_row True) \<and>
   \<not> is_ok (fst (GetRunByPublicID demo_types ''p1'' None (healthy demo_db)))"
proof -
  have m: "through_membership demo_db (Some 1) 7" "\<not> through_membership demo_db None 7"
    by (simp_all add: through_membership_def demo_db_def)
  have r: "rr_repo_id demo_row = 7" "rr_public_id demo_row = ''p1''" "rp_repo_id demo_repo_row = 7"
    "rp_visibility demo_repo_row = ''private''"
    by (simp_all add: demo_row_def demo_repo_row_def new_run_row_def)
  have d: "set (db_runs demo_db) = {demo_row}" "set (db_repos demo_db) = {demo_repo_row}"
    by (simp_all add: demo_db_def)
  have a: "answers (healthy demo_db)" "uuid_in demo_types ''p1'' = Some ''p1''"
    by (simp_all add: answers_def demo_types_def)
  note v = GetRunByPublicID_visibility [of "healthy demo_db" demo_types "''p1''"]
  show ?thesis
    using v [of "Some 1"] v [of None] m r d a demo_db_ok
    by (cases "fst (GetRunByPublicID demo_types ''p1'' None (healthy demo_db))") (simp_all, blast)
qed

text \<open>GitHub's installations are known not to reach the repository.\<close>

definition known_uncovered :: "db \<Rightarrow> int64 \<Rightarrow> bool" where
  "known_uncovered d repoID \<longleftrightarrow> (\<exists>c \<in> set (db_coverage d). cv_repo_id c = repoID \<and> cv_installation_id c = None)"

lemma uncovered_iff: "uncovered d repoID \<longleftrightarrow> known_uncovered d repoID"
  by (auto simp: uncovered_def known_uncovered_def list_ex_iff)

lemma revoked_tables:
  assumes "fst (RevokeUncoveredProjectBindings now s) = Inr n"
  shows "tables (snd (RevokeUncoveredProjectBindings now s)) = (tables s)\<lparr>db_bindings :=
      update_where (\<lambda>b. bi_revoked_at b = None \<and> known_uncovered (tables s) (bi_repo_id b))
        (\<lambda>b. b\<lparr>bi_revoked_at := Some now\<rparr>) (db_bindings (tables s))\<rparr>"
    and "n = length (filter (\<lambda>b. bi_revoked_at b = None \<and> known_uncovered (tables s) (bi_repo_id b)) (db_bindings (tables s)))"
proof -
  from assms have "revoke_uncovered_stmt now (tables s) = Inr (n, tables (snd (RevokeUncoveredProjectBindings now s)))"
    unfolding RevokeUncoveredProjectBindings_def by (rule wrapped_exec_ok)
  then show "tables (snd (RevokeUncoveredProjectBindings now s)) = (tables s)\<lparr>db_bindings :=
      update_where (\<lambda>b. bi_revoked_at b = None \<and> known_uncovered (tables s) (bi_repo_id b))
        (\<lambda>b. b\<lparr>bi_revoked_at := Some now\<rparr>) (db_bindings (tables s))\<rparr>"
    and "n = length (filter (\<lambda>b. bi_revoked_at b = None \<and> known_uncovered (tables s) (bi_repo_id b)) (db_bindings (tables s)))"
    by (auto simp: revoke_uncovered_stmt_def live_def uncovered_iff)
qed

lemma GetRunByPublicID_run:
  "fst (GetRunByPublicID pt publicID viewer s) = Inr run \<Longrightarrow> \<exists>r \<in> set (db_runs (tables s)). visible_run (tables s) viewer r = Some run"
  by (auto simp: GetRunByPublicID_def fst_or_not_found_Inr fst_wrap_err_Inr query_iff query_row_iff bind_eq_Some_conv
      dest!: lookup_by_Some split: option.splits)

lemma visible_run_flags:
  "visible_run d viewer r = Some run \<Longrightarrow>
   (run_RepoVisibility run = ''public'' \<or> run_ViewerIsMember run) \<and> run_RepoID run = rr_repo_id r \<and>
   run_ViewerIsMember run = through_membership d viewer (rr_repo_id r)"
  by (auto simp: visible_run_def is_member_iff scanRun_def split: option.splits if_splits)

text \<open>
  C25: When the revocation of the bindings of uncovered repositories succeeds, no project is bound
  any more to a repository that is known to be uncovered; the bindings that it revoked are
  exactly the live ones of such repositories, all of one time, as many as it reports, and
  nothing else in the tables changed; and a run of an uncovered repository that anybody can
  still look up is a run of a public repository, shown to him as to a stranger.
\<close>

theorem revocation_hides_uncovered:
  assumes "fst (RevokeUncoveredProjectBindings now s) = Inr n"
  shows "(\<forall>b \<in> set (db_bindings (tables (snd (RevokeUncoveredProjectBindings now s)))).
      bi_revoked_at b = None \<longrightarrow> \<not> known_uncovered (tables s) (bi_repo_id b)) \<and>
    list_all2 (\<lambda>b b'. b' = (if bi_revoked_at b = None \<and> known_uncovered (tables s) (bi_repo_id b)
        then b\<lparr>bi_revoked_at := Some now\<rparr> else b))
      (db_bindings (tables s)) (db_bindings (tables (snd (RevokeUncoveredProjectBindings now s)))) \<and>
    n = length (filter (\<lambda>b. bi_revoked_at b = None \<and> known_uncovered (tables s) (bi_repo_id b)) (db_bindings (tables s))) \<and>
    (tables (snd (RevokeUncoveredProjectBindings now s)))\<lparr>db_bindings := []\<rparr> = (tables s)\<lparr>db_bindings := []\<rparr> \<and>
    (\<forall>pt publicID viewer run.
       fst (GetRunByPublicID pt publicID viewer (snd (RevokeUncoveredProjectBindings now s))) = Inr run \<longrightarrow>
       known_uncovered (tables s) (run_RepoID run) \<longrightarrow>
       run_RepoVisibility run = ''public'' \<and> \<not> run_ViewerIsMember run)"
proof -
  let ?d' = "tables (snd (RevokeUncoveredProjectBindings now s))"
  note d' = revoked_tables [OF assms]
  have none: "\<forall>b \<in> set (db_bindings ?d'). bi_revoked_at b = None \<longrightarrow> \<not> known_uncovered (tables s) (bi_repo_id b)"
    unfolding d'(1) by (auto simp: set_update_where)
  have "run_RepoVisibility run = ''public'' \<and> \<not> run_ViewerIsMember run"
    if run: "fst (GetRunByPublicID pt publicID viewer (snd (RevokeUncoveredProjectBindings now s))) = Inr run"
      and unc: "known_uncovered (tables s) (run_RepoID run)" for pt publicID viewer run
  proof -
    from GetRunByPublicID_run [OF run] obtain r where "visible_run ?d' viewer r = Some run" by blast
    note flags = visible_run_flags [OF this]
    with unc none have "\<not> through_membership ?d' viewer (rr_repo_id r)"
      by (auto simp: through_membership_def)
    with flags show ?thesis by auto
  qed
  moreover have "list_all2 (\<lambda>b b'. b' = (if bi_revoked_at b = None \<and> known_uncovered (tables s) (bi_repo_id b)
        then b\<lparr>bi_revoked_at := Some now\<rparr> else b)) (db_bindings (tables s)) (db_bindings ?d')"
    unfolding d'(1) by (simp add: update_where_def list_all2_map2 list_all2_same)
  moreover have "?d'\<lparr>db_bindings := []\<rparr> = (tables s)\<lparr>db_bindings := []\<rparr>"
    unfolding d'(1) by simp
  ultimately show ?thesis
    using none d'(2) by blast
qed

definition demo_uncovered :: db where
  "demo_uncovered = demo_db\<lparr>db_coverage := [\<lparr>cv_repo_id = 7, cv_installation_id = None, cv_checked_at = Instant 8,
     cv_uncovered_since = Some (Instant 8)\<rparr>]\<rparr>"

theorem revocation_hides_uncovered_witness:
  "\<not> list_ex (\<lambda>b. bi_revoked_at b = None)
     (db_bindings (tables (snd (RevokeUncoveredProjectBindings (Instant 9) (healthy demo_uncovered)))))"
proof -
  have "fst (RevokeUncoveredProjectBindings (Instant 9) (healthy demo_uncovered)) = Inr 1"
    by (simp add: RevokeUncoveredProjectBindings_def fst_wrap_err_Inr revoke_uncovered_stmt_def demo_db_def
        demo_uncovered_def live_def uncovered_def)
  note r = revocation_hides_uncovered [OF this, simplified]
  have "db_bindings demo_uncovered = [\<lparr>bi_project_id = 1, bi_repo_id = 7, bi_bound_by = Some 1,
      bi_bound_at = Instant 2, bi_revoked_at = None\<rparr>]" "known_uncovered demo_uncovered 7"
    by (simp_all add: demo_uncovered_def demo_db_def known_uncovered_def)
  with r show ?thesis
    by (auto simp: list_all2_Cons1 list_ex_iff)
qed

section \<open>Coverage and retention\<close>


text \<open>
  C26: Retention is safe: whatever fails, a run that the purge removed belongs to a repository
  that is not public and to which no project is bound, and that has been uncovered since a time
  more than the retention period ago; every other run is kept, in order, and no other table
  changes. The period is given in whole seconds, as the workers do.
\<close>

theorem purge_safe:
  assumes "db_ok (tables s)" "age = n * second" "0 \<le> n"
  shows "\<exists>gone. db_runs (tables (snd (PurgeUnretainedRuns now age s))) = filter (\<lambda>r. \<not> gone r) (db_runs (tables s)) \<and>
    (tables (snd (PurgeUnretainedRuns now age s)))\<lparr>db_runs := []\<rparr> = (tables s)\<lparr>db_runs := []\<rparr> \<and>
    (\<forall>r \<in> set (db_runs (tables s)). gone r \<longrightarrow>
       (\<forall>rp \<in> set (db_repos (tables s)). rp_repo_id rp = rr_repo_id r \<longrightarrow> rp_visibility rp \<noteq> ''public'') \<and>
       (\<forall>b \<in> set (db_bindings (tables s)). bi_repo_id b = rr_repo_id r \<longrightarrow> bi_revoked_at b \<noteq> None) \<and>
       (\<exists>c \<in> set (db_coverage (tables s)). \<exists>t. cv_repo_id c = rr_repo_id r \<and> cv_installation_id c = None \<and>
          cv_uncovered_since c = Some t \<and> time_Add t age < now))"
proof -
  let ?d = "tables s" and ?op = "PurgeUnretainedRuns now age s"
  have secs: "whole_seconds age * second = age"
    using assms(2,3) by (simp add: whole_seconds_def second_def sgn_if)
  have "tables (snd ?op) = ?d \<or> (\<exists>x. purge_stmt now (whole_seconds age) ?d = Inr (x, tables (snd ?op)))"
    by (simp add: PurgeUnretainedRuns_def exec_tables)
  then show ?thesis
  proof
    assume "tables (snd ?op) = ?d"
    then show ?thesis by (intro exI [of _ "\<lambda>r. False"]) simp
  next
    assume "\<exists>x. purge_stmt now (whole_seconds age) ?d = Inr (x, tables (snd ?op))"
    then have t: "tables (snd ?op) = ?d\<lparr>db_runs := delete_where (unretained ?d (time_Add now (- age))) (db_runs ?d)\<rparr>"
      by (auto simp: purge_stmt_def Let_def secs)
    have repos: "rp \<in> set (db_repos ?d) \<Longrightarrow> rp' \<in> set (db_repos ?d) \<Longrightarrow> rp_repo_id rp = rp_repo_id rp' \<Longrightarrow> rp = rp'"
      and cov: "c \<in> set (db_coverage ?d) \<Longrightarrow> coverage_row_ok c" for rp rp' c
      using assms(1) unique_by_eq by (auto simp: db_ok_def repos_ok_def list_all_iff)
    have "rp_visibility rp \<noteq> ''public''"
      if "unretained ?d (time_Add now (- age)) r" "rp \<in> set (db_repos ?d)" "rp_repo_id rp = rr_repo_id r" for r rp
      using that repos by (fastforce simp: unretained_def list_ex_iff)
    moreover have "bi_revoked_at b \<noteq> None"
      if "unretained ?d (time_Add now (- age)) r" "b \<in> set (db_bindings ?d)" "bi_repo_id b = rr_repo_id r" for r b
      using that by (auto simp: unretained_def list_ex_iff live_def)
    moreover have "\<exists>c \<in> set (db_coverage ?d). \<exists>t. cv_repo_id c = rr_repo_id r \<and> cv_installation_id c = None \<and>
        cv_uncovered_since c = Some t \<and> time_Add t age < now" if "unretained ?d (time_Add now (- age)) r" for r
    proof -
      from that obtain c t where c: "c \<in> set (db_coverage ?d)" "cv_repo_id c = rr_repo_id r"
        "cv_uncovered_since c = Some t" "t < time_Add now (- age)"
        by (auto simp: unretained_def list_ex_iff split: option.splits)
      with cov [OF c(1)] show ?thesis
        by (intro bexI [of _ c] exI [of _ t]) (auto simp: coverage_row_ok_def less_instant_def)
    qed
    ultimately show ?thesis
      by (intro exI [of _ "unretained ?d (time_Add now (- age))"]) (simp add: t delete_where_def)
  qed
qed

theorem purge_safe_witness:
  "\<exists>gone. db_runs (tables (snd (PurgeUnretainedRuns (Instant 9) (30 * second) (healthy demo_db)))) =
     filter (\<lambda>r. \<not> gone r) [demo_row] \<and> \<not> gone demo_row"
proof -
  have "0 \<le> (30 :: int)" by simp
  then obtain gone where
    g: "db_runs (tables (snd (PurgeUnretainedRuns (Instant 9) (30 * second) (healthy demo_db)))) =
       filter (\<lambda>r. \<not> gone r) (db_runs (tables (healthy demo_db)))"
    "\<forall>r \<in> set (db_runs (tables (healthy demo_db))). gone r \<longrightarrow>
       (\<exists>c \<in> set (db_coverage (tables (healthy demo_db))). cv_repo_id c = rr_repo_id r)"
    using purge_safe [OF _ refl, of "healthy demo_db" 30 "Instant 9"] demo_db_ok by simp blast
  have "db_runs demo_db = [demo_row]" "db_coverage demo_db = []"
    by (simp_all add: demo_db_def empty_db_def)
  with g show ?thesis
    by (intro exI [of _ gone]) simp
qed

end
