(* ===== verification/Store_Effects.thy ===== *)
theory Store_Effects
  imports Store_Properties
begin

text \<open>
  Properties of single operations of the store: storing a run again, enrichment, projects and
  their slugs, the replacement of a user's repositories, and sessions.
\<close>

section \<open>Storing a run again\<close>

text \<open>The JSON that is stored: that of the run, an empty object when there is none.\<close>

definition egress_text :: "run \<Rightarrow> string" where
  "egress_text run = (if run_EgressJSON run = [] then ''{}'' else run_EgressJSON run)"

lemma UpsertRun_ok:
  assumes "fst (UpsertRun pt now uuid run s) = Inr ()"
  shows "\<exists>execution egress. uuid_in pt (run_ExecutionID run) = Some execution \<and>
    jsonb_in pt (egress_text run) = Some egress \<and>
    tables (snd (UpsertRun pt now uuid run s)) =
      with_run (new_run_row now uuid (db_next_run (tables s)) execution egress run) (tables s)"
proof -
  let ?run = "if length (run_EgressJSON run) = 0 then run\<lparr>run_EgressJSON := ''{}''\<rparr> else run"
  have "new_run_row now uuid rid execution egress ?run = new_run_row now uuid rid execution egress run"
    and "run_ExecutionID ?run = run_ExecutionID run" "run_EgressJSON ?run = egress_text run" for rid execution egress
    by (simp_all add: new_run_row_def egress_text_def)
  moreover have "upsert_run_stmt pt now uuid ?run (tables s) = Inr ((), tables (snd (UpsertRun pt now uuid run s)))"
    using assms unfolding UpsertRun_def Let_def by (rule wrapped_exec_ok)
  ultimately show ?thesis
    by (auto simp: upsert_run_stmt_ok)
qed

lemma with_run_row:
  "lookup_by execution_key (execution_key new) (db_runs (with_run new d)) =
     Some (case lookup_by execution_key (execution_key new) (db_runs d) of None \<Rightarrow> new | Some old \<Rightarrow> merge_run old new)"
  by (simp add: with_run_def run_table.lookup_upsert)

text \<open>Every column that an upload sets, with the run and the canonical JSON it was given.\<close>

definition holds_upload :: "run \<Rightarrow> string \<Rightarrow> runs_row \<Rightarrow> bool" where
  "holds_upload run egress r \<longleftrightarrow>
     rr_egress_json r = egress \<and> rr_payload_sha256 r = run_PayloadSHA256 run \<and>
     rr_commit_sha r = run_CommitSHA run \<and> rr_branch r = run_Branch run \<and>
     rr_event_name r = run_EventName run \<and> rr_actor r = run_Actor run \<and> rr_actor_id r = run_ActorID run \<and>
     rr_pr_number r = run_PRNumber run \<and>
     rr_github_run_id r = run_GitHubRunID run \<and> rr_run_attempt r = run_RunAttempt run \<and>
     rr_workflow_name r = run_WorkflowName run \<and> rr_workflow_ref r = run_WorkflowRef run \<and>
     rr_workflow_sha r = run_WorkflowSHA run \<and>
     rr_job_workflow_ref r = run_JobWorkflowRef run \<and> rr_job_workflow_sha r = run_JobWorkflowSHA run \<and>
     rr_job_key r = run_JobKey run \<and> rr_github_job_id r = run_GitHubJobID run \<and>
     rr_job_display_name r = run_JobDisplayName run \<and>
     rr_runner_environment r = run_RunnerEnvironment run \<and> rr_runner_name r = run_RunnerName run \<and>
     rr_runner_os r = run_RunnerOS run \<and>
     rr_capture_started_at r = run_CaptureStartedAt run \<and> rr_capture_ended_at r = run_CaptureEndedAt run"

text \<open>What the server adds: what identifies a stored run, and what the enrichment found.\<close>

definition server_part ::
  "runs_row \<Rightarrow> int64 \<times> string \<times> instant \<times> string \<times> string option \<times> instant option \<times> instant option" where
  "server_part r = (rr_id r, rr_public_id r, rr_created_at r, rr_enrichment_state r, rr_job_conclusion r,
     rr_job_started_at r, rr_job_completed_at r)"

text \<open>
  C30: Uploading is an upsert per repository and execution: after a successful upload exactly one
  row has this repository and execution; every column that an upload sets holds the uploaded
  value, the payload in the canonical form of the database; if the execution was stored before,
  the row keeps its number, public id, creation time and what the enrichment found, otherwise
  it gets the next number, the fresh public id, the current time and the state pending. The rows
  of every other execution, and of every other repository, are unchanged, and so are all other
  tables.
\<close>

theorem UpsertRun_upserts:
  assumes "db_ok (tables s)" "fst (UpsertRun pt now uuid run s) = Inr ()"
    and "uuid_in pt (run_ExecutionID run) = Some execution"
  shows "\<exists>row egress. filter (\<lambda>r. execution_key r = (run_RepoID run, execution))
      (db_runs (tables (snd (UpsertRun pt now uuid run s)))) = [row] \<and>
    jsonb_in pt (if run_EgressJSON run = [] then ''{}'' else run_EgressJSON run) = Some egress \<and>
    holds_upload run egress row \<and>
    (case lookup_by execution_key (run_RepoID run, execution) (db_runs (tables s)) of
       None \<Rightarrow> server_part row = (db_next_run (tables s), uuid, now, ''pending'', None, None, None)
     | Some old \<Rightarrow> server_part row = server_part old) \<and>
    filter (\<lambda>r. execution_key r \<noteq> (run_RepoID run, execution)) (db_runs (tables (snd (UpsertRun pt now uuid run s)))) =
    filter (\<lambda>r. execution_key r \<noteq> (run_RepoID run, execution)) (db_runs (tables s)) \<and>
    (tables (snd (UpsertRun pt now uuid run s)))\<lparr>db_runs := [], db_next_run := 0\<rparr> =
    (tables s)\<lparr>db_runs := [], db_next_run := 0\<rparr>"
proof -
  let ?d = "tables s" and ?d' = "tables (snd (UpsertRun pt now uuid run s))"
  obtain egress where d': "?d' = with_run (new_run_row now uuid (db_next_run ?d) execution egress run) ?d"
    and egress: "jsonb_in pt (egress_text run) = Some egress"
    using UpsertRun_ok [OF assms(2)] assms(3) by auto
  define new where "new = new_run_row now uuid (db_next_run ?d) execution egress run"
  have key: "execution_key new = (run_RepoID run, execution)"
    by (simp add: new_def new_run_row_def execution_key_def)
  obtain row where row: "lookup_by execution_key (run_RepoID run, execution) (db_runs ?d') = Some row"
    "row = (case lookup_by execution_key (run_RepoID run, execution) (db_runs ?d) of None \<Rightarrow> new | Some old \<Rightarrow> merge_run old new)"
    using with_run_row [of new ?d] by (simp add: d' key flip: new_def)
  have "unique_by execution_key (db_runs ?d')"
    using assms(1) by (simp add: d' with_run_def run_table.unique_upsert db_ok_def runs_ok_def)
  then have "filter (\<lambda>r. execution_key r = (run_RepoID run, execution)) (db_runs ?d') = [row]"
    using row(1) by (rule filter_unique_key)
  moreover have "holds_upload run egress new" "holds_upload run egress (merge_run old new)" for old
    by (simp_all add: holds_upload_def merge_run_def new_def new_run_row_def)
  moreover have "server_part new = (db_next_run ?d, uuid, now, ''pending'', None, None, None)"
    "server_part (merge_run old new) = server_part old" for old
    by (simp_all add: server_part_def merge_run_def new_def new_run_row_def)
  ultimately show ?thesis
    using row(2) run_table.other_rows_upsert [of new "db_runs ?d"] egress
    by (intro exI [of _ row] exI [of _ egress])
       (simp add: d' with_run_def key egress_text_def flip: new_def split: option.split)
qed

definition demo_run :: run where
  "demo_run = zero_run\<lparr>run_RepoID := 7, run_RunAttempt := 1, run_ExecutionID := ''e1'', run_PayloadSHA256 := ''aa''\<rparr>"

lemma demo_db_state_ok:
  "st \<in> set enrichment_states \<Longrightarrow> db_ok (demo_db\<lparr>db_runs := [demo_row\<lparr>rr_enrichment_state := st\<rparr>]\<rparr>)"
  by (simp add: db_ok_defs demo_db_def empty_db_def demo_row_def demo_repo_row_def new_run_row_def zero_run_def
      unique_by_def has_key_def repo_row_ok_def member_row_ok_def)

lemma demo_upload:
  "fst (UpsertRun demo_types (Instant 9) ''p2'' demo_run (healthy (demo_db\<lparr>db_runs := [demo_row\<lparr>rr_enrichment_state := st\<rparr>]\<rparr>))) = Inr ()"
  "execution_key (demo_row\<lparr>rr_enrichment_state := st\<rparr>) = (7, ''e1'')"
  by (simp_all add: UpsertRun_def fst_wrap_err upsert_run_stmt_def demo_types_def demo_run_def in_int32_def demo_db_def
      demo_repo_row_def demo_row_def new_run_row_def execution_key_def zero_run_def Let_def)

theorem UpsertRun_upserts_witness:
  "\<exists>row. filter (\<lambda>r. execution_key r = (7, ''e1''))
      (db_runs (tables (snd (UpsertRun demo_types (Instant 9) ''p2'' demo_run (healthy (demo_db\<lparr>db_runs := [demo_row\<lparr>rr_enrichment_state := ''pending''\<rparr>]\<rparr>)))))) = [row] \<and>
    rr_payload_sha256 row = ''aa'' \<and> rr_public_id row = ''p1''"
proof -
  let ?d = "demo_db\<lparr>db_runs := [demo_row\<lparr>rr_enrichment_state := ''pending''\<rparr>]\<rparr>"
  have ok: "db_ok (tables (healthy ?d))"
    using demo_db_state_ok [of "''pending''"] by (simp add: enrichment_states_def)
  have r: "run_RepoID demo_run = 7" "run_PayloadSHA256 demo_run = ''aa''" "rr_public_id demo_row = ''p1''"
    "uuid_in demo_types (run_ExecutionID demo_run) = Some ''e1''"
    by (simp_all add: demo_run_def demo_types_def demo_row_def new_run_row_def)
  show ?thesis
    using UpsertRun_upserts [OF ok demo_upload(1) r(4)] r demo_upload(2) [of "''pending''"]
    by (auto simp: holds_upload_def server_part_def)
qed

text \<open>
  C38: Uploading an execution again after its run was matched with a GitHub job loses the
  enrichment for good: an upload carries no job id, so the job id of the row is gone, but the
  row stays in the state matched, and no group query will list it for enrichment again.
\<close>

theorem reupload_loses_enrichment:
  assumes "db_ok (tables s)" "fst (UpsertRun pt now uuid run s) = Inr ()" "run_GitHubJobID run = None"
    and "uuid_in pt (run_ExecutionID run) = Some execution"
    and "lookup_by execution_key (run_RepoID run, execution) (db_runs (tables s)) = Some old"
    and "rr_enrichment_state old = ''matched''"
    and "fst (ListRunsForEnrichmentGroup repoID runID attempt
           (healthy (tables (snd (UpsertRun pt now uuid run s))))) = Inr rows"
  shows "\<exists>row. lookup_by execution_key (run_RepoID run, execution)
      (db_runs (tables (snd (UpsertRun pt now uuid run s)))) = Some row \<and>
    rr_id row = rr_id old \<and> rr_github_job_id row = None \<and> rr_enrichment_state row = ''matched'' \<and>
    rr_id row \<notin> er_ID ` set rows"
proof -
  let ?d = "tables s" and ?d' = "tables (snd (UpsertRun pt now uuid run s))"
  obtain egress where d': "?d' = with_run (new_run_row now uuid (db_next_run ?d) execution egress run) ?d"
    using UpsertRun_ok [OF assms(2)] assms(4) by auto
  define new where "new = new_run_row now uuid (db_next_run ?d) execution egress run"
  have "execution_key new = (run_RepoID run, execution)" "rr_github_job_id new = None"
    using assms(3) by (simp_all add: new_def new_run_row_def execution_key_def)
  then have row: "lookup_by execution_key (run_RepoID run, execution) (db_runs ?d') = Some (merge_run old new)"
    "rr_github_job_id (merge_run old new) = None" "rr_id (merge_run old new) = rr_id old"
    "rr_enrichment_state (merge_run old new) = ''matched''"
    using with_run_row [of new ?d] assms(5,6) by (simp_all add: d' merge_run_def flip: new_def)
  have "unique_by rr_id (db_runs ?d')"
    using operations_preserve(19) [THEN preservesD, of s pt now uuid run] assms(1)
    by (simp add: db_ok_def runs_ok_def)
  then have "r = merge_run old new" if "r \<in> set (db_runs ?d')" "rr_id r = rr_id (merge_run old new)" for r
    using that unique_by_eq lookup_by_Some [OF row(1)] by metis
  then have "rr_id (merge_run old new) \<notin> er_ID ` set rows"
    using assms(7) row(4) by (auto simp: ListRunsForEnrichmentGroup_def fst_wrap_err)
  with row show ?thesis by blast
qed

theorem reupload_loses_enrichment_witness:
  "\<exists>row. lookup_by execution_key (7, ''e1'') (db_runs (tables (snd (UpsertRun demo_types (Instant 9) ''p2'' demo_run
      (healthy (demo_db\<lparr>db_runs := [demo_row\<lparr>rr_enrichment_state := ''matched''\<rparr>]\<rparr>)))))) = Some row \<and>
    rr_github_job_id row = None \<and> rr_enrichment_state row = ''matched''"
proof -
  let ?d = "demo_db\<lparr>db_runs := [demo_row\<lparr>rr_enrichment_state := ''matched''\<rparr>]\<rparr>"
  have ok: "db_ok (tables (healthy ?d))"
    using demo_db_state_ok [of "''matched''"] by (simp add: enrichment_states_def)
  have r: "run_RepoID demo_run = 7" "run_GitHubJobID demo_run = None"
    "uuid_in demo_types (run_ExecutionID demo_run) = Some ''e1''"
    by (simp_all add: demo_run_def demo_types_def zero_run_def)
  have old: "lookup_by execution_key (run_RepoID demo_run, ''e1'') (db_runs (tables (healthy ?d))) =
      Some (demo_row\<lparr>rr_enrichment_state := ''matched''\<rparr>)"
    by (simp add: r demo_upload(2))
  have st: "rr_enrichment_state (demo_row\<lparr>rr_enrichment_state := ''matched''\<rparr>) = ''matched''"
    by simp
  obtain rows where rows: "fst (ListRunsForEnrichmentGroup 7 1 1
      (healthy (tables (snd (UpsertRun demo_types (Instant 9) ''p2'' demo_run (healthy ?d)))))) = Inr rows"
    by (simp add: ListRunsForEnrichmentGroup_def fst_wrap_err)
  show ?thesis
    using reupload_loses_enrichment [OF ok demo_upload(1) r(2) r(3) old st rows] r(1) by auto
qed

lemma pending_groups_error: "fst (ListPendingEnrichmentGroups limit s) \<noteq> Inr groups"
  by (cases "fst (ListPendingEnrichmentGroups limit s)")
     (auto simp: ListPendingEnrichmentGroups_def fst_wrap_err_Inr query_iff select_distinct_def)

section \<open>Projects\<close>

lemma attempts_start: "[0..<100] = 0 # 1 # [2..<100]"
  by (simp add: upt_rec)

lemma fresh_project_member: "db_ok d \<Longrightarrow> \<not> has_key member_key (db_next_project d, uid) (db_members d)"
  by (fastforce simp: db_ok_def projects_ok_def has_key_set list_all_iff member_key_def)

text \<open>
  C35: Creating a project with no failing exchange: the new project is owned by the user when its
  slug is free; when the slug is taken, the loop that should try \<open>-2\<close> to \<open>-100\<close> gets nowhere,
  because the transaction is already aborted, and the call fails with code 25P02.
\<close>

theorem CreateProject_outcome:
  assumes "db_ok d"
  shows "fst (CreateProject now userID name (healthy d)) =
    (if has_key pj_slug (project_base name) (db_projects d)
     then Inl (Wrap ''create project'' (PgError ''25P02''))
     else if \<not> has_key us_id userID (db_users d) then Inl (Wrap ''create project'' (PgError ''23503''))
     else Inr \<lparr>prj_ID = db_next_project d, prj_CreatedBy = Some userID, prj_Role = ''owner'', prj_Name = name,
               prj_Slug = project_base name, prj_CreatedAt = now\<rparr>)"
  using fresh_project_member [OF assms, of userID] unfolding CreateProject_def attempts_start
  by (simp add: transaction_def healthy_def catch_op_def bind_op_def wrap_err_def ret_def fail_def tx_exec_def
      insert_project_stmt_def insert_owner_stmt_def project_slug_def is_unique_violation_def unique_violation_def
      foreign_key_violation_def in_failed_transaction_def project_view_def Let_def)

theorem CreateProject_outcome_witness:
  "fst (CreateProject (Instant 9) 1 ''P'' (healthy demo_db)) = Inl (Wrap ''create project'' (PgError ''25P02''))"
proof -
  have "project_base ''P'' = ''p''"
    by code_simp
  then show ?thesis
    using CreateProject_outcome [OF demo_db_ok, of "Instant 9" 1 "''P''"] by (simp add: demo_db_def)
qed

text \<open>A slug has only lower-case letters, digits and single dashes between them.\<close>

fun dashes_single :: "string \<Rightarrow> bool" where
  "dashes_single (c # d # s) = (\<not> (c = CHR ''-'' \<and> d = CHR ''-'') \<and> dashes_single (d # s))"
| "dashes_single s = True"

lemma dashes_single_iff: "dashes_single s \<longleftrightarrow> (\<forall>u v. s \<noteq> u @ ''--'' @ v)"
proof (induction s rule: dashes_single.induct)
  case (1 c d s)
  then show ?case
    by (auto simp: Cons_eq_append_conv)
qed (auto simp: Cons_eq_append_conv)

lemma slugSanitizer_chars: "c \<in> set (slugSanitizer b s) \<Longrightarrow> is_slug_char c \<or> c = CHR ''-''"
  by (induction b s rule: slugSanitizer.induct) (auto split: if_splits)

lemma slug_char_dash: "\<not> is_slug_char (CHR ''-'')"
  by (simp add: is_slug_char_def is_lower_def is_digit_def)

lemma slugSanitizer_single:
  "dashes_single (slugSanitizer b s) \<and> (b \<longrightarrow> (\<forall>t. slugSanitizer b s \<noteq> CHR ''-'' # t))"
proof (induction b s rule: slugSanitizer.induct)
  case (2 b c s)
  then show ?case
    using slug_char_dash
    by (cases "slugSanitizer False s"; cases "slugSanitizer True s") (auto split: if_splits)
qed simp

lemma TrimBoth_decompose: "\<exists>u v. s = u @ TrimBoth s c @ v \<and> set u \<subseteq> {c} \<and> set v \<subseteq> {c}"
proof -
  let ?t = "dropWhile (\<lambda>x. x = c) s"
  have "?t = TrimRight ?t c @ rev (takeWhile (\<lambda>x. x = c) (rev ?t))"
    unfolding TrimRight_def by (metis rev_append rev_rev_ident takeWhile_dropWhile_id)
  then have "s = takeWhile (\<lambda>x. x = c) s @ TrimBoth s c @ rev (takeWhile (\<lambda>x. x = c) (rev ?t))"
    unfolding TrimBoth_def by (metis takeWhile_dropWhile_id)
  moreover have "set (takeWhile (\<lambda>x. x = c) s) \<subseteq> {c}" "set (rev (takeWhile (\<lambda>x. x = c) (rev ?t))) \<subseteq> {c}"
    by (auto dest: set_takeWhileD)
  ultimately show ?thesis by blast
qed

lemma TrimBoth_ends: "TrimBoth s c = x # t \<Longrightarrow> x \<noteq> c" "TrimBoth s c = t @ [x] \<Longrightarrow> x \<noteq> c"
proof -
  assume "TrimBoth s c = t @ [x]"
  then have "dropWhile (\<lambda>x. x = c) (rev (dropWhile (\<lambda>x. x = c) s)) = x # rev t"
    unfolding TrimBoth_def TrimRight_def by (metis rev.simps(2) rev_append rev_rev_ident append_Cons append_Nil)
  then show "x \<noteq> c" by (simp add: dropWhile_eq_Cons_conv)
next
  let ?u = "dropWhile (\<lambda>x. x = c) s"
  assume a: "TrimBoth s c = x # t"
  have "?u = TrimRight ?u c @ rev (takeWhile (\<lambda>x. x = c) (rev ?u))"
    unfolding TrimRight_def by (metis rev_append rev_rev_ident takeWhile_dropWhile_id)
  then obtain w where "?u = x # w"
    using a unfolding TrimBoth_def by (metis append_Cons)
  then show "x \<noteq> c" by (simp add: dropWhile_eq_Cons_conv)
qed

text \<open>
  Slugs are clean: the slug of any name consists of lower-case letters, digits and dashes, it
  neither begins nor ends with a dash, and no two dashes follow each other.
\<close>

theorem slugify_clean:
  "set (slugify name) \<subseteq> {c. is_lower c \<or> is_digit c \<or> c = CHR ''-''}
   \<and> (\<nexists>s. slugify name = CHR ''-'' # s) \<and> (\<nexists>s. slugify name = s @ ''-'')
   \<and> (\<nexists>u v. slugify name = u @ ''--'' @ v)"
proof -
  let ?s = "slugSanitizer False (ToLower (TrimSpace name))"
  obtain u v where uv: "?s = u @ slugify name @ v"
    using TrimBoth_decompose [of ?s "CHR ''-''"] unfolding slugify_def by blast
  then have "c \<in> set (slugify name) \<Longrightarrow> c \<in> set ?s" for c by simp
  then have "c \<in> set (slugify name) \<Longrightarrow> is_lower c \<or> is_digit c \<or> c = CHR ''-''" for c
    using slugSanitizer_chars by (auto simp: is_slug_char_def)
  moreover have "slugify name \<noteq> a @ ''--'' @ b" for a b
  proof
    assume "slugify name = a @ ''--'' @ b"
    then have "?s = (u @ a) @ ''--'' @ (b @ v)" using uv by simp
    then show False
      using slugSanitizer_single [of False "ToLower (TrimSpace name)"] unfolding dashes_single_iff by blast
  qed
  moreover have "slugify name \<noteq> CHR ''-'' # s" "slugify name \<noteq> s @ ''-''" for s
    unfolding slugify_def using TrimBoth_ends [of ?s "CHR ''-''"] by blast+
  ultimately show ?thesis by blast
qed

section \<open>Replacing a user's repositories\<close>

definition access_rows :: "int64 \<Rightarrow> userRepoAccessRow list \<Rightarrow> access_row list" where
  "access_rows userID rows =
     map (\<lambda>r. \<lparr>ac_user_id = userID, ac_repo_id = ura_RepoID r, ac_installation_id = ura_InstallationID r\<rparr>) rows"

lemma insert_access_loop:
  "for_each (\<lambda>row. wrap_err msg (tx_exec (insert_access_stmt userID row))) rows x = (Inr (), x') \<Longrightarrow>
   work x' = (work x)\<lparr>db_access := db_access (work x) @ access_rows userID rows\<rparr>"
proof (induction rows arbitrary: x)
  case Nil
  then show ?case by (simp add: access_rows_def)
next
  case (Cons row rows)
  then obtain x1 where x1: "wrap_err msg (tx_exec (insert_access_stmt userID row)) x = (Inr (), x1)"
    "for_each (\<lambda>row. wrap_err msg (tx_exec (insert_access_stmt userID row))) rows x1 = (Inr (), x')"
    by (auto split: prod.splits sum.splits)
  then have "insert_access_stmt userID row (work x) = Inr ((), work x1)"
    by (auto simp: wrap_err_ok dest: tx_exec_ok)
  then have "work x1 = (work x)\<lparr>db_access := db_access (work x) @ access_rows userID [row]\<rparr>"
    by (auto simp: insert_access_stmt_def access_rows_def split: if_splits)
  with Cons.IH [OF x1(2)] show ?case
    by (simp add: access_rows_def)
qed

text \<open>
  Replacing the repositories that a user may bind is atomic: whatever fails, at whatever row,
  the tables afterwards are the old ones, or the user's rows are exactly the new ones and all
  else is unchanged; when the call reports success it is the latter.
\<close>

theorem ReplaceUserRepoAccess_atomic:
  "let t = tables s; op = ReplaceUserRepoAccess userID rows s;
       t' = t\<lparr>db_access := filter (\<lambda>r. ac_user_id r \<noteq> userID) (db_access t) @ access_rows userID rows\<rparr>
   in tables (snd op) \<in> {t, t'} \<and> (is_ok (fst op) \<longrightarrow> tables (snd op) = t')"
proof -
  define body where "body = bind_op (wrap_err ''clear user repo access'' (tx_exec (clear_access_stmt userID)))
    (\<lambda>_. for_each (\<lambda>row. wrap_err ''insert user repo access'' (tx_exec (insert_access_stmt userID row))) rows)"
  have op: "ReplaceUserRepoAccess userID rows =
      transaction ''begin replace user repo access'' ''commit replace user repo access'' body"
    by (simp add: ReplaceUserRepoAccess_def body_def)
  have finished: "work x = (tables s)\<lparr>db_access := filter (\<lambda>r. ac_user_id r \<noteq> userID) (db_access (tables s)) @ access_rows userID rows\<rparr>"
    if "body_result body s = (Inr (), x)" for x
  proof -
    let ?x0 = "\<lparr>work = tables s, aborted = False, tx_coming = snd (next_fate (coming s))\<rparr>"
    from that obtain x1 where x1: "tx_exec (clear_access_stmt userID) ?x0 = (Inr (), x1)"
      "for_each (\<lambda>row. wrap_err ''insert user repo access'' (tx_exec (insert_access_stmt userID row))) rows x1 = (Inr (), x)"
      by (auto simp: body_result_def body_def bind_op_ok wrap_err_ok)
    from tx_exec_ok [OF x1(1)] have "work x1 = (tables s)\<lparr>db_access := filter (\<lambda>r. ac_user_id r \<noteq> userID) (db_access (tables s))\<rparr>"
      by (simp add: clear_access_stmt_def delete_where_def)
    with insert_access_loop [OF x1(2)] show ?thesis by simp
  qed
  show ?thesis
    using transaction_atomic [of "''begin replace user repo access''" "''commit replace user repo access''" body s]
      transaction_ok [of "''begin replace user repo access''" "''commit replace user repo access''" body s "()"] finished
    by (cases "ReplaceUserRepoAccess userID rows s"; cases "fst (ReplaceUserRepoAccess userID rows s)")
       (auto simp: op Let_def)
qed

theorem ReplaceUserRepoAccess_atomic_witness:
  "db_access (tables (snd (ReplaceUserRepoAccess 1 [\<lparr>ura_RepoID = 7, ura_InstallationID = 2\<rparr>] (healthy demo_db)))) =
     [\<lparr>ac_user_id = 1, ac_repo_id = 7, ac_installation_id = 2\<rparr>]"
proof -
  have "is_ok (fst (ReplaceUserRepoAccess 1 [\<lparr>ura_RepoID = 7, ura_InstallationID = 2\<rparr>] (healthy demo_db)))"
    by (simp add: ReplaceUserRepoAccess_def transaction_def healthy_def bind_op_def wrap_err_def tx_exec_def
        clear_access_stmt_def insert_access_stmt_def delete_where_def demo_db_def empty_db_def)
  with ReplaceUserRepoAccess_atomic [where s = "healthy demo_db" and userID = 1
      and rows = "[\<lparr>ura_RepoID = 7, ura_InstallationID = 2\<rparr>]"]
  show ?thesis by (simp add: Let_def access_rows_def demo_db_def empty_db_def)
qed

section \<open>Sessions\<close>

text \<open>
  The life of a session: after a successful creation the token gives the user it was made for
  until its expiry and nobody from then on; after a successful deletion it gives nobody; and
  neither changes what any other token gives.
\<close>

theorem session_lifecycle:
  "(fst (CreateSession userID token expiresAt s) = Inr () \<longrightarrow>
      session_user now token (tables (snd (CreateSession userID token expiresAt s))) =
        (if now < expiresAt then map_option (user_view (tables s)) (lookup_by us_id userID (db_users (tables s))) else None) \<and>
      (other \<noteq> token \<longrightarrow> session_user now other (tables (snd (CreateSession userID token expiresAt s))) =
         session_user now other (tables s))) \<and>
    (fst (DeleteSession token s) = Inr () \<longrightarrow>
      session_user now token (tables (snd (DeleteSession token s))) = None \<and>
      (other \<noteq> token \<longrightarrow> session_user now other (tables (snd (DeleteSession token s))) =
         session_user now other (tables s)))"
proof -
  have view [simp]: "user_view (d\<lparr>db_sessions := ss\<rparr>) = user_view d" for d ss
    by (simp add: user_view_def fun_eq_iff)
  have "tables (snd (CreateSession userID token expiresAt s)) = (tables s)\<lparr>db_sessions := db_sessions (tables s) @
      [\<lparr>se_token = token, se_user_id = userID, se_expires_at = expiresAt\<rparr>]\<rparr> \<and> \<not> has_key se_token token (db_sessions (tables s))"
    if "fst (CreateSession userID token expiresAt s) = Inr ()"
    using wrapped_exec_ok [OF that [unfolded CreateSession_def]]
    by (auto simp: create_session_stmt_def CreateSession_def split: if_splits)
  moreover have "find (\<lambda>x. se_token x = token \<and> now < se_expires_at x) (db_sessions (tables s)) = None"
    if "\<not> has_key se_token token (db_sessions (tables s))"
    using that by (intro find_none) (auto simp: has_key_set)
  ultimately have "fst (CreateSession userID token expiresAt s) = Inr () \<longrightarrow>
      session_user now token (tables (snd (CreateSession userID token expiresAt s))) =
        (if now < expiresAt then map_option (user_view (tables s)) (lookup_by us_id userID (db_users (tables s))) else None) \<and>
      (other \<noteq> token \<longrightarrow> session_user now other (tables (snd (CreateSession userID token expiresAt s))) =
         session_user now other (tables s))"
    by (auto simp: session_user_def find_append split: option.split)
  moreover have deleted: "tables (snd (DeleteSession token s)) = (tables s)\<lparr>db_sessions :=
      filter (\<lambda>x. se_token x \<noteq> token) (db_sessions (tables s))\<rparr>" if "fst (DeleteSession token s) = Inr ()"
    using wrapped_exec_ok [OF that [unfolded DeleteSession_def]]
    by (simp add: delete_session_stmt_def delete_where_def DeleteSession_def)
  have gone: "find (\<lambda>x. se_token x = token \<and> now < se_expires_at x) (filter (\<lambda>x. se_token x \<noteq> token) ss) = None" for ss
    by (rule find_none) auto
  have kept: "find (\<lambda>x. se_token x = other \<and> now < se_expires_at x) (filter (\<lambda>x. se_token x \<noteq> token) ss) =
      find (\<lambda>x. se_token x = other \<and> now < se_expires_at x) ss" if "other \<noteq> token" for ss
    by (rule find_filter) (use that in auto)
  have "fst (DeleteSession token s) = Inr () \<longrightarrow>
      session_user now token (tables (snd (DeleteSession token s))) = None \<and>
      (other \<noteq> token \<longrightarrow> session_user now other (tables (snd (DeleteSession token s))) =
         session_user now other (tables s))"
    by (simp add: deleted session_user_def gone kept split: option.split)
  ultimately show ?thesis by blast
qed

theorem session_lifecycle_witness:
  "session_user (Instant 5) ''t'' (tables (snd (CreateSession 1 ''t'' (Instant 9) (healthy demo_db)))) \<noteq> None \<and>
   session_user (Instant 9) ''t'' (tables (snd (CreateSession 1 ''t'' (Instant 9) (healthy demo_db)))) = None"
proof -
  have "fst (CreateSession 1 ''t'' (Instant 9) (healthy demo_db)) = Inr ()"
    by (simp add: CreateSession_def fst_wrap_err create_session_stmt_def demo_db_def empty_db_def)
  moreover have "lookup_by us_id 1 (db_users demo_db) \<noteq> None"
    by (simp add: demo_db_def)
  ultimately show ?thesis
    using session_lifecycle [of 1 "''t''" "Instant 9" "healthy demo_db" "Instant 5" "''u''"]
      session_lifecycle [of 1 "''t''" "Instant 9" "healthy demo_db" "Instant 9" "''u''"]
    by (auto simp: less_instant_def)
qed

end
