(* ===== verification/Key_Parsing.thy ===== *)
theory Key_Parsing
  imports Go_Strings
begin

text \<open>
  Reading the private key of the GitHub App. \<open>runsauth/tokens.go\<close> and \<open>githubapp/client.go\<close> have a
  function of the same name each, which differ in their error messages only. PEM and X.509 are
  library calls, collected in \<open>key_reader\<close>: \<open>pem.Decode\<close> gives the bytes of the first block,
  \<open>x509.ParsePKCS1PrivateKey\<close> an RSA key, and \<open>x509.ParsePKCS8PrivateKey\<close> a private key of some
  kind, which is \<open>Some\<close> for an RSA key.
\<close>

record ('b, 'sk) key_reader =
  pem_Decode :: "string \<Rightarrow> 'b option"
  ParsePKCS1 :: "'b \<Rightarrow> 'sk result"
  ParsePKCS8 :: "'b \<Rightarrow> 'sk option result"

definition parseRSAPrivateKey :: "('b, 'sk) key_reader \<Rightarrow> string \<Rightarrow> 'sk result" where
  "parseRSAPrivateKey rd raw =
     (let key = TrimSpace (unescape_newlines raw) in
      if key = [] then Inl (NewError ''github app private key is required'')
      else (case pem_Decode rd key of
              None \<Rightarrow> Inl (NewError ''github app private key must be PEM encoded'')
            | Some block \<Rightarrow>
                (case ParsePKCS1 rd block of
                   Inr pkcs1 \<Rightarrow> Inr pkcs1
                 | Inl _ \<Rightarrow>
                     (case ParsePKCS8 rd block of
                        Inl e \<Rightarrow> Inl (Wrap ''parse github app private key'' e)
                      | Inr None \<Rightarrow> Inl (NewError ''github app private key must be an RSA private key'')
                      | Inr (Some rsaKey) \<Rightarrow> Inr rsaKey))))"

definition parseAppPrivateKey :: "('b, 'sk) key_reader \<Rightarrow> string \<Rightarrow> 'sk result" where
  "parseAppPrivateKey rd raw =
     (let key = TrimSpace (unescape_newlines raw) in
      if key = [] then Inl (NewError ''github app private key is required'')
      else (case pem_Decode rd key of
              None \<Rightarrow> Inl (NewError ''github app private key must be PEM encoded'')
            | Some block \<Rightarrow>
                (case ParsePKCS1 rd block of
                   Inr pkcs1 \<Rightarrow> Inr pkcs1
                 | Inl _ \<Rightarrow>
                     (case ParsePKCS8 rd block of
                        Inl e \<Rightarrow> Inl e
                      | Inr None \<Rightarrow> Inl (NewError ''github app private key must be RSA'')
                      | Inr (Some rsaKey) \<Rightarrow> Inr rsaKey))))"

text \<open>The token manager and the GitHub client accept the same keys and read the same key from them.\<close>

lemma same_keys_accepted: "parseRSAPrivateKey rd raw = Inr k \<longleftrightarrow> parseAppPrivateKey rd raw = Inr k"
  by (auto simp: parseRSAPrivateKey_def parseAppPrivateKey_def Let_def split: option.splits sum.splits)

end
