(* ===== verification/Base64.thy ===== *)
theory Base64
  imports Go_Strings
begin

text \<open>
  \<open>base64.RawURLEncoding\<close> of Go's standard library, which the server uses for session tokens
  (encoding) and for the numbers of a JSON web key (decoding): the URL alphabet, no padding,
  line breaks ignored when decoding and unused trailing bits not checked. Bytes are numbers
  below 256.
\<close>

definition b64_char :: "nat \<Rightarrow> char" where
  "b64_char v =
     (if v < 26 then char_of (65 + v) else if v < 52 then char_of (71 + v)
      else if v < 62 then char_of (v - 4) else if v = 62 then CHR ''-'' else CHR ''_'')"

definition b64_val :: "char \<Rightarrow> nat option" where
  "b64_val c =
     (if is_upper c then Some (of_char c - 65)
      else if is_lower c then Some (of_char c - 71)
      else if is_digit c then Some (of_char c + 4)
      else if c = CHR ''-'' then Some 62
      else if c = CHR ''_'' then Some 63
      else None)"

lemma b64_val_char: "v < 64 \<Longrightarrow> b64_val (b64_char v) = Some v"
  by (auto simp: b64_val_def b64_char_def is_upper_def is_lower_def is_digit_def)

fun b64_sextets :: "nat list \<Rightarrow> nat list" where
  "b64_sextets [] = []"
| "b64_sextets [a] = [a div 4, a mod 4 * 16]"
| "b64_sextets [a, b] = [a div 4, a mod 4 * 16 + b div 16, b mod 16 * 4]"
| "b64_sextets (a # b # c # r) =
     a div 4 # (a mod 4 * 16 + b div 16) # (b mod 16 * 4 + c div 64) # c mod 64 # b64_sextets r"

definition RawURLEncode :: "nat list \<Rightarrow> string" where
  "RawURLEncode bs = map b64_char (b64_sextets bs)"

fun b64_bytes :: "nat list \<Rightarrow> nat list option" where
  "b64_bytes [] = Some []"
| "b64_bytes [a] = None"
| "b64_bytes [a, b] = Some [(a * 64 + b) div 16]"
| "b64_bytes [a, b, c] = Some [(a * 4096 + b * 64 + c) div 1024, (a * 4096 + b * 64 + c) div 4 mod 256]"
| "b64_bytes (a # b # c # d # r) =
     (let v = a * 262144 + b * 4096 + c * 64 + d
      in map_option (\<lambda>bs. v div 65536 # v div 256 mod 256 # v mod 256 # bs) (b64_bytes r))"

fun all_some :: "'a option list \<Rightarrow> 'a list option" where
  "all_some [] = Some []"
| "all_some (None # xs) = None"
| "all_some (Some x # xs) = map_option ((#) x) (all_some xs)"

definition RawURLDecode :: "string \<Rightarrow> nat list option" where
  "RawURLDecode s =
     Option.bind (all_some (map b64_val (filter (\<lambda>c. c \<noteq> CHR 0x0A \<and> c \<noteq> CHR 0x0D) s))) b64_bytes"

lemma all_some_map_Some: "(\<And>x. x \<in> set xs \<Longrightarrow> f (g x) = Some x) \<Longrightarrow> all_some (map f (map g xs)) = Some xs"
  by (induction xs) auto

lemma sextet_bounds:
  fixes a b :: nat
  shows "a < 256 \<Longrightarrow> a div 4 < 64" "a mod 4 * 16 < 64" "b < 256 \<Longrightarrow> a mod 4 * 16 + b div 16 < 64"
    "b mod 16 * 4 < 64" "a < 256 \<Longrightarrow> b mod 16 * 4 + a div 64 < 64" "a mod 64 < 64"
proof -
  have m: "a mod 4 < 4" "b mod 16 < 16" by simp_all
  have d: "b < 256 \<Longrightarrow> b div 16 < 16" "a < 256 \<Longrightarrow> a div 64 < 4" by (simp_all add: less_mult_imp_div_less)
  show "a < 256 \<Longrightarrow> a div 4 < 64" by (simp add: less_mult_imp_div_less)
  show "a mod 4 * 16 < 64" "b mod 16 * 4 < 64" using m by linarith+
  show "b < 256 \<Longrightarrow> a mod 4 * 16 + b div 16 < 64" using m d by linarith
  show "a < 256 \<Longrightarrow> b mod 16 * 4 + a div 64 < 64" using m d by linarith
  show "a mod 64 < 64" by simp
qed

lemma b64_sextets_bound: "\<forall>b \<in> set bs. b < 256 \<Longrightarrow> v \<in> set (b64_sextets bs) \<Longrightarrow> v < 64"
  by (induction bs rule: b64_sextets.induct) (auto intro: sextet_bounds)

lemma b64_char_no_break: "v < 64 \<Longrightarrow> b64_char v \<noteq> CHR 0x0A \<and> b64_char v \<noteq> CHR 0x0D"
  using b64_val_char [of v] by (auto simp: b64_val_def is_upper_def is_lower_def is_digit_def)

lemma sextets_joined:
  fixes a b c :: nat
  shows "a div 4 * 64 + a mod 4 * 16 = 16 * a"
    and "a div 4 * 4096 + (a mod 4 * 16 + b div 16) * 64 + b mod 16 * 4 = 1024 * a + 4 * b"
    and "a div 4 * 262144 + (a mod 4 * 16 + b div 16) * 4096 + (b mod 16 * 4 + c div 64) * 64 + c mod 64
      = 65536 * a + (256 * b + c)"
proof -
  have joined: "p * 64 + q * 16 = 16 * (p * 4 + q)"
    "p * 4096 + (q * 16 + r) * 64 + t * 4 = 1024 * (p * 4 + q) + 4 * (r * 16 + t)"
    "p * 262144 + (q * 16 + r) * 4096 + (t * 4 + u) * 64 + w
      = 65536 * (p * 4 + q) + (256 * (r * 16 + t) + (u * 64 + w))" for p q r t u w :: nat
    by (simp_all add: algebra_simps)
  show "a div 4 * 64 + a mod 4 * 16 = 16 * a"
    and "a div 4 * 4096 + (a mod 4 * 16 + b div 16) * 64 + b mod 16 * 4 = 1024 * a + 4 * b"
    and "a div 4 * 262144 + (a mod 4 * 16 + b div 16) * 4096 + (b mod 16 * 4 + c div 64) * 64 + c mod 64
      = 65536 * a + (256 * b + c)"
    by (simp_all only: joined div_mult_mod_eq)
qed

lemma bytes_split:
  fixes a b c :: nat
  assumes "b < 256" and "c < 256"
  shows "(65536 * a + (256 * b + c)) div 65536 = a"
    and "(65536 * a + (256 * b + c)) div 256 mod 256 = b"
    and "(65536 * a + (256 * b + c)) mod 256 = c"
    and "(1024 * a + 4 * b) div 1024 = a" and "(1024 * a + 4 * b) div 4 mod 256 = b"
proof -
  show "(65536 * a + (256 * b + c)) div 65536 = a" using assms by simp
  have "(65536 * a + (256 * b + c)) div 256 = 256 * a + b"
    using assms by simp
  then show "(65536 * a + (256 * b + c)) div 256 mod 256 = b" using assms by simp
  have "65536 * a + (256 * b + c) = (256 * a + b) * 256 + c" by simp
  then show "(65536 * a + (256 * b + c)) mod 256 = c" using assms by (metis mod_mult_self3 mod_less)
  show "(1024 * a + 4 * b) div 1024 = a" using assms by simp
  have "(1024 * a + 4 * b) div 4 = 256 * a + b" by simp
  then show "(1024 * a + 4 * b) div 4 mod 256 = b" using assms by simp
qed

lemma b64_bytes_sextets: "\<forall>b \<in> set bs. b < 256 \<Longrightarrow> b64_bytes (b64_sextets bs) = Some bs"
proof (induction bs rule: b64_sextets.induct)
  case (3 a b)
  then show ?case
    using bytes_split(4,5) [of b 0 a]
    by (simp only: b64_sextets.simps b64_bytes.simps sextets_joined) simp
next
  case (4 a b c r)
  then show ?case
    using bytes_split(1-3) [of b c a]
    by (simp only: b64_sextets.simps b64_bytes.simps sextets_joined Let_def) simp
qed (simp_all add: sextets_joined)

lemma RawURLDecode_Encode:
  assumes "\<forall>b \<in> set bs. b < 256"
  shows "RawURLDecode (RawURLEncode bs) = Some bs"
proof -
  have bound: "v < 64" if "v \<in> set (b64_sextets bs)" for v
    using b64_sextets_bound [OF assms that] .
  then have "filter (\<lambda>c. c \<noteq> CHR 0x0A \<and> c \<noteq> CHR 0x0D) (RawURLEncode bs) = RawURLEncode bs"
    using b64_char_no_break by (auto simp: RawURLEncode_def filter_id_conv)
  moreover have "all_some (map b64_val (RawURLEncode bs)) = Some (b64_sextets bs)"
    unfolding RawURLEncode_def using bound b64_val_char by (intro all_some_map_Some) blast
  ultimately show ?thesis
    using b64_bytes_sextets [OF assms] by (simp add: RawURLDecode_def)
qed

lemma length_RawURLEncode: "length (RawURLEncode bs) = (4 * length bs + 2) div 3"
proof -
  have "length (b64_sextets bs) = (4 * length bs + 2) div 3"
    by (induction bs rule: b64_sextets.induct) simp_all
  then show ?thesis by (simp add: RawURLEncode_def)
qed

text \<open>\<open>big.Int.SetBytes\<close>: the big-endian number.\<close>

definition big_endian :: "nat list \<Rightarrow> nat" where
  "big_endian bs = foldl (\<lambda>n b. n * 256 + b) 0 bs"

end
