(* ===== verification/Go_Url.thy ===== *)
theory Go_Url
  imports Go_Strings Base64
begin

text \<open>
  Of Go's \<open>net/url\<close> and \<open>encoding/base64\<close>: percent-encoding of query values and of path segments,
  the encoding of a form, and the padded standard base64 decoding.
\<close>

section \<open>Percent-encoding\<close>

definition hex_digit :: "nat \<Rightarrow> char" where
  "hex_digit n = (if n < 10 then char_of (48 + n) else char_of (55 + n))"

definition hex_value :: "char \<Rightarrow> nat option" where
  "hex_value c =
     (let v = of_char c :: nat
      in if is_digit c then Some (v - 48)
         else if 65 \<le> v \<and> v \<le> 70 then Some (v - 55)
         else if 97 \<le> v \<and> v \<le> 102 then Some (v - 87) else None)"

definition percent :: "char \<Rightarrow> string" where
  "percent c = [CHR ''%'', hex_digit (of_char c div 16), hex_digit (of_char c mod 16)]"

definition unreserved :: "char \<Rightarrow> bool" where
  "unreserved c \<longleftrightarrow> is_lower c \<or> is_upper c \<or> is_digit c \<or> c \<in> set ''-_.~''"

definition query_char :: "char \<Rightarrow> string" where
  "query_char c = (if unreserved c then [c] else if c = CHR '' '' then ''+'' else percent c)"

definition path_char :: "char \<Rightarrow> string" where
  "path_char c = (if unreserved c \<or> c \<in> set ''$&+=:@'' then [c] else percent c)"

definition QueryEscape :: "string \<Rightarrow> string" where
  "QueryEscape s = concat (map query_char s)"

definition PathEscape :: "string \<Rightarrow> string" where
  "PathEscape s = concat (map path_char s)"

text \<open>What a server reads from an escaped query value.\<close>

fun QueryUnescape :: "string \<Rightarrow> string option" where
  "QueryUnescape [] = Some []"
| "QueryUnescape (c # s) =
     (if c = CHR ''%''
      then (case s of
              a # b # r \<Rightarrow>
                (case (hex_value a, hex_value b) of
                   (Some x, Some y) \<Rightarrow> map_option ((#) (char_of (16 * x + y))) (QueryUnescape r)
                 | _ \<Rightarrow> None)
            | _ \<Rightarrow> None)
      else map_option ((#) (if c = CHR ''+'' then CHR '' '' else c)) (QueryUnescape s))"

text \<open>\<open>url.Values.Encode\<close> for keys that are already in order.\<close>

fun encode_form :: "(string \<times> string) list \<Rightarrow> string" where
  "encode_form [] = []"
| "encode_form [(k, v)] = QueryEscape k @ ''='' @ QueryEscape v"
| "encode_form ((k, v) # rest) = QueryEscape k @ ''='' @ QueryEscape v @ ''&'' @ encode_form rest"

lemma hex_value_digit: "n < 16 \<Longrightarrow> hex_value (hex_digit n) = Some n"
  by (auto simp: hex_value_def hex_digit_def is_digit_def Let_def)

lemma hex_digit_graphic: "n < 16 \<Longrightarrow> is_digit (hex_digit n) \<or> is_upper (hex_digit n)"
  by (auto simp: hex_digit_def is_digit_def is_upper_def)

lemma char_nibbles: "char_of (16 * (of_char c div 16) + of_char c mod 16 :: nat) = c"
proof -
  have "16 * (of_char c div 16) + of_char c mod 16 = (of_char c :: nat)"
    by (rule mult_div_mod_eq)
  then show ?thesis by (simp only: char_of_char)
qed

lemma nibbles_bound: "of_char c div 16 < (16 :: nat)" "of_char c mod 16 < (16 :: nat)"
  using nat_of_char_less_256 [of c] by (simp_all add: less_mult_imp_div_less)

lemma unescape_query_char: "QueryUnescape (query_char c @ s) = map_option ((#) c) (QueryUnescape s)"
proof (cases "unreserved c")
  case True
  then have "c \<noteq> CHR ''%''" "c \<noteq> CHR ''+''"
    by (auto simp: unreserved_def is_lower_def is_upper_def is_digit_def)
  with True show ?thesis by (simp add: query_char_def)
next
  case False
  then show ?thesis
    by (simp add: query_char_def percent_def hex_value_digit nibbles_bound char_nibbles)
qed

lemma QueryUnescape_Escape: "QueryUnescape (QueryEscape s) = Some s"
  by (induction s) (simp_all add: QueryEscape_def unescape_query_char)

lemma path_char_safe: "d \<in> set (path_char c) \<Longrightarrow> unreserved d \<or> d \<in> set ''$&+=:@%''"
  using hex_digit_graphic [OF nibbles_bound(1) [of c]] hex_digit_graphic [OF nibbles_bound(2) [of c]]
  by (auto simp: path_char_def percent_def unreserved_def split: if_splits)

lemma PathEscape_no_separator: "CHR ''/'' \<notin> set (PathEscape s)" "CHR ''?'' \<notin> set (PathEscape s)"
  "CHR ''#'' \<notin> set (PathEscape s)"
proof -
  have "\<not> (unreserved d \<or> d \<in> set ''$&+=:@%'')" if "d \<in> set ''/?#''" for d
    using that by (auto simp: unreserved_def is_lower_def is_upper_def is_digit_def)
  then show "CHR ''/'' \<notin> set (PathEscape s)" "CHR ''?'' \<notin> set (PathEscape s)" "CHR ''#'' \<notin> set (PathEscape s)"
    using path_char_safe by (fastforce simp: PathEscape_def)+
qed

section \<open>Standard base64\<close>

definition std_val :: "char \<Rightarrow> nat option" where
  "std_val c =
     (if c = CHR ''+'' then Some 62 else if c = CHR ''/'' then Some 63
      else if c = CHR ''-'' \<or> c = CHR ''_'' then None else b64_val c)"

text \<open>\<open>base64.StdEncoding.DecodeString\<close>: line breaks are ignored, the length is padded to four.\<close>

definition StdDecode :: "string \<Rightarrow> nat list option" where
  "StdDecode s =
     (let t = filter (\<lambda>c. c \<noteq> CHR 0x0A \<and> c \<noteq> CHR 0x0D) s;
          core = TrimRight t (CHR ''='')
      in if length t mod 4 \<noteq> 0 \<or> 2 < length t - length core then None
         else Option.bind (all_some (map std_val core)) b64_bytes)"

end
