(* ===== verification/GitHub_App.thy ===== *)
theory GitHub_App
  imports Key_Parsing Go_Url Go_Time Types "HOL-Library.AList"
begin

text \<open>
  \<open>server/internal/githubapp/client.go\<close>: the client of GitHub's HTTP interface. The network is a
  log of the requests sent and the list of the answers still to come (an empty list answers
  with a transport error; building a request for these addresses cannot fail), so every number and order of answers and failures is covered and
  every paging loop ends. JSON decoding, signing and the AEAD cipher are parameters. A query for
  one page with all its answers is one clock reading \<open>now\<close>; \<open>tokenFromResponse\<close> and the token
  cache compute with it.
\<close>

section \<open>The network\<close>

record request =
  rq_method :: string
  rq_url :: string
  rq_auth :: "string option"
  rq_etag :: "string option"
  rq_body :: string

record response =
  re_status :: int
  re_etag :: string
  re_body :: string

datatype answer =
    NoAnswer string
  | Answer response

record net =
  nt_sent :: "request list"
  nt_answers :: "answer list"

definition http_Do :: "request \<Rightarrow> net \<Rightarrow> response result \<times> net" where
  "http_Do rq n =
     (case nt_answers n of
        [] \<Rightarrow> (Inl (External ''connection refused''), n\<lparr>nt_sent := nt_sent n @ [rq]\<rparr>)
      | NoAnswer m # as \<Rightarrow> (Inl (External m), \<lparr>nt_sent = nt_sent n @ [rq], nt_answers = as\<rparr>)
      | Answer re # as \<Rightarrow> (Inr re, \<lparr>nt_sent = nt_sent n @ [rq], nt_answers = as\<rparr>))"

lemma http_Do_consumes: "http_Do rq n = (Inr re, n') \<Longrightarrow> length (nt_answers n') < length (nt_answers n)"
  by (auto simp: http_Do_def split: list.splits answer.splits)

section \<open>Data\<close>

record installationLite =
  il_ID :: int64
  il_AccountID :: int64
  il_AccountLogin :: string
  il_AccountType :: string
  il_RepositorySelection :: string

record repoLite =
  rl_RepoID :: int64
  rl_FullName :: string
  rl_Owner :: string
  rl_OwnerID :: int64
  rl_Visibility :: string

record runJob =
  rj_ID :: int64
  rj_Name :: string
  rj_RunnerName :: string
  rj_Conclusion :: string
  rj_StartedAt :: "instant option"
  rj_CompletedAt :: "instant option"

record userToken =
  ut_AccessToken :: string
  ut_AccessTokenExpiresAt :: "instant option"
  ut_RefreshToken :: string
  ut_RefreshTokenExpiresAt :: "instant option"

record tokenResponse =
  tr_AccessToken :: string
  tr_RefreshToken :: string
  tr_ExpiresIn :: int64
  tr_RefreshTokenExpiresIn :: int64

record cachedInstallationToken =
  ct_Token :: string
  ct_ExpiresAt :: instant

text \<open>An installation as GitHub reports it; the client changes the account type on reading.\<close>

record installation_item =
  ii_ID :: int64
  ii_RepositorySelection :: string
  ii_AccountID :: int64
  ii_AccountLogin :: string
  ii_AccountType :: string

text \<open>The decoders of the bodies (\<open>json.Unmarshal\<close> into the payload type of each call).\<close>

record github_json =
  js_user_installations :: "string \<Rightarrow> installation_item list result"
  js_app_installations :: "string \<Rightarrow> installation_item list result"
  js_repositories :: "string \<Rightarrow> repoLite list result"
  js_repository :: "string \<Rightarrow> repoLite result"
  js_jobs :: "string \<Rightarrow> runJob list result"
  js_token :: "string \<Rightarrow> tokenResponse result"
  js_installation_token :: "string \<Rightarrow> (string \<times> instant) result"

text \<open>An AEAD cipher: the size of its nonce, \<open>Seal\<close> and \<open>Open\<close> without additional data.\<close>

record aead =
  nonce_size :: nat
  seal :: "nat list \<Rightarrow> nat list \<Rightarrow> nat list"
  open_sealed :: "nat list \<Rightarrow> nat list \<Rightarrow> nat list result"

record 'sk client =
  gc_clientID :: string
  gc_clientSecret :: string
  gc_baseURL :: string
  gc_aead :: aead
  gc_appID :: string
  gc_appPrivateKey :: 'sk

record github_state =
  gs_net :: net
  gs_tokens :: "(int64 \<times> cachedInstallationToken) list"

record github_config =
  gf_ClientID :: string
  gf_ClientSecret :: string
  gf_BaseURL :: string
  gf_TokenEncryptionKey :: string
  gf_AppID :: string
  gf_AppPrivateKey :: string

definition githubTokenURL :: string where
  "githubTokenURL = ''https://github.com/login/oauth/access_token''"

definition NewClient :: "('b, 'sk) key_reader \<Rightarrow> (nat list \<Rightarrow> aead) \<Rightarrow> github_config \<Rightarrow> 'sk client result" where
  "NewClient rd gcm cfg =
     (let clientID = TrimSpace (gf_ClientID cfg); clientSecret = TrimSpace (gf_ClientSecret cfg) in
      if clientID = [] \<or> clientSecret = [] then Inl (NewError ''missing github app client id/secret'')
      else (let keyRaw = TrimSpace (gf_TokenEncryptionKey cfg) in
      if keyRaw = [] then Inl (NewError ''missing token encryption key'')
      else (case StdDecode keyRaw of
              None \<Rightarrow> Inl (Wrap ''decode token encryption key'' (External ''illegal base64 data''))
            | Some key \<Rightarrow>
                if length key \<noteq> 32
                then Inl (NewError (''token encryption key must decode to 32 bytes, got '' @ FormatInt (int (length key))))
                else (let appID = TrimSpace (gf_AppID cfg) in
                      if appID = [] then Inl (NewError ''missing github app id'')
                      else (case parseAppPrivateKey rd (gf_AppPrivateKey cfg) of
                              Inl e \<Rightarrow> Inl (Wrap ''parse app private key'' e)
                            | Inr appPrivateKey \<Rightarrow>
                                Inr \<lparr>gc_clientID = clientID, gc_clientSecret = clientSecret,
                                     gc_baseURL = TrimRight (TrimSpace (gf_BaseURL cfg)) (CHR ''/''),
                                     gc_aead = gcm key, gc_appID = appID,
                                     gc_appPrivateKey = appPrivateKey\<rparr>)))))"

section \<open>User authorisation\<close>

definition AuthCodeURL :: "'sk client \<Rightarrow> string \<Rightarrow> string" where
  "AuthCodeURL c state =
     ''https://github.com/login/oauth/authorize?'' @
     encode_form [(''client_id'', gc_clientID c), (''redirect_uri'', gc_baseURL c @ ''/auth/github/callback''),
                  (''state'', state)]"

definition tokenRequest :: "github_json \<Rightarrow> (string \<times> string) list \<Rightarrow> net \<Rightarrow> tokenResponse result \<times> net" where
  "tokenRequest js form n =
     (case http_Do \<lparr>rq_method = ''POST'', rq_url = githubTokenURL, rq_auth = None, rq_etag = None,
                    rq_body = encode_form form\<rparr> n of
        (Inl e, n') \<Rightarrow> (Inl (Wrap ''exchange token'' e), n')
      | (Inr res, n') \<Rightarrow>
          (if re_status res < 200 \<or> 300 \<le> re_status res
           then (Inl (NewError (''exchange token failed: status '' @ FormatInt (re_status res) @ '': '' @ TrimSpace (re_body res))), n')
           else (case js_token js (re_body res) of
                   Inl e \<Rightarrow> (Inl (Wrap ''decode token response'' e), n')
                 | Inr tr \<Rightarrow>
                     if blank (tr_AccessToken tr) then (Inl (NewError ''token response missing access_token''), n')
                     else (Inr tr, n'))))"

definition tokenFromResponse :: "instant \<Rightarrow> tokenResponse \<Rightarrow> userToken" where
  "tokenFromResponse now tr =
     \<lparr>ut_AccessToken = tr_AccessToken tr,
      ut_AccessTokenExpiresAt =
        (if 0 < tr_ExpiresIn tr then Some (time_Add now (seconds_wrapped (tr_ExpiresIn tr))) else None),
      ut_RefreshToken = tr_RefreshToken tr,
      ut_RefreshTokenExpiresAt =
        (if 0 < tr_RefreshTokenExpiresIn tr
         then Some (time_Add now (seconds_wrapped (tr_RefreshTokenExpiresIn tr))) else None)\<rparr>"

definition ExchangeUserCode ::
  "github_json \<Rightarrow> 'sk client \<Rightarrow> instant \<Rightarrow> string \<Rightarrow> net \<Rightarrow> userToken result \<times> net" where
  "ExchangeUserCode js c now code n =
     (case tokenRequest js [(''client_id'', gc_clientID c), (''client_secret'', gc_clientSecret c), (''code'', code),
                            (''redirect_uri'', gc_baseURL c @ ''/auth/github/callback'')] n of
        (Inl e, n') \<Rightarrow> (Inl e, n')
      | (Inr tr, n') \<Rightarrow> (Inr (tokenFromResponse now tr), n'))"

definition RefreshUserToken ::
  "github_json \<Rightarrow> 'sk client \<Rightarrow> instant \<Rightarrow> string \<Rightarrow> net \<Rightarrow> userToken result \<times> net" where
  "RefreshUserToken js c now refreshToken n =
     (case tokenRequest js [(''client_id'', gc_clientID c), (''client_secret'', gc_clientSecret c),
                            (''grant_type'', ''refresh_token''), (''refresh_token'', refreshToken)] n of
        (Inl e, n') \<Rightarrow> (Inl e, n')
      | (Inr tr, n') \<Rightarrow> (Inr (tokenFromResponse now tr), n'))"

section \<open>Encryption of stored tokens\<close>

definition bytes_of :: "string \<Rightarrow> nat list" where
  "bytes_of s = map of_char s"

definition string_of :: "nat list \<Rightarrow> string" where
  "string_of bs = map char_of bs"

lemma string_of_bytes_of [simp]: "string_of (bytes_of s) = s"
  by (simp add: string_of_def bytes_of_def comp_def)

text \<open>\<open>nonce\<close> is what the random source gives for a nonce of the cipher's size.\<close>

definition EncryptToken :: "'sk client \<Rightarrow> nat list result \<Rightarrow> string \<Rightarrow> nat list result" where
  "EncryptToken c nonce plaintext =
     (case nonce of
        Inl e \<Rightarrow> Inl (Wrap ''nonce'' e)
      | Inr nonce \<Rightarrow> Inr (nonce @ seal (gc_aead c) nonce (bytes_of plaintext)))"

definition DecryptToken :: "'sk client \<Rightarrow> nat list \<Rightarrow> string result" where
  "DecryptToken c ciphertext =
     (let ns = nonce_size (gc_aead c) in
      if length ciphertext < ns then Inl (NewError ''ciphertext too short'')
      else (case open_sealed (gc_aead c) (take ns ciphertext) (drop ns ciphertext) of
              Inl e \<Rightarrow> Inl (Wrap ''decrypt token'' e)
            | Inr plain \<Rightarrow> Inr (string_of plain)))"

section \<open>Requests and pages\<close>

text \<open>
  \<open>getJSONWithETag\<close>: the payload is \<open>zero\<close> when the answer is 304; the flag says so.
\<close>

definition getJSONWithETag ::
  "(string \<Rightarrow> 'p result) \<Rightarrow> 'p \<Rightarrow> string \<Rightarrow> string \<Rightarrow> string \<Rightarrow> net \<Rightarrow> (response \<times> bool \<times> 'p) result \<times> net" where
  "getJSONWithETag decode zero endpoint auth etag n =
     (case http_Do \<lparr>rq_method = ''GET'', rq_url = endpoint,
                    rq_auth = (if \<not> blank auth then Some auth else None),
                    rq_etag = (if \<not> blank etag then Some etag else None), rq_body = []\<rparr> n of
        (Inl e, n') \<Rightarrow> (Inl e, n')
      | (Inr res, n') \<Rightarrow>
          (if re_status res = 304 then (Inr (res, True, zero), n')
           else if re_status res < 200 \<or> 300 \<le> re_status res
           then (Inl (NewError (''github request failed: status '' @ FormatInt (re_status res) @ '': '' @ TrimSpace (re_body res))), n')
           else (case decode (re_body res) of
                   Inl e \<Rightarrow> (Inl e, n')
                 | Inr p \<Rightarrow> (Inr (res, False, p), n'))))"

definition getJSON ::
  "(string \<Rightarrow> 'p result) \<Rightarrow> 'p \<Rightarrow> string \<Rightarrow> string \<Rightarrow> string \<Rightarrow> net \<Rightarrow> (response \<times> 'p) result \<times> net" where
  "getJSON decode zero endpoint auth etag n =
     (case getJSONWithETag decode zero endpoint auth etag n of
        (Inl e, n') \<Rightarrow> (Inl e, n')
      | (Inr (res, _, p), n') \<Rightarrow> (Inr (res, p), n'))"

lemma getJSONWithETag_consumes:
  "getJSONWithETag decode zero endpoint auth etag n = (Inr x, n') \<Longrightarrow> length (nt_answers n') < length (nt_answers n)"
  by (auto simp: getJSONWithETag_def split: prod.splits sum.splits if_splits dest: http_Do_consumes)

lemma getJSON_consumes:
  "getJSON decode zero endpoint auth etag n = (Inr x, n') \<Longrightarrow> length (nt_answers n') < length (nt_answers n)"
  by (auto simp: getJSON_def split: prod.splits sum.splits dest: getJSONWithETag_consumes)

text \<open>
  The loop over pages that the plain listings share: one request per page, the items are
  appended, the first ETag is kept, and a page of fewer than 100 items is the last.
\<close>

function list_pages ::
  "(string \<Rightarrow> 'p list result) \<Rightarrow> (nat \<Rightarrow> string) \<Rightarrow> string \<Rightarrow> nat \<Rightarrow> string \<Rightarrow> 'p list \<Rightarrow> net
     \<Rightarrow> ('p list \<times> string) result \<times> net" where
  "list_pages decode endpoint auth page etag items n =
     (case getJSON decode [] (endpoint page) auth [] n of
        (Inl e, n') \<Rightarrow> (Inl e, n')
      | (Inr (res, payload), n') \<Rightarrow>
          (let etag' = (if etag = [] then re_etag res else etag); items' = items @ payload
           in if length payload < 100 then (Inr (items', etag'), n')
              else list_pages decode endpoint auth (Suc page) etag' items' n'))"
  by pat_completeness auto
termination
  by (relation "measure (\<lambda>(_, _, _, _, _, _, n). length (nt_answers n))")
     (auto dest: getJSON_consumes [OF sym])

text \<open>The loop of the conditional listings: every page carries the caller's ETag, and an answer of
  304 ends the listing with the flag.\<close>

function list_pages_etag ::
  "(string \<Rightarrow> 'p list result) \<Rightarrow> (nat \<Rightarrow> string) \<Rightarrow> string \<Rightarrow> string \<Rightarrow> nat \<Rightarrow> string \<Rightarrow> 'p list \<Rightarrow> net
     \<Rightarrow> ('p list \<times> string \<times> bool) result \<times> net" where
  "list_pages_etag decode endpoint auth etag page returned items n =
     (case getJSONWithETag decode [] (endpoint page) auth etag n of
        (Inl e, n') \<Rightarrow> (Inl e, n')
      | (Inr (res, notModified, payload), n') \<Rightarrow>
          (if notModified then (Inr ([], etag, True), n')
           else (let returned' = (if returned = [] then re_etag res else returned); items' = items @ payload
                 in if length payload < 100 then (Inr (items', returned', False), n')
                    else list_pages_etag decode endpoint auth etag (Suc page) returned' items' n')))"
  by pat_completeness auto
termination
  by (relation "measure (\<lambda>(_, _, _, _, _, _, _, n). length (nt_answers n))")
     (auto dest: getJSONWithETag_consumes [OF sym])

declare list_pages.simps [simp del] list_pages_etag.simps [simp del]

definition installation_of_item :: "installation_item \<Rightarrow> installationLite" where
  "installation_of_item inst =
     \<lparr>il_ID = ii_ID inst, il_AccountID = ii_AccountID inst, il_AccountLogin = ii_AccountLogin inst,
      il_AccountType = ToLower (TrimSpace (ii_AccountType inst)),
      il_RepositorySelection = ii_RepositorySelection inst\<rparr>"

definition api :: string where
  "api = ''https://api.github.com''"

definition page_query :: "nat \<Rightarrow> string" where
  "page_query page = ''?per_page=100&page='' @ FormatInt (int page)"

definition ListUserInstallations ::
  "github_json \<Rightarrow> string \<Rightarrow> net \<Rightarrow> (installationLite list \<times> string) result \<times> net" where
  "ListUserInstallations js accessToken n =
     (case list_pages (js_user_installations js) (\<lambda>page. api @ ''/user/installations'' @ page_query page)
             (''Bearer '' @ accessToken) 1 [] [] n of
        (Inl e, n') \<Rightarrow> (Inl e, n')
      | (Inr (items, etag), n') \<Rightarrow> (Inr (map installation_of_item items, etag), n'))"

definition ListUserInstallationRepositories ::
  "github_json \<Rightarrow> string \<Rightarrow> int64 \<Rightarrow> net \<Rightarrow> repoLite list result \<times> net" where
  "ListUserInstallationRepositories js accessToken installationID n =
     (case list_pages (js_repositories js)
             (\<lambda>page. api @ ''/user/installations/'' @ FormatInt installationID @ ''/repositories'' @ page_query page)
             (''Bearer '' @ accessToken) 1 [] [] n of
        (Inl e, n') \<Rightarrow> (Inl e, n')
      | (Inr (items, _), n') \<Rightarrow> (Inr items, n'))"

section \<open>Acting as the app and as an installation\<close>

text \<open>Signing: the issuer, the issue time and the expiry; a failure is dropped by the code.\<close>

type_synonym 'sk app_signer = "'sk \<Rightarrow> string \<Rightarrow> instant \<Rightarrow> instant \<Rightarrow> string result"

definition appBearerToken :: "'sk app_signer \<Rightarrow> 'sk client \<Rightarrow> instant \<Rightarrow> string" where
  "appBearerToken signer c now =
     ''Bearer '' @
     (case signer (gc_appPrivateKey c) (gc_appID c) (truncate_second (time_Add now (- (30 * second))))
             (truncate_second (time_Add now (9 * minute))) of
        Inl _ \<Rightarrow> []
      | Inr raw \<Rightarrow> raw)"

definition ListAppInstallations ::
  "github_json \<Rightarrow> 'sk app_signer \<Rightarrow> 'sk client \<Rightarrow> instant \<Rightarrow> string \<Rightarrow> net
     \<Rightarrow> (installationLite list \<times> string \<times> bool) result \<times> net" where
  "ListAppInstallations js signer c now etag n =
     (case list_pages_etag (js_app_installations js) (\<lambda>page. api @ ''/app/installations'' @ page_query page)
             (appBearerToken signer c now) etag 1 etag [] n of
        (Inl e, n') \<Rightarrow> (Inl e, n')
      | (Inr (items, returned, notModified), n') \<Rightarrow>
          (Inr (map installation_of_item items, returned, notModified), n'))"

text \<open>The part of \<open>installationToken\<close> after the cache was asked: a token is requested and cached.\<close>

definition request_token ::
  "github_json \<Rightarrow> 'sk app_signer \<Rightarrow> 'sk client \<Rightarrow> instant \<Rightarrow> int64 \<Rightarrow> github_state \<Rightarrow> string result \<times> github_state" where
  "request_token js signer c now installationID s =
     (case http_Do \<lparr>rq_method = ''POST'',
             rq_url = api @ ''/app/installations/'' @ FormatInt installationID @ ''/access_tokens'',
             rq_auth = Some (appBearerToken signer c now), rq_etag = None, rq_body = ''{}''\<rparr> (gs_net s) of
        (Inl e, n') \<Rightarrow> (Inl e, s\<lparr>gs_net := n'\<rparr>)
      | (Inr res, n') \<Rightarrow>
          (if re_status res < 200 \<or> 300 \<le> re_status res
           then (Inl (NewError (''create installation token failed: status '' @ FormatInt (re_status res) @ '': '' @
                   TrimSpace (re_body res))), s\<lparr>gs_net := n'\<rparr>)
           else (case js_installation_token js (re_body res) of
                   Inl e \<Rightarrow> (Inl e, s\<lparr>gs_net := n'\<rparr>)
                 | Inr (token, expiresAt) \<Rightarrow>
                     if blank token then (Inl (NewError ''missing installation token''), s\<lparr>gs_net := n'\<rparr>)
                     else (Inr token,
                           s\<lparr>gs_net := n',
                             gs_tokens := AList.update installationID
                               \<lparr>ct_Token = token, ct_ExpiresAt = expiresAt\<rparr> (gs_tokens s)\<rparr>))))"

definition installationToken ::
  "github_json \<Rightarrow> 'sk app_signer \<Rightarrow> 'sk client \<Rightarrow> instant \<Rightarrow> int64 \<Rightarrow> github_state \<Rightarrow> string result \<times> github_state" where
  "installationToken js signer c now installationID s =
     (case map_of (gs_tokens s) installationID of
        Some tok \<Rightarrow>
          if time_Before now (time_Add (ct_ExpiresAt tok) (- (1 * minute))) then (Inr (ct_Token tok), s)
          else request_token js signer c now installationID s
      | None \<Rightarrow> request_token js signer c now installationID s)"

definition ListInstallationRepositories ::
  "github_json \<Rightarrow> 'sk app_signer \<Rightarrow> 'sk client \<Rightarrow> instant \<Rightarrow> int64 \<Rightarrow> string \<Rightarrow> github_state
     \<Rightarrow> (repoLite list \<times> string \<times> bool) result \<times> github_state" where
  "ListInstallationRepositories js signer c now installationID etag s =
     (case installationToken js signer c now installationID s of
        (Inl e, s') \<Rightarrow> (Inl e, s')
      | (Inr token, s') \<Rightarrow>
          (case list_pages_etag (js_repositories js) (\<lambda>page. api @ ''/installation/repositories'' @ page_query page)
                  (''Bearer '' @ token) etag 1 etag [] (gs_net s') of
             (r, n') \<Rightarrow> (r, s'\<lparr>gs_net := n'\<rparr>)))"

definition zero_repoLite :: repoLite where
  "zero_repoLite = \<lparr>rl_RepoID = 0, rl_FullName = [], rl_Owner = [], rl_OwnerID = 0, rl_Visibility = []\<rparr>"

text \<open>Without a token the request is made anonymously.\<close>

definition repository_auth ::
  "github_json \<Rightarrow> 'sk app_signer \<Rightarrow> 'sk client \<Rightarrow> instant \<Rightarrow> int64 option \<Rightarrow> github_state \<Rightarrow> string \<times> github_state" where
  "repository_auth js signer c now installationID s =
     (case installationID of
        None \<Rightarrow> ([], s)
      | Some i \<Rightarrow>
          (case installationToken js signer c now i s of
             (Inl _, s') \<Rightarrow> ([], s')
           | (Inr tok, s') \<Rightarrow> (''Bearer '' @ tok, s')))"

definition GetRepository ::
  "github_json \<Rightarrow> 'sk app_signer \<Rightarrow> 'sk client \<Rightarrow> instant \<Rightarrow> string \<Rightarrow> string \<Rightarrow> int64 option \<Rightarrow> github_state
     \<Rightarrow> repoLite result \<times> github_state" where
  "GetRepository js signer c now owner repo installationID s =
     (case repository_auth js signer c now installationID s of
        (auth, s') \<Rightarrow>
          (case getJSON (js_repository js) zero_repoLite
                  (api @ ''/repos/'' @ PathEscape owner @ ''/'' @ PathEscape repo) auth [] (gs_net s') of
             (Inl e, n') \<Rightarrow> (Inl e, s'\<lparr>gs_net := n'\<rparr>)
           | (Inr (_, payload), n') \<Rightarrow> (Inr payload, s'\<lparr>gs_net := n'\<rparr>)))"

definition ListRunAttemptJobs ::
  "github_json \<Rightarrow> 'sk app_signer \<Rightarrow> 'sk client \<Rightarrow> instant \<Rightarrow> string \<Rightarrow> string \<Rightarrow> int64 \<Rightarrow> int64 \<Rightarrow> int64 \<Rightarrow> github_state
     \<Rightarrow> runJob list result \<times> github_state" where
  "ListRunAttemptJobs js signer c now owner repo runID attempt installationID s =
     (case installationToken js signer c now installationID s of
        (Inl e, s') \<Rightarrow> (Inl e, s')
      | (Inr tok, s') \<Rightarrow>
          (case list_pages (js_jobs js)
                  (\<lambda>page. api @ ''/repos/'' @ PathEscape owner @ ''/'' @ PathEscape repo @ ''/actions/runs/'' @
                     FormatInt runID @ ''/attempts/'' @ FormatInt attempt @ ''/jobs'' @ page_query page)
                  (''Bearer '' @ tok) 1 [] [] (gs_net s') of
             (Inl e, n') \<Rightarrow> (Inl e, s'\<lparr>gs_net := n'\<rparr>)
           | (Inr (jobs, _), n') \<Rightarrow> (Inr jobs, s'\<lparr>gs_net := n'\<rparr>)))"

text \<open>
  \<open>GitHubUser\<close> calls another client library; its answer is the user's id, login and avatar.
\<close>

definition GitHubUser :: "(string \<Rightarrow> (int64 \<times> string \<times> string) result) \<Rightarrow> string \<Rightarrow> (int64 \<times> string \<times> string) result" where
  "GitHubUser users_get accessToken =
     (case users_get accessToken of
        Inl e \<Rightarrow> Inl (Wrap ''github user'' e)
      | Inr u \<Rightarrow> Inr u)"

section \<open>Facts about pages\<close>

text \<open>The answer to one page request.\<close>

definition page_answer :: "(string \<Rightarrow> 'p list result) \<Rightarrow> response \<Rightarrow> 'p list \<Rightarrow> bool" where
  "page_answer decode re items \<longleftrightarrow>
     200 \<le> re_status re \<and> re_status re < 300 \<and> re_status re \<noteq> 304 \<and> decode (re_body re) = Inr items"

fun first_etag :: "string \<Rightarrow> response list \<Rightarrow> string" where
  "first_etag etag [] = etag"
| "first_etag etag (re # res) = first_etag (if etag = [] then re_etag re else etag) res"

definition page_request :: "(nat \<Rightarrow> string) \<Rightarrow> string \<Rightarrow> string \<Rightarrow> nat \<Rightarrow> request" where
  "page_request endpoint auth etag page =
     \<lparr>rq_method = ''GET'', rq_url = endpoint page, rq_auth = (if \<not> blank auth then Some auth else None),
      rq_etag = (if \<not> blank etag then Some etag else None), rq_body = []\<rparr>"

lemma getJSON_page:
  "page_answer decode re items \<Longrightarrow> nt_answers n = Answer re # as \<Longrightarrow>
   getJSON decode [] (endpoint page) auth [] n =
     (Inr (re, items), \<lparr>nt_sent = nt_sent n @ [page_request endpoint auth [] page], nt_answers = as\<rparr>)"
  by (simp add: getJSON_def getJSONWithETag_def http_Do_def page_answer_def page_request_def)

lemma list_pages_complete:
  assumes "list_all2 (page_answer decode) res pages" "\<forall>p \<in> set pages. 100 \<le> length p"
    and "page_answer decode re last_items" "length last_items < 100"
  shows "list_pages decode endpoint auth page etag items
      \<lparr>nt_sent = sent, nt_answers = map Answer res @ Answer re # as\<rparr> =
    (Inr (items @ concat pages @ last_items, first_etag etag (res @ [re])),
     \<lparr>nt_sent = sent @ map (page_request endpoint auth []) [page..<page + length res + 1], nt_answers = as\<rparr>)"
  using assms(1,2)
proof (induction res pages arbitrary: page etag items sent rule: list_all2_induct)
  case Nil
  then show ?case
    using assms(3,4) by (subst list_pages.simps) (simp add: getJSON_page [OF assms(3)])
next
  case (Cons r res p pages)
  have "[page..<page + length (r # res) + 1] = page # [Suc page..<Suc page + length res + 1]"
    by (simp add: upt_rec)
  moreover have "\<not> length p < 100"
    using Cons.prems by simp
  ultimately show ?case
    using Cons by (subst list_pages.simps) (simp add: getJSON_page [OF Cons.hyps(1)])
qed

section \<open>Properties\<close>

text \<open>
  Listings are complete: when GitHub answers the pages of a listing with full pages and then a
  page of fewer than 100 items, the client returns the items of all pages in order and the first
  ETag, and it has sent exactly one request per page, numbered from 1, with the user's token.
\<close>

theorem ListUserInstallationRepositories_complete:
  assumes "list_all2 (page_answer (js_repositories js)) res pages" "\<forall>p \<in> set pages. 100 \<le> length p"
    and "page_answer (js_repositories js) re last_items" "length last_items < 100"
  shows "ListUserInstallationRepositories js token inst \<lparr>nt_sent = sent, nt_answers = map Answer res @ Answer re # as\<rparr> =
    (Inr (concat pages @ last_items),
     \<lparr>nt_sent = sent @ map (\<lambda>page. \<lparr>rq_method = ''GET'',
          rq_url = api @ ''/user/installations/'' @ FormatInt inst @ ''/repositories'' @ page_query page,
          rq_auth = Some (''Bearer '' @ token), rq_etag = None, rq_body = []\<rparr>) [1..<length pages + 2],
      nt_answers = as\<rparr>)"
proof -
  have "\<not> blank (''Bearer '' @ token)"
    using not_blank_Cons [of "CHR ''B''" "''earer '' @ token"] by (simp add: white_space_def)
  moreover have "length res = length pages"
    using assms(1) by (rule list_all2_lengthD)
  ultimately show ?thesis
    using list_pages_complete [OF assms]
    by (simp add: ListUserInstallationRepositories_def page_request_def)
qed

text \<open>A GitHub that lists one repository and issues one token, for the examples.\<close>

definition demo_repo_item :: repoLite where
  "demo_repo_item = \<lparr>rl_RepoID = 7, rl_FullName = ''o/r'', rl_Owner = ''o'', rl_OwnerID = 3, rl_Visibility = ''private''\<rparr>"

definition demo_json :: github_json where
  "demo_json = \<lparr>js_user_installations = (\<lambda>_. Inr []), js_app_installations = (\<lambda>_. Inr []),
     js_repositories = (\<lambda>_. Inr [demo_repo_item]), js_repository = (\<lambda>_. Inr demo_repo_item), js_jobs = (\<lambda>_. Inr []),
     js_token = (\<lambda>_. Inl (External ''no token'')), js_installation_token = (\<lambda>_. Inr (''tok'', Instant (2 * hour)))\<rparr>"

definition demo_answer :: response where
  "demo_answer = \<lparr>re_status = 200, re_etag = [], re_body = []\<rparr>"

theorem ListUserInstallationRepositories_complete_witness:
  "fst (ListUserInstallationRepositories demo_json ''t'' 9 \<lparr>nt_sent = [], nt_answers = [Answer demo_answer]\<rparr>) = Inr [demo_repo_item]"
  using ListUserInstallationRepositories_complete [of demo_json "[]" "[]" demo_answer "[demo_repo_item]" "''t''" 9 "[]" "[]"]
  by (simp add: page_answer_def demo_json_def demo_answer_def)

text \<open>
  A token for an installation is never handed out stale: either it comes from the cache, no
  request is sent and it is valid for more than a minute from now, or exactly one request was
  sent, GitHub accepted it, and the token it issued, which is not blank, is returned and cached.
\<close>

theorem installationToken_fresh:
  assumes "installationToken js signer c now i s = (Inr token, s')"
  shows "(s' = s \<and> (\<exists>exp. map_of (gs_tokens s) i = Some \<lparr>ct_Token = token, ct_ExpiresAt = exp\<rparr> \<and>
            time_Add now minute < exp)) \<or>
    (\<exists>re exp as. nt_answers (gs_net s) = Answer re # as \<and> 200 \<le> re_status re \<and> re_status re < 300 \<and>
       js_installation_token js (re_body re) = Inr (token, exp) \<and> \<not> blank token \<and>
       length (nt_sent (gs_net s')) = length (nt_sent (gs_net s)) + 1 \<and>
       map_of (gs_tokens s') i = Some \<lparr>ct_Token = token, ct_ExpiresAt = exp\<rparr>)"
proof -
  have requested: "\<exists>re exp as. nt_answers (gs_net s) = Answer re # as \<and> 200 \<le> re_status re \<and> re_status re < 300 \<and>
       js_installation_token js (re_body re) = Inr (token, exp) \<and> \<not> blank token \<and>
       length (nt_sent (gs_net s')) = length (nt_sent (gs_net s)) + 1 \<and>
       map_of (gs_tokens s') i = Some \<lparr>ct_Token = token, ct_ExpiresAt = exp\<rparr>"
    if "request_token js signer c now i s = (Inr token, s')"
    using that by (auto simp: request_token_def http_Do_def update_conv'
        split: list.splits answer.splits sum.splits if_splits)
  show ?thesis
  proof (cases "map_of (gs_tokens s) i")
    case None
    with assms requested show ?thesis by (simp add: installationToken_def)
  next
    case (Some tok)
    show ?thesis
    proof (cases "time_Before now (time_Add (ct_ExpiresAt tok) (- (1 * minute)))")
      case True
      with assms Some show ?thesis
        by (intro disjI1 conjI exI [of _ "ct_ExpiresAt tok"]) (auto simp: installationToken_def time_Before_iff less_instant_def)
    next
      case False
      with assms Some requested show ?thesis by (simp add: installationToken_def)
    qed
  qed
qed

definition demo_client :: "unit client" where
  "demo_client = \<lparr>gc_clientID = ''id'', gc_clientSecret = ''s'', gc_baseURL = ''http://h'',
     gc_aead = \<lparr>nonce_size = 2, seal = (\<lambda>nonce plain. rev plain), open_sealed = (\<lambda>nonce c. Inr (rev c))\<rparr>,
     gc_appID = ''42'', gc_appPrivateKey = ()\<rparr>"

theorem installationToken_fresh_witness:
  "\<exists>s'. installationToken demo_json (\<lambda>_ _ _ _. Inr ''jwt'') demo_client (Instant 0) 9
      \<lparr>gs_net = \<lparr>nt_sent = [], nt_answers = [Answer demo_answer]\<rparr>, gs_tokens = []\<rparr> = (Inr ''tok'', s') \<and>
    length (nt_sent (gs_net s')) = 1"
proof -
  let ?s = "\<lparr>gs_net = \<lparr>nt_sent = [], nt_answers = [Answer demo_answer]\<rparr>, gs_tokens = []\<rparr>"
  have "\<not> blank ''tok''"
    by code_simp
  then obtain s' where s': "installationToken demo_json (\<lambda>_ _ _ _. Inr ''jwt'') demo_client (Instant 0) 9 ?s = (Inr ''tok'', s')"
    by (simp add: installationToken_def request_token_def http_Do_def demo_json_def demo_answer_def)
  from installationToken_fresh [OF this] have "length (nt_sent (gs_net s')) = 1"
    by auto
  with s' show ?thesis by blast
qed

text \<open>What the code relies on in the cipher: opening undoes sealing with the same nonce.\<close>

definition aead_contract :: "aead \<Rightarrow> bool" where
  "aead_contract a \<longleftrightarrow> (\<forall>nonce plain. length nonce = nonce_size a \<longrightarrow> open_sealed a nonce (seal a nonce plain) = Inr plain)"

text \<open>
  Stored tokens can be read back: decrypting what was encrypted gives the token, for every
  token and every nonce; and a ciphertext shorter than a nonce is refused without calling the
  cipher.
\<close>

theorem token_encryption_roundtrip:
  assumes "aead_contract (gc_aead c)" "length nonce = nonce_size (gc_aead c)"
  shows "bind_result (EncryptToken c (Inr nonce) token) (DecryptToken c) = Inr token \<and>
    (length short < length nonce \<longrightarrow> DecryptToken c short = Inl (NewError ''ciphertext too short''))"
  using assms by (simp_all add: EncryptToken_def DecryptToken_def aead_contract_def Let_def)

theorem token_encryption_roundtrip_witness:
  "bind_result (EncryptToken demo_client (Inr [7, 8]) ''ghu'') (DecryptToken demo_client) = Inr ''ghu''"
  using token_encryption_roundtrip [of demo_client "[7, 8]" "''ghu''" "[1]"]
  by (simp add: aead_contract_def demo_client_def)

end
