(* ===== verification/GitHub_Paging.thy ===== *)
theory GitHub_Paging
  imports GitHub_App
begin

text \<open>
  When the loops over pages of \<open>githubapp/client.go\<close> end. The loops have no bound of their own: they
  go on as long as GitHub answers with full pages. What ends them is the first other answer, and no
  request is sent after it.
\<close>

text \<open>An answer after which a listing asks for another page.\<close>

definition full_page :: "(string \<Rightarrow> 'p list result) \<Rightarrow> answer \<Rightarrow> bool" where
  "full_page decode ans =
     (case ans of
        NoAnswer _ \<Rightarrow> False
      | Answer re \<Rightarrow>
          200 \<le> re_status re \<and> re_status re < 300 \<and>
          (case decode (re_body re) of Inl _ \<Rightarrow> False | Inr items \<Rightarrow> 100 \<le> length items))"

definition full_pages :: "(string \<Rightarrow> 'p list result) \<Rightarrow> net \<Rightarrow> nat" where
  "full_pages decode n = length (takeWhile (full_page decode) (nt_answers n))"

text \<open>The state of the network after \<open>k + 1\<close> page requests.\<close>

definition after_pages :: "(nat \<Rightarrow> request) \<Rightarrow> nat \<Rightarrow> nat \<Rightarrow> net \<Rightarrow> net" where
  "after_pages rq page k n =
     \<lparr>nt_sent = nt_sent n @ map rq [page..<page + k + 1], nt_answers = drop (Suc k) (nt_answers n)\<rparr>"

lemma after_one: "after_pages rq page 0 n = \<lparr>nt_sent = nt_sent n @ [rq page], nt_answers = tl (nt_answers n)\<rparr>"
  by (simp add: after_pages_def drop_Suc)

lemma after_more:
  "after_pages rq (Suc page) k \<lparr>nt_sent = nt_sent n @ [rq page], nt_answers = tl (nt_answers n)\<rparr> = after_pages rq page (Suc k) n"
proof -
  have "[page..<page + Suc k + 1] = page # [Suc page..<Suc page + k + 1]"
    by (simp add: upt_rec)
  then show ?thesis
    by (simp add: after_pages_def drop_Suc)
qed

lemma http_Do_state: "snd (http_Do rq n) = \<lparr>nt_sent = nt_sent n @ [rq], nt_answers = tl (nt_answers n)\<rparr>"
  by (cases "nt_answers n"; cases "hd (nt_answers n)") (simp_all add: http_Do_def)

lemma snd_result [simp]:
  "snd (case x of (Inl e, n') \<Rightarrow> (Inl e, n') | (Inr (u, v), n') \<Rightarrow> (Inr (f u v), n')) = snd x"
  by (cases x) (simp split: sum.split prod.split)

lemma getJSONWithETag_state:
  "snd (getJSONWithETag decode zero (endpoint page) auth etag n) =
     \<lparr>nt_sent = nt_sent n @ [page_request endpoint auth etag page], nt_answers = tl (nt_answers n)\<rparr>"
proof -
  have "snd (getJSONWithETag decode zero (endpoint page) auth etag n) = snd (http_Do (page_request endpoint auth etag page) n)"
    unfolding getJSONWithETag_def page_request_def
    by (cases "http_Do \<lparr>rq_method = ''GET'', rq_url = endpoint page, rq_auth = (if \<not> blank auth then Some auth else None),
          rq_etag = (if \<not> blank etag then Some etag else None), rq_body = []\<rparr> n"; simp split: sum.split)
  then show ?thesis by (simp add: http_Do_state)
qed

lemma getJSON_state:
  "snd (getJSON decode zero (endpoint page) auth etag n) =
     \<lparr>nt_sent = nt_sent n @ [page_request endpoint auth etag page], nt_answers = tl (nt_answers n)\<rparr>"
proof -
  have "snd (getJSON decode zero (endpoint page) auth etag n) = snd (getJSONWithETag decode zero (endpoint page) auth etag n)"
    by (cases "getJSONWithETag decode zero (endpoint page) auth etag n") (auto simp: getJSON_def split: sum.split)
  then show ?thesis by (simp add: getJSONWithETag_state)
qed

text \<open>A page is full exactly when there was an answer, and it is a full one.\<close>

lemma getJSON_full:
  assumes "getJSON decode [] (endpoint page) auth etag n = (Inr (res, items), n')"
  shows "100 \<le> length items \<longleftrightarrow> nt_answers n \<noteq> [] \<and> full_page decode (hd (nt_answers n))"
  using assms by (auto simp: getJSON_def getJSONWithETag_def http_Do_def full_page_def
      split: list.splits answer.splits if_splits sum.splits)

lemma getJSON_failed:
  assumes "getJSON decode [] (endpoint page) auth etag n = (Inl e, n')"
  shows "nt_answers n = [] \<or> \<not> full_page decode (hd (nt_answers n))"
  using assms by (auto simp: getJSON_def getJSONWithETag_def http_Do_def full_page_def
      split: list.splits answer.splits if_splits sum.splits)

lemma full_pages_step:
  "full_pages decode n = (if nt_answers n \<noteq> [] \<and> full_page decode (hd (nt_answers n))
     then Suc (full_pages decode \<lparr>nt_sent = nt_sent n @ [rq], nt_answers = tl (nt_answers n)\<rparr>) else 0)"
  by (cases "nt_answers n") (simp_all add: full_pages_def)

lemma list_pages_requests:
  "snd (list_pages decode endpoint auth page etag items n) =
     after_pages (page_request endpoint auth []) page (full_pages decode n) n"
proof (induction decode endpoint auth page etag items n rule: list_pages.induct)
  case (1 decode endpoint auth page etag items n)
  let ?rq = "page_request endpoint auth []"
  let ?n = "\<lparr>nt_sent = nt_sent n @ [?rq page], nt_answers = tl (nt_answers n)\<rparr>"
  obtain r n' where g: "getJSON decode [] (endpoint page) auth [] n = (r, n')"
    by (cases "getJSON decode [] (endpoint page) auth [] n")
  then have n': "n' = ?n"
    using getJSON_state [of decode "[]" endpoint page auth "[]" n] by simp
  show ?case
  proof (cases r)
    case (Inl e)
    with getJSON_failed [of decode endpoint page auth "[]" n e n'] g have "full_pages decode n = 0"
      by (subst full_pages_step) auto
    with Inl g n' show ?thesis
      by (subst list_pages.simps) (simp add: after_one)
  next
    case (Inr x)
    obtain res payload where x: "x = (res, payload)"
      by (cases x)
    note full = getJSON_full [of decode endpoint page auth "[]" n res payload n', OF g [unfolded Inr x]]
    show ?thesis
    proof (cases "length payload < 100")
      case True
      with full have "full_pages decode n = 0"
        by (subst full_pages_step) auto
      with True Inr x g n' show ?thesis
        by (subst list_pages.simps) (simp add: after_one)
    next
      case False
      with full have "full_pages decode n = Suc (full_pages decode ?n)"
        by (subst full_pages_step [where rq = "?rq page"]) auto
      with False Inr x g n' 1 show ?thesis
        by (subst list_pages.simps) (simp add: Let_def after_more)
    qed
  qed
qed

section \<open>Properties\<close>

text \<open>
  C31: Every listing of a user ends with the first answer that is not a full page, be it a shorter
  page, an error status, a body that does not decode, or no answer at all: after \<open>k\<close> full pages
  exactly \<open>k + 1\<close> requests were sent, one for each page from 1 on, and every later answer is left.
\<close>

theorem listings_end:
  "snd (ListUserInstallations js token n) =
     after_pages (page_request (\<lambda>page. api @ ''/user/installations'' @ page_query page) (''Bearer '' @ token) [])
       1 (full_pages (js_user_installations js) n) n \<and>
   snd (ListUserInstallationRepositories js token inst n) =
     after_pages (page_request (\<lambda>page. api @ ''/user/installations/'' @ FormatInt inst @ ''/repositories'' @ page_query page)
       (''Bearer '' @ token) []) 1 (full_pages (js_repositories js) n) n"
  unfolding ListUserInstallations_def ListUserInstallationRepositories_def snd_result list_pages_requests
  by (rule conjI refl)+

end
