(* ===== verification/Workers.thy ===== *)
theory Workers
  imports Store_Effects GitHub_Paging
begin

text \<open>
  \<open>server/internal/workers/pull.go\<close>: the pull workers, which mirror installations, repositories
  and coverage from GitHub into the store, revoke bindings, purge runs and match stored runs
  with the jobs that GitHub reports. The state is the database and the client of GitHub; one
  pass reads the clock once (\<open>now\<close>). Logging is left out. Go iterates over a map in no fixed
  order; the model iterates in the order of insertion.
\<close>

record world =
  wd_db :: "db pg"
  wd_gh :: github_state

record 'sk worker =
  wk_json :: github_json
  wk_signer :: "'sk app_signer"
  wk_client :: "'sk client"
  wk_RetentionWindow :: duration
  wk_EnrichmentBatch :: int

type_synonym 'a wop = "world \<Rightarrow> 'a result \<times> world"

definition on_db :: "(db, 'a) dbop \<Rightarrow> 'a wop" where
  "on_db m w = (case m (wd_db w) of (r, s) \<Rightarrow> (r, w\<lparr>wd_db := s\<rparr>))"

definition on_gh :: "(github_state \<Rightarrow> 'a result \<times> github_state) \<Rightarrow> 'a wop" where
  "on_gh m w = (case m (wd_gh w) of (r, g) \<Rightarrow> (r, w\<lparr>wd_gh := g\<rparr>))"

text \<open>A call of the client that needs the network only.\<close>

definition on_net :: "(net \<Rightarrow> 'a result \<times> net) \<Rightarrow> github_state \<Rightarrow> 'a result \<times> github_state" where
  "on_net m g = (case m (gs_net g) of (r, n) \<Rightarrow> (r, g\<lparr>gs_net := n\<rparr>))"

definition splitRepoFullName :: "string \<Rightarrow> string \<times> string" where
  "splitRepoFullName fullName =
     (case SplitN2 (TrimSpace fullName) (CHR ''/'') of
        [a, b] \<Rightarrow> (a, b)
      | _ \<Rightarrow> ([], []))"

text \<open>\<open>init\<close>: the defaults.\<close>

definition worker_init :: "'sk worker \<Rightarrow> 'sk worker" where
  "worker_init r =
     r\<lparr>wk_RetentionWindow := (if wk_RetentionWindow r \<le> 0 then 30 * 24 * hour else wk_RetentionWindow r),
       wk_EnrichmentBatch := (if wk_EnrichmentBatch r \<le> 0 then 100 else wk_EnrichmentBatch r)\<rparr>"

section \<open>Visibility\<close>

definition repo_of_lite :: "repoLite \<Rightarrow> repo" where
  "repo_of_lite item =
     zero_repo\<lparr>rep_RepoID := rl_RepoID item, rep_FullName := rl_FullName item, rep_Owner := rl_Owner item,
       rep_OwnerID := rl_OwnerID item, rep_Visibility := rl_Visibility item, rep_UpdatedFrom := ''api''\<rparr>"

definition sync_visibility_of :: "'sk worker \<Rightarrow> instant \<Rightarrow> repoSyncRow \<Rightarrow> unit wop" where
  "sync_visibility_of r now row =
     (case splitRepoFullName (rs_FullName row) of
        (owner, name) \<Rightarrow>
          if owner = [] \<or> name = [] then ret ()
          else bind_op (on_db (GetAnyInstallationIDForRepo (rs_RepoID row))) (\<lambda>installationID.
               catch_op (on_gh (GetRepository (wk_json r) (wk_signer r) (wk_client r) now owner name installationID))
                 (\<lambda>err. ret ())
                 (\<lambda>updated. on_db (UpsertRepo now (repo_of_lite updated)))))"

definition runVisibilitySync :: "'sk worker \<Rightarrow> instant \<Rightarrow> unit wop" where
  "runVisibilitySync r now =
     bind_op (on_db ListReposForSync) (\<lambda>repos. for_each (sync_visibility_of r now) repos)"

section \<open>Coverage\<close>

definition sync_installation :: "'sk worker \<Rightarrow> instant \<Rightarrow> installationLite \<Rightarrow> unit wop" where
  "sync_installation r now inst =
     bind_op (on_db (UpsertInstallationFromPull now (il_ID inst) (il_AccountID inst) (il_AccountType inst)
                (il_AccountLogin inst) (il_RepositorySelection inst) False)) (\<lambda>_.
     bind_op (on_gh (ListInstallationRepositories (wk_json r) (wk_signer r) (wk_client r) now (il_ID inst) []))
       (\<lambda>(repoItems, _, _).
     bind_op (for_each (\<lambda>item. on_db (UpsertRepo now (repo_of_lite item))) repoItems) (\<lambda>_.
     on_db (ReplaceInstallationRepos now (il_ID inst) (map repo_of_lite repoItems)))))"

definition check_coverage :: "instant \<Rightarrow> int64 \<Rightarrow> unit wop" where
  "check_coverage now repoID =
     bind_op (on_db (GetAnyInstallationIDForRepo repoID)) (\<lambda>installationID.
     on_db (UpsertRepoCoverage now repoID installationID))"

definition runCoverageSync :: "'sk worker \<Rightarrow> instant \<Rightarrow> unit wop" where
  "runCoverageSync r now =
     bind_op (on_gh (on_net (ListAppInstallations (wk_json r) (wk_signer r) (wk_client r) now [])))
       (\<lambda>(installations, _, notModified).
          if notModified then ret ()
          else bind_op (for_each (sync_installation r now) installations) (\<lambda>_.
               bind_op (on_db (MarkInstallationsMissingFromPullDeleted now (map il_ID installations))) (\<lambda>_.
               bind_op (on_db ListRepoCoverageCandidates) (\<lambda>repoIDs.
               for_each (check_coverage now) repoIDs))))"

definition runBindingRevalidation :: "instant \<Rightarrow> unit wop" where
  "runBindingRevalidation now = bind_op (on_db (RevokeUncoveredProjectBindings now)) (\<lambda>_. ret ())"

definition runRetentionPurge :: "'sk worker \<Rightarrow> instant \<Rightarrow> unit wop" where
  "runRetentionPurge r now = bind_op (on_db (PurgeUnretainedRuns now (wk_RetentionWindow r))) (\<lambda>_. ret ())"

section \<open>Matching runs with jobs\<close>

text \<open>The job is on the run's runner and spans the capture, with a minute of slack on both sides.\<close>

definition job_matches :: "enrichmentRunRow \<Rightarrow> runJob \<Rightarrow> bool" where
  "job_matches run job \<longleftrightarrow>
     (if \<not> EqualFold (TrimSpace (er_RunnerName run)) (TrimSpace (rj_RunnerName job)) then False
      else (case (er_CaptureStartedAt run, er_CaptureEndedAt run, rj_StartedAt job, rj_CompletedAt job) of
              (Some cs, Some ce, Some js, Some je) \<Rightarrow>
                \<not> (time_Before cs (time_Add js (- (60 * second))) \<or> time_After ce (time_Add je (60 * second)))
            | _ \<Rightarrow> False))"

definition matches_of :: "runJob list \<Rightarrow> enrichmentRunRow \<Rightarrow> runJob list" where
  "matches_of jobs run = filter (job_matches run) jobs"

text \<open>\<open>len(matches) == 1\<close>, with the one match.\<close>

definition only_match :: "runJob list \<Rightarrow> enrichmentRunRow \<Rightarrow> runJob option" where
  "only_match jobs run = (if length (matches_of jobs run) = 1 then Some (hd (matches_of jobs run)) else None)"

text \<open>The first loop: the chosen candidates and the set of ambiguous runs.\<close>

fun choose_runs ::
  "runJob list \<Rightarrow> enrichmentRunRow list \<Rightarrow> (int64 \<times> runJob) list \<Rightarrow> int64 list \<Rightarrow> (int64 \<times> runJob) list \<times> int64 list" where
  "choose_runs jobs [] chosen ambiguous = (chosen, ambiguous)"
| "choose_runs jobs (run # runs) chosen ambiguous =
     (case only_match jobs run of
        Some job \<Rightarrow> choose_runs jobs runs (chosen @ [(er_ID run, job)]) ambiguous
      | None \<Rightarrow> choose_runs jobs runs chosen (List.insert (er_ID run) ambiguous))"

definition job_to_runs :: "(int64 \<times> runJob) list \<Rightarrow> int64 \<Rightarrow> int64 list" where
  "job_to_runs chosen jobID = map fst (filter (\<lambda>c. rj_ID (snd c) = jobID) chosen)"

text \<open>The second loop: a job that several runs chose belongs to none of them.\<close>

fun settle_runs ::
  "(int64 \<times> runJob) list \<Rightarrow> (int64 \<times> runJob) list \<Rightarrow> (int64 \<times> runJob) list \<Rightarrow> int64 list \<Rightarrow> (int64 \<times> runJob) list \<times> int64 list" where
  "settle_runs chosen [] matched ambiguous = (matched, ambiguous)"
| "settle_runs chosen ((runID, job) # rest) matched ambiguous =
     (if length (job_to_runs chosen (rj_ID job)) \<noteq> 1
      then settle_runs chosen rest matched (List.insert runID ambiguous)
      else settle_runs chosen rest (AList.update runID job matched) ambiguous)"

definition matchJobsToRuns ::
  "enrichmentRunRow list \<Rightarrow> runJob list \<Rightarrow> (int64 \<times> runJob) list \<times> int64 list" where
  "matchJobsToRuns runs jobs =
     (case choose_runs jobs runs [] [] of
        (chosen, ambiguous) \<Rightarrow> settle_runs chosen chosen [] ambiguous)"

section \<open>Enrichment\<close>

definition mark_all_unavailable :: "enrichmentRunRow list \<Rightarrow> unit wop" where
  "mark_all_unavailable runs = for_each (\<lambda>run. on_db (MarkRunEnrichmentUnavailable (er_ID run))) runs"

definition enrich_group :: "'sk worker \<Rightarrow> instant \<Rightarrow> enrichmentGroup \<Rightarrow> unit wop" where
  "enrich_group r now g =
     bind_op (on_db (GetAnyInstallationIDForRepo (eg_RepoID g))) (\<lambda>installationID.
     bind_op (on_db (ListRunsForEnrichmentGroup (eg_RepoID g) (eg_RunID g) (eg_RunAttempt g))) (\<lambda>runs.
       case installationID of
         None \<Rightarrow> mark_all_unavailable runs
       | Some i \<Rightarrow>
           catch_op (on_gh (ListRunAttemptJobs (wk_json r) (wk_signer r) (wk_client r) now (eg_Owner g) (eg_RepoName g)
                       (eg_RunID g) (eg_RunAttempt g) i))
             (\<lambda>err. mark_all_unavailable runs)
             (\<lambda>jobs. bind_op (for_each (\<lambda>runID. on_db (MarkRunEnrichmentAmbiguous runID)) (snd (matchJobsToRuns runs jobs))) (\<lambda>_.
                for_each (\<lambda>(runID, job). on_db (MarkRunEnrichmentMatched runID (rj_ID job) (rj_Name job)
                  (rj_Conclusion job) (rj_StartedAt job) (rj_CompletedAt job))) (fst (matchJobsToRuns runs jobs))))))"

definition runJobEnrichment :: "'sk worker \<Rightarrow> instant \<Rightarrow> unit wop" where
  "runJobEnrichment r now =
     bind_op (on_db (ListPendingEnrichmentGroups (wk_EnrichmentBatch r))) (\<lambda>groups. for_each (enrich_group r now) groups)"

definition RunAll :: "'sk worker \<Rightarrow> instant \<Rightarrow> unit wop" where
  "RunAll r now =
     bind_op (wrap_err ''coverage sync'' (runCoverageSync r now)) (\<lambda>_.
     bind_op (wrap_err ''visibility sync'' (runVisibilitySync r now)) (\<lambda>_.
     bind_op (wrap_err ''binding revalidation'' (runBindingRevalidation now)) (\<lambda>_.
     bind_op (wrap_err ''retention purge'' (runRetentionPurge r now)) (\<lambda>_.
     wrap_err ''job enrichment'' (runJobEnrichment r now)))))"

text \<open>
  \<open>Start\<close>: nothing without a store or a client; otherwise a pass at once and one after each
  interval, whatever the pass returned, until the context is cancelled. \<open>ticks\<close> are the times of
  the passes before that.
\<close>

fun passes :: "'sk worker \<Rightarrow> instant list \<Rightarrow> world \<Rightarrow> world" where
  "passes r [] w = w"
| "passes r (now # ticks) w = passes r ticks (snd (RunAll r now w))"

definition Start :: "bool \<Rightarrow> bool \<Rightarrow> 'sk worker \<Rightarrow> instant list \<Rightarrow> world \<Rightarrow> world" where
  "Start has_store has_github r ticks w =
     (if \<not> has_store \<or> \<not> has_github then w else passes (worker_init r) ticks w)"

section \<open>Facts\<close>

lemma preserves_on_db [preserve_rules]:
  "preserves (\<lambda>s. I (tables s)) m \<Longrightarrow> preserves (\<lambda>w. I (tables (wd_db w))) (on_db m)"
  by (auto simp: preserves_def on_db_def split: prod.split)

lemma preserves_on_gh [preserve_rules]: "preserves (\<lambda>w. I (tables (wd_db w))) (on_gh m)"
  by (auto simp: preserves_def on_gh_def split: prod.split)

lemma preserves_split [preserve_rules]:
  "(\<And>a b. preserves P (f a b)) \<Longrightarrow> preserves P (case x of (a, b) \<Rightarrow> f a b)"
  by (cases x) simp

lemma reads_preserve:
  "preserves good_tables (GetAnyInstallationIDForRepo rid)"
  "preserves good_tables ListReposForSync"
  "preserves good_tables ListRepoCoverageCandidates"
  "preserves good_tables (ListRunsForEnrichmentGroup a b c)"
  "preserves good_tables (ListPendingEnrichmentGroups n)"
  unfolding GetAnyInstallationIDForRepo_def ListReposForSync_def ListRepoCoverageCandidates_def
    ListRunsForEnrichmentGroup_def ListPendingEnrichmentGroups_def
  by (intro preserve_rules)+

lemma RunAll_preserves: "preserves (\<lambda>w. good_tables (wd_db w)) (RunAll r now)"
  unfolding RunAll_def runCoverageSync_def runVisibilitySync_def runBindingRevalidation_def runRetentionPurge_def
    runJobEnrichment_def enrich_group_def mark_all_unavailable_def check_coverage_def sync_installation_def
    sync_visibility_of_def
  by (intro preserve_rules operations_preserve reads_preserve)

text \<open>The pairs that the first loop chooses.\<close>

definition chosen_pairs :: "runJob list \<Rightarrow> enrichmentRunRow list \<Rightarrow> (int64 \<times> runJob) list" where
  "chosen_pairs jobs runs = List.map_filter (\<lambda>run. map_option (Pair (er_ID run)) (only_match jobs run)) runs"

lemma chosen_pairs_simps [simp]:
  "chosen_pairs jobs [] = []"
  "chosen_pairs jobs (run # runs) =
     (case only_match jobs run of None \<Rightarrow> chosen_pairs jobs runs | Some job \<Rightarrow> (er_ID run, job) # chosen_pairs jobs runs)"
  by (simp_all add: chosen_pairs_def List.map_filter_simps split: option.split)

lemma set_chosen_pairs:
  "(runID, job) \<in> set (chosen_pairs jobs runs) \<longleftrightarrow> (\<exists>run \<in> set runs. er_ID run = runID \<and> only_match jobs run = Some job)"
  by (induction runs) (auto split: option.splits)

lemma distinct_chosen_pairs: "distinct (map er_ID runs) \<Longrightarrow> distinct (map fst (chosen_pairs jobs runs))"
proof (induction runs)
  case (Cons run runs)
  have "er_ID run \<notin> fst ` set (chosen_pairs jobs runs)"
  proof
    assume "er_ID run \<in> fst ` set (chosen_pairs jobs runs)"
    then obtain job where "(er_ID run, job) \<in> set (chosen_pairs jobs runs)" by auto
    then have "er_ID run \<in> er_ID ` set runs" unfolding set_chosen_pairs by (metis imageI)
    with Cons.prems show False by simp
  qed
  with Cons show ?case by (auto split: option.split)
qed simp

lemma choose_runs_spec:
  "fst (choose_runs jobs runs chosen ambiguous) = chosen @ chosen_pairs jobs runs"
  "set (snd (choose_runs jobs runs chosen ambiguous)) =
     set ambiguous \<union> er_ID ` {run \<in> set runs. only_match jobs run = None}"
proof (induction runs arbitrary: chosen ambiguous)
  case (Cons run runs)
  {
    case 1
    then show ?case using Cons.IH(1) by (simp split: option.split)
  next
    case 2
    then show ?case using Cons.IH(2) by (cases "only_match jobs run") auto
  }
qed simp_all

lemma settle_runs_spec:
  assumes "distinct (map fst rest)"
  shows "set (snd (settle_runs chosen rest matched ambiguous)) =
      set ambiguous \<union> fst ` {c \<in> set rest. length (job_to_runs chosen (rj_ID (snd c))) \<noteq> 1}"
    and "map_of (fst (settle_runs chosen rest matched ambiguous)) k =
      (case map_of rest k of
         None \<Rightarrow> map_of matched k
       | Some job \<Rightarrow> if length (job_to_runs chosen (rj_ID job)) = 1 then Some job else map_of matched k)"
  using assms
proof (induction rest arbitrary: matched ambiguous)
  case (Cons c rest)
  obtain runID job where c: "c = (runID, job)" by (cases c)
  {
    case 1
    let ?bad = "\<lambda>c. length (job_to_runs chosen (rj_ID (snd c))) \<noteq> 1"
    have "{x \<in> set (c # rest). ?bad x} = (if ?bad c then {c} else {}) \<union> {x \<in> set rest. ?bad x}" by auto
    with 1 show ?case
      using Cons.IH(1) by (simp add: c)
  next
    case 2
    then have "map_of rest runID = None"
      by (simp add: c map_of_eq_None_iff)
    with 2 show ?case
      using Cons.IH(2) by (cases "length (job_to_runs chosen (rj_ID job)) = 1"; cases "k = runID")
        (auto simp: c update_conv' split: option.split)
  }
qed simp_all

text \<open>The run whose only match is the job, when no other run's only match is the same job.\<close>

definition sole_claimant :: "enrichmentRunRow list \<Rightarrow> runJob list \<Rightarrow> enrichmentRunRow \<Rightarrow> runJob \<Rightarrow> bool" where
  "sole_claimant runs jobs run job \<longleftrightarrow>
     filter (job_matches run) jobs = [job] \<and>
     (\<forall>other \<in> set runs. \<forall>job'. filter (job_matches other) jobs = [job'] \<longrightarrow> rj_ID job' = rj_ID job \<longrightarrow> er_ID other = er_ID run)"

lemma only_match_iff: "only_match jobs run = Some job \<longleftrightarrow> filter (job_matches run) jobs = [job]"
  by (auto simp: only_match_def matches_of_def length_Suc_conv)

lemma job_to_runs_one:
  assumes "distinct (map er_ID runs)" "run \<in> set runs" "only_match jobs run = Some job"
  shows "length (job_to_runs (chosen_pairs jobs runs) (rj_ID job)) = 1 \<longleftrightarrow> sole_claimant runs jobs run job"
proof -
  let ?ids = "job_to_runs (chosen_pairs jobs runs) (rj_ID job)"
  have dist: "distinct ?ids"
    using distinct_chosen_pairs [OF assms(1)] by (simp add: job_to_runs_def distinct_map_filter)
  have ids: "k \<in> set ?ids \<longleftrightarrow> (\<exists>other \<in> set runs. er_ID other = k \<and> (\<exists>job'. only_match jobs other = Some job' \<and> rj_ID job' = rj_ID job))" for k
    using set_chosen_pairs [of k _ jobs runs] by (force simp: job_to_runs_def)
  then have mem: "er_ID run \<in> set ?ids"
    using assms by blast
  have "length ?ids = 1 \<longleftrightarrow> set ?ids = {er_ID run}"
    using dist mem by (metis One_nat_def card.insert card_1_singletonE distinct_card empty_iff finite.emptyI
        is_singletonI is_singleton_altdef singletonD)
  also have "\<dots> \<longleftrightarrow> (\<forall>k \<in> set ?ids. k = er_ID run)"
    using mem by auto
  finally show ?thesis
    using assms(3) ids by (auto simp: sole_claimant_def only_match_iff)
qed

lemma same_run: "distinct (map er_ID runs) \<Longrightarrow> run \<in> set runs \<Longrightarrow> run' \<in> set runs \<Longrightarrow> er_ID run = er_ID run' \<Longrightarrow> run = run'"
  by (auto simp: distinct_map dest: inj_onD)

lemma chosen_pair_iff:
  assumes "distinct (map er_ID runs)" "run \<in> set runs"
  shows "(er_ID run, job) \<in> set (chosen_pairs jobs runs) \<longleftrightarrow> only_match jobs run = Some job"
  using same_run [OF assms(1)] assms(2) by (metis set_chosen_pairs)

lemma chosen_pairs_of:
  assumes "distinct (map er_ID runs)" "run \<in> set runs"
  shows "map_of (chosen_pairs jobs runs) (er_ID run) = only_match jobs run"
proof (cases "only_match jobs run")
  case None
  then show ?thesis
    using chosen_pair_iff [OF assms] by (auto simp: map_of_eq_None_iff)
next
  case (Some job)
  then show ?thesis
    using chosen_pair_iff [OF assms] distinct_chosen_pairs [OF assms(1)] by simp
qed

lemma matchJobsToRuns_eq:
  "matchJobsToRuns runs jobs =
     settle_runs (chosen_pairs jobs runs) (chosen_pairs jobs runs) [] (snd (choose_runs jobs runs [] []))"
  using choose_runs_spec(1) [of jobs runs "[]" "[]"]
  by (cases "choose_runs jobs runs [] []") (simp add: matchJobsToRuns_def)

lemma matched_iff:
  assumes "distinct (map er_ID runs)" "run \<in> set runs"
  shows "map_of (fst (matchJobsToRuns runs jobs)) (er_ID run) = Some job \<longleftrightarrow> sole_claimant runs jobs run job"
proof (cases "only_match jobs run")
  case None
  then show ?thesis
    by (simp add: matchJobsToRuns_eq settle_runs_spec(2) [OF distinct_chosen_pairs] assms chosen_pairs_of
        sole_claimant_def only_match_iff [symmetric])
next
  case (Some job')
  then have "sole_claimant runs jobs run job \<Longrightarrow> job = job'"
    by (simp add: sole_claimant_def only_match_iff [symmetric])
  with job_to_runs_one [OF assms Some] Some show ?thesis
    by (auto simp: matchJobsToRuns_eq settle_runs_spec(2) [OF distinct_chosen_pairs] assms chosen_pairs_of)
qed

lemma ambiguous_set:
  assumes "distinct (map er_ID runs)"
  shows "set (snd (matchJobsToRuns runs jobs)) = er_ID ` {run \<in> set runs. \<not> (\<exists>job. sole_claimant runs jobs run job)}"
    (is "?amb = _")
proof -
  have eq: "?amb = er_ID ` {run \<in> set runs. only_match jobs run = None} \<union>
      fst ` {c \<in> set (chosen_pairs jobs runs). length (job_to_runs (chosen_pairs jobs runs) (rj_ID (snd c))) \<noteq> 1}"
    using settle_runs_spec(1) [OF distinct_chosen_pairs [OF assms, of jobs]] choose_runs_spec(2) [of jobs runs "[]" "[]"]
    by (simp add: matchJobsToRuns_eq)
  have unclaimed: "only_match jobs run = None \<or>
      (\<exists>job. only_match jobs run = Some job \<and> length (job_to_runs (chosen_pairs jobs runs) (rj_ID job)) \<noteq> 1) \<longleftrightarrow>
      \<not> (\<exists>job. sole_claimant runs jobs run job)" if "run \<in> set runs" for run
    using job_to_runs_one [OF assms that] by (cases "only_match jobs run") (auto simp: sole_claimant_def only_match_iff [symmetric])
  have "k \<in> ?amb \<longleftrightarrow> (\<exists>run \<in> set runs. er_ID run = k \<and> (only_match jobs run = None \<or>
      (\<exists>job. only_match jobs run = Some job \<and> length (job_to_runs (chosen_pairs jobs runs) (rj_ID job)) \<noteq> 1)))" for k
    unfolding eq by (auto simp: image_iff set_chosen_pairs)
  then show ?thesis using unclaimed by (auto simp: image_iff)
qed

lemma dom_matched: "distinct (map er_ID runs) \<Longrightarrow> dom (map_of (fst (matchJobsToRuns runs jobs))) \<subseteq> er_ID ` set runs"
  using settle_runs_spec(2) [OF distinct_chosen_pairs, of runs "chosen_pairs jobs runs" jobs "[]"]
  by (fastforce simp: matchJobsToRuns_eq set_chosen_pairs split: option.splits dest: map_of_SomeD)

section \<open>Properties\<close>

text \<open>
  C32: Matching is a bijection onto what is unambiguous: for runs with distinct ids, every run is
  either matched or reported as ambiguous and never both, and a run is matched with a job exactly
  when that job is its only candidate (same runner up to letter case and space, capture inside
  the job's time with a minute of slack) and no other run has the same job as its only candidate;
  so no job is given to two runs.
\<close>

theorem matchJobsToRuns_correct:
  assumes "distinct (map er_ID runs)" "matchJobsToRuns runs jobs = (matched, ambiguous)"
  shows "set (map er_ID runs) = dom (map_of matched) \<union> set ambiguous \<and> dom (map_of matched) \<inter> set ambiguous = {} \<and>
    (\<forall>run \<in> set runs. \<forall>job. map_of matched (er_ID run) = Some job \<longleftrightarrow> sole_claimant runs jobs run job)"
proof -
  have m: "\<forall>run \<in> set runs. \<forall>job. map_of matched (er_ID run) = Some job \<longleftrightarrow> sole_claimant runs jobs run job"
    using matched_iff [OF assms(1), of _ jobs] assms(2) by simp
  let ?sole = "\<lambda>run. \<exists>job. sole_claimant runs jobs run job"
  have matched: "er_ID run \<in> dom (map_of matched) \<longleftrightarrow> ?sole run" if "run \<in> set runs" for run
    using m that by auto
  have amb: "set ambiguous = er_ID ` {run \<in> set runs. \<not> ?sole run}"
    using ambiguous_set [OF assms(1), of jobs] assms(2) by simp
  have dom: "dom (map_of matched) \<subseteq> er_ID ` set runs"
    using dom_matched [OF assms(1), of jobs] assms(2) by simp
  have "er_ID ` set runs \<subseteq> dom (map_of matched) \<union> set ambiguous"
    unfolding amb using matched by blast
  moreover have "set ambiguous \<subseteq> er_ID ` set runs"
    unfolding amb by blast
  moreover have "dom (map_of matched) \<inter> set ambiguous = {}"
    unfolding amb using matched by blast
  ultimately have "set (map er_ID runs) = dom (map_of matched) \<union> set ambiguous" "dom (map_of matched) \<inter> set ambiguous = {}"
    using dom by auto
  with m show ?thesis by simp
qed

definition demo_pending :: "int64 \<Rightarrow> string \<Rightarrow> enrichmentRunRow" where
  "demo_pending i runner = \<lparr>er_ID = i, er_RunnerName = runner, er_CaptureStartedAt = Some (Instant 0),
     er_CaptureEndedAt = Some (Instant 5)\<rparr>"

definition demo_job :: runJob where
  "demo_job = \<lparr>rj_ID = 9, rj_Name = ''j'', rj_RunnerName = '' a'', rj_Conclusion = [], rj_StartedAt = Some (Instant 0),
     rj_CompletedAt = Some (Instant 5)\<rparr>"

theorem matchJobsToRuns_correct_witness:
  "\<exists>matched ambiguous. matchJobsToRuns [demo_pending 1 ''A'', demo_pending 2 ''B''] [demo_job] = (matched, ambiguous) \<and>
     map_of matched 1 = Some demo_job \<and> set ambiguous = {2}"
proof -
  let ?runs = "[demo_pending 1 ''A'', demo_pending 2 ''B'']"
  have m: "job_matches (demo_pending 1 ''A'') demo_job" "\<not> job_matches (demo_pending 2 ''B'') demo_job"
    by code_simp+
  have i: "er_ID (demo_pending i x) = i" for i x
    by (simp add: demo_pending_def)
  obtain matched ambiguous where r: "matchJobsToRuns ?runs [demo_job] = (matched, ambiguous)"
    by (cases "matchJobsToRuns ?runs [demo_job]")
  have "sole_claimant ?runs [demo_job] (demo_pending 1 ''A'') demo_job"
    "\<not> sole_claimant ?runs [demo_job] (demo_pending 2 ''B'') job" for job
    by (simp_all add: sole_claimant_def m)
  with matchJobsToRuns_correct [OF _ r]
  have c: "{1, 2} = dom (map_of matched) \<union> set ambiguous" "dom (map_of matched) \<inter> set ambiguous = {}"
    "map_of matched 1 = Some demo_job" "\<forall>job. map_of matched 2 \<noteq> Some job"
    by (simp_all add: i)
  then have "1 \<notin> set ambiguous" "2 \<notin> dom (map_of matched)"
    by auto
  moreover have "set ambiguous \<subseteq> {1, 2}" "2 \<in> dom (map_of matched) \<union> set ambiguous"
    using c(1) by blast+
  ultimately have "set ambiguous = {2}" by blast
  with r c show ?thesis by blast
qed

text \<open>
  C37: No pass of the workers reports success, whatever the tables hold: the job enrichment at its
  end asks for a listing that PostgreSQL refuses, so \<open>RunAll\<close> returns an error at every tick even
  where the passes before it all worked.
\<close>

theorem RunAll_never_succeeds: "\<not> is_ok (fst (RunAll r now w))"
proof
  assume "is_ok (fst (RunAll r now w))"
  then obtain w' where "RunAll r now w = (Inr (), w')"
    by (cases "RunAll r now w"; cases "fst (RunAll r now w)") auto
  then obtain v w' where "runJobEnrichment r now v = (Inr (), w')"
    by (auto simp: RunAll_def bind_op_ok wrap_err_ok)
  then obtain groups v' where "on_db (ListPendingEnrichmentGroups (wk_EnrichmentBatch r)) v = (Inr groups, v')"
    by (auto simp: runJobEnrichment_def bind_op_ok)
  then have "fst (ListPendingEnrichmentGroups (wk_EnrichmentBatch r) (wd_db v)) = Inr groups"
    by (auto simp: on_db_def split: prod.splits)
  with pending_groups_error show False by simp
qed

end
