(* ===== verification/Oidc.thy ===== *)
theory Oidc
  imports Configuration Types Base64 "HOL-Library.AList"
begin

text \<open>
  \<open>server/internal/oidc/verifier.go\<close>: verification of the token that GitHub Actions issues to a
  job. Parsing the token, checking its signature and its registered claims is the JWT library's
  (a parameter of \<open>Verify\<close>); fetching and decoding the key set is HTTP and JSON (the reply and a
  decoder are parameters). Modelled here: the verifier and its key cache, the choice of the key,
  the audience allowlist, the claims and the principal they give.

  A claim value is Go's \<open>any\<close> with the dynamic types the code distinguishes. A floating-point
  number is its exact value \<open>m * 2 ^ e\<close>; the conversion to \<open>int64\<close> truncates towards zero, and
  what it does out of range is left to the platform by Go, so it is a parameter.
\<close>

section \<open>Claims\<close>

datatype any =
    ANil
  | AString string
  | AFloat64 int int
  | AFloat32 int int
  | AInt64 int64
  | AInt int64
  | ANumber string
  | ABool bool
  | AList "any list"
  | AStrings "string list"
  | AOther string

type_synonym claims = "string \<rightharpoonup> any"

definition claimString :: "claims \<Rightarrow> string \<Rightarrow> string" where
  "claimString claims key =
     (case claims key of
        Some (AString s) \<Rightarrow> TrimSpace s
      | _ \<Rightarrow> [])"

definition float_trunc :: "int \<Rightarrow> int \<Rightarrow> int" where
  "float_trunc m e = (if 0 \<le> e then m * 2 ^ nat e else sgn m * (\<bar>m\<bar> div 2 ^ nat (- e)))"

definition float_to_int64 :: "(int \<Rightarrow> int \<Rightarrow> int64) \<Rightarrow> int \<Rightarrow> int \<Rightarrow> int64" where
  "float_to_int64 out_of_range m e =
     (let n = float_trunc m e in if in_int64 n then n else out_of_range m e)"

definition claimInt64 :: "(int \<Rightarrow> int \<Rightarrow> int64) \<Rightarrow> claims \<Rightarrow> string \<Rightarrow> int64 option" where
  "claimInt64 oor claims key =
     (case claims key of
        None \<Rightarrow> None
      | Some v \<Rightarrow>
          (case v of
             AFloat64 m e \<Rightarrow> Some (float_to_int64 oor m e)
           | AFloat32 m e \<Rightarrow> Some (float_to_int64 oor m e)
           | AInt64 n \<Rightarrow> Some n
           | AInt n \<Rightarrow> Some n
           | ANumber s \<Rightarrow> ParseInt s
           | AString s \<Rightarrow> ParseInt (TrimSpace s)
           | _ \<Rightarrow> None))"

section \<open>Principal\<close>

record principal =
  p_Repository :: string
  p_RepositoryID :: int64
  p_RepositoryOwnerID :: int64
  p_RepositoryVisibility :: string
  p_CommitSHA :: string
  p_RunID :: int64
  p_RunAttempt :: int64
  p_WorkflowName :: string
  p_WorkflowRef :: string
  p_WorkflowSHA :: string
  p_JobWorkflowRef :: string
  p_JobWorkflowSHA :: string
  p_EventName :: string
  p_Actor :: string
  p_ActorID :: int64
  p_Ref :: string
  p_HeadRef :: string
  p_Subject :: string
  p_RunnerEnvironment :: string

text \<open>\<open>x, ok := claimInt64(claims, key); if !ok || x <= 0\<close>: the identifier or the error.\<close>

definition positive_claim :: "(int \<Rightarrow> int \<Rightarrow> int64) \<Rightarrow> claims \<Rightarrow> string \<Rightarrow> int64 result" where
  "positive_claim oor claims key =
     (case claimInt64 oor claims key of
        None \<Rightarrow> Inl (NewError (''missing or invalid '' @ key @ '' claim''))
      | Some n \<Rightarrow> if n \<le> 0 then Inl (NewError (''missing or invalid '' @ key @ '' claim'')) else Inr n)"

definition principalFromClaims :: "(int \<Rightarrow> int \<Rightarrow> int64) \<Rightarrow> claims \<Rightarrow> principal result" where
  "principalFromClaims oor claims =
     (let repository = claimString claims ''repository'' in
      if repository = [] then Inl (NewError ''missing repository claim'') else
      bind_result (positive_claim oor claims ''run_id'') (\<lambda>runID.
      bind_result (positive_claim oor claims ''repository_id'') (\<lambda>repositoryID.
      bind_result (positive_claim oor claims ''repository_owner_id'') (\<lambda>repositoryOwnerID.
      let visibility = ToLower (claimString claims ''repository_visibility'') in
      if visibility \<noteq> ''public'' \<and> visibility \<noteq> ''private'' \<and> visibility \<noteq> ''internal''
      then Inl (NewError ''missing or invalid repository_visibility claim'') else
      bind_result (positive_claim oor claims ''run_attempt'') (\<lambda>runAttempt.
      bind_result (positive_claim oor claims ''actor_id'') (\<lambda>actorID.
      let commitSHA = claimString claims ''sha'' in
      if commitSHA = [] then Inl (NewError ''missing sha claim'') else
      Inr \<lparr>p_Repository = repository, p_RepositoryID = repositoryID,
           p_RepositoryOwnerID = repositoryOwnerID, p_RepositoryVisibility = visibility,
           p_CommitSHA = commitSHA, p_RunID = runID, p_RunAttempt = runAttempt,
           p_WorkflowName = claimString claims ''workflow'',
           p_WorkflowRef = claimString claims ''workflow_ref'',
           p_WorkflowSHA = claimString claims ''workflow_sha'',
           p_JobWorkflowRef = claimString claims ''job_workflow_ref'',
           p_JobWorkflowSHA = claimString claims ''job_workflow_sha'',
           p_EventName = claimString claims ''event_name'',
           p_Actor = claimString claims ''actor'', p_ActorID = actorID,
           p_Ref = claimString claims ''ref'', p_HeadRef = claimString claims ''head_ref'',
           p_Subject = claimString claims ''sub'',
           p_RunnerEnvironment = claimString claims ''runner_environment''\<rparr>))))))"

section \<open>Audiences\<close>

definition push_audience :: "string list \<Rightarrow> string \<Rightarrow> string list" where
  "push_audience out raw = (let audience = TrimSpace raw in if audience = [] then out else out @ [audience])"

fun push_items :: "string list \<Rightarrow> any list \<Rightarrow> string list" where
  "push_items out [] = out"
| "push_items out (item # items) =
     push_items (case item of AString s \<Rightarrow> push_audience out s | _ \<Rightarrow> out) items"

definition tokenAudiences :: "claims \<Rightarrow> string list" where
  "tokenAudiences claims =
     (case claims ''aud'' of
        None \<Rightarrow> []
      | Some (AString aud) \<Rightarrow> push_audience [] aud
      | Some (AList items) \<Rightarrow> push_items [] items
      | Some (AStrings items) \<Rightarrow> foldl push_audience [] items
      | Some _ \<Rightarrow> [])"

section \<open>Verifier and key cache\<close>

record rsa_key =
  rsa_N :: nat
  rsa_E :: int64

record jwk =
  jwk_KID :: string
  jwk_Kty :: string
  jwk_N :: string
  jwk_E :: string

record verifier =
  v_issuer :: string
  v_audiences :: "string list"
  v_jwksURL :: string
  v_cacheTTL :: duration
  v_keys :: "(string \<times> rsa_key) list"
  v_expiresAt :: instant

record oidc_config =
  oc_Issuer :: string
  oc_Audiences :: "string list"
  oc_JWKSURL :: string
  oc_CacheTTL :: duration

definition DefaultIssuer :: string where
  "DefaultIssuer = ''https://token.actions.githubusercontent.com''"

definition defaultJWKSPath :: string where
  "defaultJWKSPath = ''/.well-known/jwks''"

text \<open>The deduplicating loop of \<open>NewVerifier\<close>.\<close>

fun audience_loop :: "string list \<Rightarrow> string set \<Rightarrow> string list \<Rightarrow> string list" where
  "audience_loop [] seen audiences = audiences"
| "audience_loop (raw # rest) seen audiences =
     (let audience = TrimSpace raw
      in if audience = [] then audience_loop rest seen audiences
         else if audience \<in> seen then audience_loop rest seen audiences
         else audience_loop rest (insert audience seen) (audiences @ [audience]))"

definition NewVerifier :: "oidc_config \<Rightarrow> verifier" where
  "NewVerifier cfg =
     (let issuer0 = TrimSpace (oc_Issuer cfg);
          issuer = (if issuer0 = [] then DefaultIssuer else issuer0);
          url0 = TrimSpace (oc_JWKSURL cfg);
          jwksURL = (if url0 = [] then TrimRight issuer (CHR ''/'') @ defaultJWKSPath else url0);
          cacheTTL = (if oc_CacheTTL cfg \<le> 0 then hour else oc_CacheTTL cfg)
      in \<lparr>v_issuer = issuer, v_audiences = audience_loop (oc_Audiences cfg) {} [],
          v_jwksURL = jwksURL, v_cacheTTL = cacheTTL, v_keys = [], v_expiresAt = zero_time\<rparr>)"

definition isAudienceAllowed :: "verifier \<Rightarrow> claims \<Rightarrow> bool" where
  "isAudienceAllowed v claims =
     (if v_audiences v = [] then True
      else (let audiences = tokenAudiences claims
            in if audiences = [] then False
               else list_ex (\<lambda>audience. audience \<in> set (v_audiences v)) audiences))"

text \<open>The exponent is accumulated in Go's 64-bit \<open>int\<close>: \<open>e<<8 + int(b)\<close> wraps around.\<close>

definition exponent_loop :: "nat list \<Rightarrow> int64" where
  "exponent_loop bs = foldl (\<lambda>e b. wrap64 (e * 256 + int b)) 0 bs"

definition rsaKeyFromJWK :: "jwk \<Rightarrow> rsa_key result" where
  "rsaKeyFromJWK key =
     (case RawURLDecode (jwk_N key) of
        None \<Rightarrow> Inl (Wrap ''decode jwk modulus'' (External ''illegal base64 data''))
      | Some nBytes \<Rightarrow>
          (case RawURLDecode (jwk_E key) of
             None \<Rightarrow> Inl (Wrap ''decode jwk exponent'' (External ''illegal base64 data''))
           | Some eBytes \<Rightarrow>
               if eBytes = [] then Inl (NewError ''empty jwk exponent'')
               else (let e = exponent_loop eBytes
                     in if e \<le> 0 then Inl (NewError ''invalid jwk exponent'')
                        else Inr \<lparr>rsa_N = big_endian nBytes, rsa_E = e\<rparr>)))"

text \<open>
  What the HTTP client does with the request for the key set: it cannot be made, it fails on the
  way, or there is a reply with a status and a body.
\<close>

datatype http_reply =
    BadRequest string
  | TransportError string
  | Response int string

fun usable_keys :: "jwk list \<Rightarrow> (string \<times> rsa_key) list \<Rightarrow> (string \<times> rsa_key) list" where
  "usable_keys [] keys = keys"
| "usable_keys (k # ks) keys =
     (if blank (jwk_KID k) \<or> TrimSpace (jwk_Kty k) \<noteq> ''RSA'' then usable_keys ks keys
      else (case rsaKeyFromJWK k of
              Inl _ \<Rightarrow> usable_keys ks keys
            | Inr pubKey \<Rightarrow> usable_keys ks (AList.update (jwk_KID k) pubKey keys)))"

definition cachedKey :: "verifier \<Rightarrow> string \<Rightarrow> bool \<Rightarrow> instant \<Rightarrow> rsa_key option" where
  "cachedKey v kid allowStale now =
     (if \<not> allowStale \<and> time_After now (v_expiresAt v) then None else map_of (v_keys v) kid)"

text \<open>
  \<open>refreshJWKS\<close> holds the write lock throughout. \<open>now1\<close> is read for the freshness test, \<open>now2\<close>
  when the new expiry is set. The key map is an association list with distinct keys.
\<close>

definition refreshJWKS ::
  "(string \<Rightarrow> string + jwk list) \<Rightarrow> verifier \<Rightarrow> http_reply \<Rightarrow> instant \<Rightarrow> instant \<Rightarrow> unit result \<times> verifier" where
  "refreshJWKS decode v reply now1 now2 =
     (if time_Before now1 (v_expiresAt v) \<and> v_keys v \<noteq> [] then (Inr (), v)
      else (case reply of
              BadRequest m \<Rightarrow> (Inl (Wrap ''create jwks request'' (External m)), v)
            | TransportError m \<Rightarrow> (Inl (Wrap ''fetch jwks'' (External m)), v)
            | Response status body \<Rightarrow>
                if status < 200 \<or> 300 \<le> status
                then (Inl (NewError (''fetch jwks: unexpected status '' @ FormatInt status)), v)
                else (case decode body of
                        Inl m \<Rightarrow> (Inl (Wrap ''decode jwks'' (External m)), v)
                      | Inr doc \<Rightarrow>
                          (let keys = usable_keys doc []
                           in if keys = []
                              then (Inl (NewError ''jwks contains no usable rsa keys''), v)
                              else (Inr (), v\<lparr>v_keys := keys, v_expiresAt := time_Add now2 (v_cacheTTL v)\<rparr>)))))"

definition keyForKID ::
  "(string \<Rightarrow> string + jwk list) \<Rightarrow> verifier \<Rightarrow> http_reply \<Rightarrow> instant \<Rightarrow> instant \<Rightarrow> instant \<Rightarrow> string
     \<Rightarrow> rsa_key result \<times> verifier" where
  "keyForKID decode v reply now0 now1 now2 kid =
     (case cachedKey v kid False now0 of
        Some key \<Rightarrow> (Inr key, v)
      | None \<Rightarrow>
          (case refreshJWKS decode v reply now1 now2 of
             (Inl err, v') \<Rightarrow>
               (case cachedKey v' kid True now2 of
                  Some key \<Rightarrow> (Inr key, v')
                | None \<Rightarrow> (Inl err, v'))
           | (Inr _, v') \<Rightarrow>
               (case cachedKey v' kid True now2 of
                  Some key \<Rightarrow> (Inr key, v')
                | None \<Rightarrow> (Inl (NewError (''unknown key id '' @ kid)), v'))))"

section \<open>Verify\<close>

text \<open>
  The JWT library as the code uses it. \<open>jwt_decode\<close> splits the raw token, decodes the header and
  the claims and refuses every algorithm but RS256; it gives the \<open>kid\<close> header and the claims.
  \<open>jwt_check\<close> verifies the signature with the key and the registered claims with the expected
  issuer; it gives the \<open>Valid\<close> flag.
\<close>

record jwt_library =
  jwt_decode :: "string \<Rightarrow> (any option \<times> claims) result"
  jwt_check :: "string \<Rightarrow> rsa_key \<Rightarrow> string \<Rightarrow> instant \<Rightarrow> bool result"

definition kid_header :: "any option \<Rightarrow> string" where
  "kid_header h = (case h of Some (AString s) \<Rightarrow> s | _ \<Rightarrow> [])"

definition Verify ::
  "jwt_library \<Rightarrow> (int \<Rightarrow> int \<Rightarrow> int64) \<Rightarrow> (string \<Rightarrow> string + jwk list) \<Rightarrow> verifier \<Rightarrow> http_reply
     \<Rightarrow> instant \<Rightarrow> instant \<Rightarrow> instant \<Rightarrow> string \<Rightarrow> principal result \<times> verifier" where
  "Verify lib oor decode v reply now0 now1 now2 rawToken0 =
     (let rawToken = TrimSpace rawToken0 in
      if rawToken = [] then (Inl (NewError ''missing token''), v)
      else (case jwt_decode lib rawToken of
              Inl e \<Rightarrow> (Inl (Wrap ''verify token'' e), v)
            | Inr (header, claims) \<Rightarrow>
                (let kid = kid_header header in
                 if blank kid
                 then (Inl (Wrap ''verify token'' (NewError ''token missing kid header'')), v)
                 else (case keyForKID decode v reply now0 now1 now2 kid of
                         (Inl e, v') \<Rightarrow> (Inl (Wrap ''verify token'' e), v')
                       | (Inr key, v') \<Rightarrow>
                           (case jwt_check lib rawToken key (v_issuer v) now2 of
                              Inl e \<Rightarrow> (Inl (Wrap ''verify token'' e), v')
                            | Inr valid \<Rightarrow>
                                if \<not> valid then (Inl (NewError ''invalid token''), v')
                                else if \<not> isAudienceAllowed v claims
                                then (Inl (NewError ''invalid audience''), v')
                                else (principalFromClaims oor claims, v'))))))"

section \<open>Facts about claims\<close>

lemma claimString_trimmed: "TrimSpace (claimString claims key) = claimString claims key"
  by (simp add: claimString_def split: option.split any.split)

lemma positive_claim_ok: "positive_claim oor claims key = Inr n \<longleftrightarrow> claimInt64 oor claims key = Some n \<and> 0 < n"
  by (auto simp: positive_claim_def split: option.splits)

text \<open>A claim that the code takes as an identifier.\<close>

definition has_positive :: "(int \<Rightarrow> int \<Rightarrow> int64) \<Rightarrow> claims \<Rightarrow> string \<Rightarrow> bool" where
  "has_positive oor claims key \<longleftrightarrow> (\<exists>n. claimInt64 oor claims key = Some n \<and> 0 < n)"

definition visibilities :: "string list" where
  "visibilities = [''public'', ''private'', ''internal'']"

definition principal_ok :: "principal \<Rightarrow> bool" where
  "principal_ok p \<longleftrightarrow>
     p_Repository p \<noteq> [] \<and> TrimSpace (p_Repository p) = p_Repository p \<and>
     p_CommitSHA p \<noteq> [] \<and> TrimSpace (p_CommitSHA p) = p_CommitSHA p \<and>
     p_RepositoryVisibility p \<in> set visibilities \<and>
     0 < p_RepositoryID p \<and> 0 < p_RepositoryOwnerID p \<and> 0 < p_RunID p \<and> 0 < p_RunAttempt p \<and>
     0 < p_ActorID p"

lemmas principal_defs = principalFromClaims_def principal_ok_def visibilities_def

lemma principalFromClaims_principal_ok: "principalFromClaims oor claims = Inr p \<Longrightarrow> principal_ok p"
  by (auto simp: principal_defs Let_def bind_result_Inr positive_claim_ok claimString_trimmed
      split: if_splits)

lemma positive_claim_is_ok: "is_ok (positive_claim oor claims key) = has_positive oor claims key"
  by (auto simp: positive_claim_def has_positive_def split: option.splits)

lemma is_ok_bind: "is_ok (bind_result r f) \<longleftrightarrow> (\<exists>x. r = Inr x \<and> is_ok (f x))"
  by (cases r) auto

section \<open>Facts about audiences\<close>

lemma audience_loop_allow_loop: "audience_loop xs seen out = allow_loop xs seen out"
  by (induction xs arbitrary: seen out) (simp_all add: Let_def)

definition verifier_audiences :: "string list \<Rightarrow> string list" where
  "verifier_audiences xs = audience_loop xs {} []"

interpretation aud: allowlist verifier_audiences
  by unfold_locales
     (simp add: verifier_audiences_def audience_loop_allow_loop allow_loop_nub [where ys = "[]"])

lemma v_audiences_NewVerifier [simp]: "v_audiences (NewVerifier cfg) = verifier_audiences (oc_Audiences cfg)"
  by (simp add: NewVerifier_def verifier_audiences_def Let_def)

text \<open>The audiences of a token before they are trimmed.\<close>

definition raw_audiences :: "claims \<Rightarrow> string list" where
  "raw_audiences claims =
     (case claims ''aud'' of
        Some (AString aud) \<Rightarrow> [aud]
      | Some (AList items) \<Rightarrow> concat (map (\<lambda>i. case i of AString s \<Rightarrow> [s] | _ \<Rightarrow> []) items)
      | Some (AStrings items) \<Rightarrow> items
      | _ \<Rightarrow> [])"

lemma push_audience_items: "push_audience out raw = out @ nonblank_items [raw]"
  by (simp add: push_audience_def nonblank_items_def Let_def)

lemma foldl_push_audience: "foldl push_audience out raws = out @ nonblank_items raws"
  by (induction raws arbitrary: out) (simp_all add: push_audience_items nonblank_items_def)

lemma push_items_items:
  "push_items out items =
     out @ nonblank_items (concat (map (\<lambda>i. case i of AString s \<Rightarrow> [s] | _ \<Rightarrow> []) items))"
proof (induction items arbitrary: out)
  case Nil
  then show ?case by (simp add: nonblank_items_def)
next
  case (Cons i items)
  then show ?case
    by (cases i) (simp_all add: push_audience_items nonblank_items_def)
qed

lemma tokenAudiences_raw: "tokenAudiences claims = nonblank_items (raw_audiences claims)"
  by (auto simp: tokenAudiences_def raw_audiences_def push_audience_items push_items_items
      foldl_push_audience nonblank_items_def split: option.split any.split)

section \<open>Facts about keys\<close>

lemma wrap64_shift: "wrap64 (wrap64 i * 256 + b) = wrap64 (i * 256 + b)"
proof -
  have "wrap64 i = i + 2 ^ 64 * (- ((i + 2 ^ 63) div 2 ^ 64))"
    using div_mult_mod_eq [of "i + 2 ^ 63" "2 ^ 64"] by (simp add: wrap64_def algebra_simps)
  then have "wrap64 i * 256 + b = (i * 256 + b) + 2 ^ 64 * (- ((i + 2 ^ 63) div 2 ^ 64) * 256)"
    by (simp add: algebra_simps)
  then show ?thesis by (simp only: wrap64_add_multiple)
qed

lemma exponent_loop_big_endian: "exponent_loop bs = wrap64 (int (big_endian bs))"
proof (induction bs rule: rev_induct)
  case Nil
  then show ?case by (simp add: exponent_loop_def big_endian_def wrap64_id in_int64_def)
next
  case (snoc b bs)
  then show ?case by (simp add: exponent_loop_def big_endian_def wrap64_shift)
qed

lemma rsaKeyFromJWK_ok:
  "rsaKeyFromJWK key = Inr k \<longleftrightarrow>
   (\<exists>ns es. RawURLDecode (jwk_N key) = Some ns \<and> RawURLDecode (jwk_E key) = Some es \<and>
      0 < wrap64 (int (big_endian es)) \<and>
      k = \<lparr>rsa_N = big_endian ns, rsa_E = wrap64 (int (big_endian es))\<rparr>)"
proof -
  have "wrap64 (int (big_endian [])) = 0"
    by (simp add: big_endian_def wrap64_id in_int64_def)
  then show ?thesis
    by (fastforce simp: rsaKeyFromJWK_def exponent_loop_big_endian Let_def split: option.splits if_splits)
qed

text \<open>A key comes from an entry of the document.\<close>

definition key_of_document :: "jwk list \<Rightarrow> string \<Rightarrow> rsa_key \<Rightarrow> bool" where
  "key_of_document doc kid k \<longleftrightarrow>
     (\<exists>j \<in> set doc. jwk_KID j = kid \<and> \<not> blank kid \<and> TrimSpace (jwk_Kty j) = ''RSA'' \<and> rsaKeyFromJWK j = Inr k)"

lemma usable_keys_of_document:
  "map_of (usable_keys doc keys) kid = Some k \<Longrightarrow> map_of keys kid = Some k \<or> key_of_document doc kid k"
proof (induction doc keys rule: usable_keys.induct)
  case (1 keys)
  then show ?case by simp
next
  case (2 j doc keys)
  then show ?case
    by (fastforce simp: key_of_document_def AList.update_conv' split: if_splits sum.splits)
qed

lemma usable_keys_distinct: "distinct (map fst keys) \<Longrightarrow> distinct (map fst (usable_keys doc keys))"
  by (induction doc keys rule: usable_keys.induct) (auto simp: distinct_update split: sum.split)

lemma refreshJWKS_error: "refreshJWKS decode v reply now1 now2 = (Inl e, v') \<Longrightarrow> v' = v"
  by (auto simp: refreshJWKS_def Let_def split: if_splits http_reply.splits sum.splits)

lemma refreshJWKS_frame:
  "v_audiences (snd (refreshJWKS decode v reply now1 now2)) = v_audiences v"
  "v_issuer (snd (refreshJWKS decode v reply now1 now2)) = v_issuer v"
  by (auto simp: refreshJWKS_def Let_def split: http_reply.splits sum.splits)

text \<open>The key returned is the one that is then in the cache.\<close>

lemma keyForKID_cached: "keyForKID decode v reply now0 now1 now2 kid = (Inr k, v') \<Longrightarrow> map_of (v_keys v') kid = Some k"
  by (auto simp: keyForKID_def cachedKey_def split: option.splits prod.splits sum.splits if_splits)

section \<open>The cache over time\<close>

text \<open>
  Any number of requests refresh the shared verifier, each under the write lock, so the cache
  moves by whole refreshes. \<open>cache_history decode v0 replies v\<close> says that \<open>v\<close> can be the state
  after refreshes that received these replies.
\<close>

inductive cache_history :: "(string \<Rightarrow> string + jwk list) \<Rightarrow> verifier \<Rightarrow> http_reply list \<Rightarrow> verifier \<Rightarrow> bool"
  for decode :: "string \<Rightarrow> string + jwk list" and v0 :: verifier where
  start: "cache_history decode v0 [] v0"
| refresh: "cache_history decode v0 replies v \<Longrightarrow>
    cache_history decode v0 (replies @ [reply]) (snd (refreshJWKS decode v reply now1 now2))"

definition vouched :: "(string \<Rightarrow> string + jwk list) \<Rightarrow> http_reply list \<Rightarrow> string \<Rightarrow> rsa_key \<Rightarrow> bool" where
  "vouched decode replies kid k \<longleftrightarrow>
     (\<exists>status body doc. Response status body \<in> set replies \<and> 200 \<le> status \<and> status < 300 \<and>
        decode body = Inr doc \<and> key_of_document doc kid k)"

lemma vouched_mono: "vouched decode rs kid k \<Longrightarrow> set rs \<subseteq> set rs' \<Longrightarrow> vouched decode rs' kid k"
  by (auto simp: vouched_def)

lemma refreshJWKS_vouched:
  assumes "map_of (v_keys (snd (refreshJWKS decode v reply now1 now2))) kid = Some k"
  shows "map_of (v_keys v) kid = Some k \<or> vouched decode [reply] kid k"
  using assms usable_keys_of_document [of _ "[]" kid k]
  by (auto simp: refreshJWKS_def vouched_def Let_def not_le split: if_splits http_reply.splits sum.splits)

lemma cache_history_vouched:
  "cache_history decode v0 replies v \<Longrightarrow> map_of (v_keys v) kid = Some k \<Longrightarrow>
   map_of (v_keys v0) kid = Some k \<or> vouched decode replies kid k"
proof (induction rule: cache_history.induct)
  case start
  then show ?case by simp
next
  case (refresh replies v reply now1 now2)
  from refreshJWKS_vouched [OF refresh.prems] show ?case
    using refresh.IH vouched_mono [of decode replies kid k "replies @ [reply]"]
      vouched_mono [of decode "[reply]" kid k "replies @ [reply]"] by auto
qed

lemma cache_history_nonempty: "cache_history decode v0 replies v \<Longrightarrow> v_keys v0 \<noteq> [] \<Longrightarrow> v_keys v \<noteq> []"
  by (induction rule: cache_history.induct)
     (auto simp: refreshJWKS_def Let_def split: http_reply.splits sum.splits)

lemma keyForKID_history:
  "cache_history decode v0 replies v \<Longrightarrow>
   \<exists>replies'. cache_history decode v0 (replies @ replies') (snd (keyForKID decode v reply now0 now1 now2 kid))
     \<and> set replies' \<subseteq> {reply}"
proof (cases "cachedKey v kid False now0")
  case None
  assume "cache_history decode v0 replies v"
  then have "cache_history decode v0 (replies @ [reply]) (snd (refreshJWKS decode v reply now1 now2))"
    by (rule cache_history.refresh)
  with None show ?thesis
    by (intro exI [of _ "[reply]"]) (auto simp: keyForKID_def split: prod.splits sum.splits option.splits)
next
  case (Some k)
  assume "cache_history decode v0 replies v"
  with Some show ?thesis by (intro exI [of _ "[]"]) (simp add: keyForKID_def)
qed

section \<open>Properties\<close>

text \<open>
  A token's claims give a principal exactly when the repository and the commit are named,
  the visibility is one of the three that GitHub has (in any letter case), and the run, the
  repository, its owner, the attempt and the actor are given by positive identifiers; every
  principal then has trimmed names, a lower-case visibility and positive identifiers.
\<close>

theorem principalFromClaims_accepts:
  "is_ok (principalFromClaims oor claims) =
     (claimString claims ''repository'' \<noteq> [] \<and> claimString claims ''sha'' \<noteq> [] \<and>
      ToLower (claimString claims ''repository_visibility'') \<in> set visibilities \<and>
      list_all (has_positive oor claims)
        [''run_id'', ''repository_id'', ''repository_owner_id'', ''run_attempt'', ''actor_id''])
   \<and> list_all principal_ok (case principalFromClaims oor claims of Inl e \<Rightarrow> [] | Inr p \<Rightarrow> [p])"
proof -
  have "list_all principal_ok (case principalFromClaims oor claims of Inl e \<Rightarrow> [] | Inr p \<Rightarrow> [p])"
    by (simp add: principalFromClaims_principal_ok split: sum.split)
  moreover have "is_ok (principalFromClaims oor claims) =
     (claimString claims ''repository'' \<noteq> [] \<and> claimString claims ''sha'' \<noteq> [] \<and>
      ToLower (claimString claims ''repository_visibility'') \<in> set visibilities \<and>
      list_all (has_positive oor claims)
        [''run_id'', ''repository_id'', ''repository_owner_id'', ''run_attempt'', ''actor_id''])"
    by (auto simp: principalFromClaims_def visibilities_def Let_def is_ok_bind has_positive_def
        positive_claim_ok)
  ultimately show ?thesis by simp
qed

text \<open>
  A verifier that was configured with audiences lets a token pass exactly when one of the
  token's audiences, whatever shape the claim has (a string, a list of any values, a list of
  strings), equals one of the configured audiences up to surrounding white space, blank ones on
  either side never matching.
\<close>

theorem audience_allowed_iff:
  assumes "\<exists>x \<in> set (oc_Audiences cfg). \<not> blank x"
  shows "isAudienceAllowed (NewVerifier cfg) claims =
    (\<exists>x \<in> set (raw_audiences claims). \<not> blank x \<and>
       (\<exists>y \<in> set (oc_Audiences cfg). TrimSpace x = TrimSpace y))"
proof -
  let ?allowed = "verifier_audiences (oc_Audiences cfg)"
  have allowed: "set ?allowed = {TrimSpace y | y. y \<in> set (oc_Audiences cfg) \<and> \<not> blank y}"
    using aud.items [of "oc_Audiences cfg"] by (simp add: blank_def)
  have given: "set (tokenAudiences claims) = {TrimSpace x | x. x \<in> set (raw_audiences claims) \<and> \<not> blank x}"
    by (auto simp: tokenAudiences_raw nonblank_items_def blank_def)
  have "?allowed \<noteq> []"
    using assms allowed by force
  then have "isAudienceAllowed (NewVerifier cfg) claims \<longleftrightarrow> set (tokenAudiences claims) \<inter> set ?allowed \<noteq> {}"
    by (auto simp: isAudienceAllowed_def Let_def list_ex_iff)
  moreover have "blank x = blank y" if "TrimSpace x = TrimSpace y" for x y
    using that by (simp add: blank_def)
  ultimately show ?thesis
    unfolding given allowed by blast
qed

theorem audience_allowed_iff_witness:
  "isAudienceAllowed (NewVerifier \<lparr>oc_Issuer = [], oc_Audiences = ['' a ''], oc_JWKSURL = [], oc_CacheTTL = 0\<rparr>)
     [''aud'' \<mapsto> AList [ANil, AString ''a'']]"
proof -
  let ?cfg = "\<lparr>oc_Issuer = [], oc_Audiences = ['' a ''], oc_JWKSURL = [], oc_CacheTTL = 0\<rparr>"
  have a: "\<not> blank ''a'' \<and> \<not> blank '' a '' \<and> TrimSpace ''a'' = TrimSpace '' a ''"
    by code_simp
  then have "\<exists>x \<in> set (oc_Audiences ?cfg). \<not> blank x"
    by simp
  from audience_allowed_iff [OF this, of "[''aud'' \<mapsto> AList [ANil, AString ''a'']]"] a
  show ?thesis by (simp add: raw_audiences_def)
qed

text \<open>
  A published RSA key is read back exactly: when the modulus and the exponent are the
  unpadded URL-safe base64 of their big-endian bytes and the exponent is positive and below
  \<open>2 ^ 63\<close>, the key that the verifier uses has this modulus and this exponent.
\<close>

theorem rsaKeyFromJWK_value:
  assumes "\<forall>b \<in> set ns. b < 256" "\<forall>b \<in> set es. b < 256"
    and "jwk_N j = RawURLEncode ns" "jwk_E j = RawURLEncode es"
    and "0 < big_endian es" "big_endian es < 2 ^ 63"
  shows "rsaKeyFromJWK j = Inr \<lparr>rsa_N = big_endian ns, rsa_E = int (big_endian es)\<rparr>"
proof -
  have "wrap64 (int (big_endian es)) = int (big_endian es)"
    using assms(6) by (intro wrap64_id) (simp add: in_int64_def)
  then show ?thesis
    using assms(1-5) by (simp add: rsaKeyFromJWK_ok RawURLDecode_Encode)
qed

theorem rsaKeyFromJWK_value_witness:
  "rsaKeyFromJWK \<lparr>jwk_KID = ''k'', jwk_Kty = ''RSA'', jwk_N = ''ChQ'', jwk_E = ''AQAB''\<rparr>
     = Inr \<lparr>rsa_N = 2580, rsa_E = 65537\<rparr>"
proof -
  have n: "''ChQ'' = RawURLEncode [10, 20]" and e: "''AQAB'' = RawURLEncode [1, 0, 1]"
    by code_simp+
  have b: "big_endian [10, 20] = 2580" "big_endian [1, 0, 1] = 65537"
    by (simp_all add: big_endian_def)
  show ?thesis
    using rsaKeyFromJWK_value [of "[10, 20]" "[1, 0, 1]"
        "\<lparr>jwk_KID = ''k'', jwk_Kty = ''RSA'', jwk_N = ''ChQ'', jwk_E = ''AQAB''\<rparr>"] n e b
    by simp
qed

text \<open>
  The exponent is accumulated in a 64-bit integer without an overflow check: a published
  exponent of nine bytes, \<open>2 ^ 64 + 3\<close>, is accepted and becomes the exponent 3.
\<close>

theorem rsaKeyFromJWK_overflow:
  "rsaKeyFromJWK \<lparr>jwk_KID = ''k'', jwk_Kty = ''RSA'', jwk_N = ''ChQ'', jwk_E = ''AQAAAAAAAAAD''\<rparr>
     = Inr \<lparr>rsa_N = 2580, rsa_E = 3\<rparr>
   \<and> map_option big_endian (RawURLDecode ''AQAAAAAAAAAD'') = Some (2 ^ 64 + 3)"
  by code_simp

text \<open>
  A key that is in the cache stays usable when the key set cannot be fetched or read, even
  after the cache has expired: the lookup still returns it and the cache is unchanged.
\<close>

theorem keyForKID_survives_failed_refresh:
  assumes "map_of (v_keys v) kid = Some k"
    and "fst (refreshJWKS decode v reply now1 now2) = Inl e"
  shows "keyForKID decode v reply now0 now1 now2 kid = (Inr k, v)"
proof (cases "refreshJWKS decode v reply now1 now2")
  case (Pair r v')
  with assms have "v' = v" "r = Inl e"
    by (auto dest: refreshJWKS_error)
  with Pair assms show ?thesis
    by (simp add: keyForKID_def cachedKey_def split: option.split)
qed

text \<open>A verifier whose cache holds one key until the instant 10.\<close>

definition demo_verifier :: verifier where
  "demo_verifier = (NewVerifier \<lparr>oc_Issuer = [], oc_Audiences = [], oc_JWKSURL = [], oc_CacheTTL = 0\<rparr>)
     \<lparr>v_keys := [(''k'', \<lparr>rsa_N = 33, rsa_E = 3\<rparr>)], v_expiresAt := Instant 10\<rparr>"

theorem keyForKID_survives_failed_refresh_witness:
  "keyForKID (\<lambda>_. Inr []) demo_verifier (TransportError ''timeout'') (Instant 20) (Instant 21) (Instant 22) ''k''
     = (Inr \<lparr>rsa_N = 33, rsa_E = 3\<rparr>, demo_verifier)"
  by (rule keyForKID_survives_failed_refresh [where e = "Wrap ''fetch jwks'' (External ''timeout'')"])
     code_simp+

text \<open>
  C40: While the cache is fresh and not empty, a key that is not in it is refused whatever the
  issuer publishes: the refresh that the miss asks for returns without fetching, so a key that
  was rotated in is unknown until the cache expires.
\<close>

theorem keyForKID_fresh_cache_misses_rotation:
  assumes "v_keys v \<noteq> []" "map_of (v_keys v) kid = None"
    and "time_Before now1 (v_expiresAt v)"
  shows "keyForKID decode v reply now0 now1 now2 kid = (Inl (NewError (''unknown key id '' @ kid)), v)"
  using assms by (simp add: keyForKID_def refreshJWKS_def cachedKey_def)

theorem keyForKID_fresh_cache_misses_rotation_witness:
  "keyForKID (\<lambda>_. Inr [\<lparr>jwk_KID = ''new'', jwk_Kty = ''RSA'', jwk_N = ''ChQ'', jwk_E = ''AQAB''\<rparr>])
     demo_verifier (Response 200 []) (Instant 1) (Instant 2) (Instant 3) ''new''
     = (Inl (NewError (''unknown key id '' @ ''new'')), demo_verifier)"
  by (rule keyForKID_fresh_cache_misses_rotation) code_simp+

lemma keyForKID_vouched:
  assumes "cache_history decode (NewVerifier cfg) replies v"
    and "keyForKID decode v reply now0 now1 now2 kid = (Inr k, v')"
  shows "vouched decode (replies @ [reply]) kid k"
proof -
  obtain replies' where h: "cache_history decode (NewVerifier cfg) (replies @ replies') v'"
    and sub: "set replies' \<subseteq> {reply}"
    using keyForKID_history [OF assms(1), of reply now0 now1 now2 kid] assms(2) by auto
  have "v_keys (NewVerifier cfg) = []"
    by (simp add: NewVerifier_def Let_def)
  then have "vouched decode (replies @ replies') kid k"
    using cache_history_vouched [OF h keyForKID_cached [OF assms(2)]] by simp
  then show ?thesis
    by (rule vouched_mono) (use sub in auto)
qed

text \<open>
  Provenance of keys: after any history of refreshes of a verifier that started with an
  empty cache, a key that a lookup returns was published under that key id as an RSA key in a
  successful reply of the history, or in the reply to this lookup.
\<close>

theorem keyForKID_provenance:
  assumes "cache_history decode (NewVerifier cfg) replies v"
    and "keyForKID decode v reply now0 now1 now2 kid = (Inr k, v')"
  shows "vouched decode (replies @ [reply]) kid k"
  by (rule keyForKID_vouched [OF assms])

theorem keyForKID_provenance_witness:
  "vouched (\<lambda>_. Inr [\<lparr>jwk_KID = ''k'', jwk_Kty = ''RSA'', jwk_N = ''ChQ'', jwk_E = ''AQAB''\<rparr>])
     ([] @ [Response 200 []]) ''k'' \<lparr>rsa_N = 2580, rsa_E = 65537\<rparr>"
proof -
  let ?cfg = "\<lparr>oc_Issuer = [], oc_Audiences = [], oc_JWKSURL = [], oc_CacheTTL = 0\<rparr>"
  let ?decode = "\<lambda>_ :: string. Inr [\<lparr>jwk_KID = ''k'', jwk_Kty = ''RSA'', jwk_N = ''ChQ'', jwk_E = ''AQAB''\<rparr>] :: string + jwk list"
  have "fst (keyForKID ?decode (NewVerifier ?cfg) (Response 200 []) (Instant 1) (Instant 2) (Instant 3) ''k'')
      = Inr \<lparr>rsa_N = 2580, rsa_E = 65537\<rparr>"
    by code_simp
  then obtain v' where "keyForKID ?decode (NewVerifier ?cfg) (Response 200 []) (Instant 1) (Instant 2) (Instant 3) ''k''
      = (Inr \<lparr>rsa_N = 2580, rsa_E = 65537\<rparr>, v')"
    by (metis prod.collapse)
  then show ?thesis
    by (rule keyForKID_provenance [OF cache_history.start])
qed

text \<open>
  C11: Verification is sound: a token that yields a principal, at any point of the verifier's
  life, was accepted by the JWT library (signature and issuer) under a key that the issuer
  published for the token's non-blank key id, its audience was allowed, and the principal is
  the one its claims describe, in normal form.
\<close>

theorem Verify_sound:
  assumes "cache_history decode (NewVerifier cfg) replies v"
    and "Verify lib oor decode v reply now0 now1 now2 raw = (Inr p, v')"
  shows "\<exists>kid claims key. jwt_decode lib (TrimSpace raw) = Inr (Some (AString kid), claims) \<and> \<not> blank kid \<and>
    vouched decode (replies @ [reply]) kid key \<and>
    jwt_check lib (TrimSpace raw) key (v_issuer v) now2 = Inr True \<and>
    isAudienceAllowed v claims \<and> principalFromClaims oor claims = Inr p \<and> principal_ok p"
proof -
  from assms(2) obtain header claims key v'' where d: "jwt_decode lib (TrimSpace raw) = Inr (header, claims)"
    and k: "\<not> blank (kid_header header)" "keyForKID decode v reply now0 now1 now2 (kid_header header) = (Inr key, v'')"
    and c: "jwt_check lib (TrimSpace raw) key (v_issuer v) now2 = Inr True" "isAudienceAllowed v claims"
      "principalFromClaims oor claims = Inr p"
    by (auto simp: Verify_def Let_def split: if_splits sum.splits prod.splits)
  have "header = Some (AString (kid_header header))"
    using k(1) by (auto simp: kid_header_def blank_def split: option.splits any.splits)
  with d k c principalFromClaims_principal_ok [OF c(3)] keyForKID_vouched [OF assms(1) k(2)]
  show ?thesis by metis
qed

text \<open>A token of a workflow run, for the example.\<close>

definition demo_claims :: claims where
  "demo_claims = map_of
     [(''repository'', AString ''o/r''), (''run_id'', AString ''7''), (''repository_id'', AFloat64 5 0),
      (''repository_owner_id'', AInt64 3), (''repository_visibility'', AString ''Private''),
      (''run_attempt'', ANumber ''1''), (''actor_id'', AInt 9), (''sha'', AString ''abc''),
      (''aud'', AString ''demo'')]"

definition demo_jwt :: jwt_library where
  "demo_jwt = \<lparr>jwt_decode = (\<lambda>raw. if raw = ''t'' then Inr (Some (AString ''k''), demo_claims)
                                else Inl (External ''malformed'')),
               jwt_check = (\<lambda>raw key issuer now. Inr (raw = ''t'' \<and> rsa_N key = 2580))\<rparr>"

definition demo_decode :: "string \<Rightarrow> string + jwk list" where
  "demo_decode body = Inr [\<lparr>jwk_KID = ''k'', jwk_Kty = ''RSA'', jwk_N = ''ChQ'', jwk_E = ''AQAB''\<rparr>]"

definition demo_config :: oidc_config where
  "demo_config = \<lparr>oc_Issuer = [], oc_Audiences = [''demo''], oc_JWKSURL = [], oc_CacheTTL = 0\<rparr>"

lemma Verify_demo:
  "(case fst (Verify demo_jwt (\<lambda>_ _. 0) demo_decode (NewVerifier demo_config) (Response 200 [])
       (Instant 1) (Instant 2) (Instant 3) '' t '') of
      Inl e \<Rightarrow> False | Inr p \<Rightarrow> p_RepositoryVisibility p = ''private'')"
  by code_simp

theorem Verify_sound_witness:
  "\<exists>kid claims key p. jwt_decode demo_jwt (TrimSpace '' t '') = Inr (Some (AString kid), claims) \<and>
    vouched demo_decode [Response 200 []] kid key \<and>
    principalFromClaims (\<lambda>_ _. 0) claims = Inr p \<and> p_RepositoryVisibility p = ''private''"
proof -
  obtain p v' where v: "Verify demo_jwt (\<lambda>_ _. 0) demo_decode (NewVerifier demo_config)
     (Response 200 []) (Instant 1) (Instant 2) (Instant 3) '' t '' = (Inr p, v')"
    and p: "p_RepositoryVisibility p = ''private''"
    using Verify_demo by (fastforce split: sum.splits simp: prod_eq_iff)
  from Verify_sound [OF cache_history.start v] p show ?thesis
    by auto
qed

end
