(* ===== verification/Runs_Auth.thy ===== *)
theory Runs_Auth
  imports Oidc Key_Parsing
begin

text \<open>
  \<open>server/internal/runsauth/tokens.go\<close>: the upload tokens. A runner exchanges its OIDC token for
  an upload token that is bound to the hash of the payload it is going to send; the ingest
  endpoint verifies the upload token. Signing, parsing and checking a token and reading a private
  key are library calls: they are the records \<open>jwt_signer\<close> and \<open>key_reader\<close> (of \<open>Key_Parsing\<close>), and
  what the code relies on is \<open>signer_contract\<close>.
\<close>

section \<open>Claims and requests\<close>

definition tokenAudience :: string where
  "tokenAudience = ''ghapp-demo:runs-upload''"

record uploadClaims =
  u_Repository :: string
  u_RepositoryID :: int64
  u_RepositoryOwnerID :: int64
  u_RepositoryVisibility :: string
  u_CommitSHA :: string
  u_RunID :: int64
  u_RunAttempt :: int64
  u_WorkflowName :: string
  u_WorkflowRef :: string
  u_WorkflowSHA :: string
  u_JobWorkflowRef :: string
  u_JobWorkflowSHA :: string
  u_EventName :: string
  u_Actor :: string
  u_ActorID :: int64
  u_Ref :: string
  u_HeadRef :: string
  u_Subject :: string
  u_RunnerEnvironment :: string
  u_PayloadSHA256 :: string
  u_ExecutionID :: string
  u_JobName :: string
  u_JobKey :: string
  u_RunnerName :: string
  u_RunnerOS :: string
  u_CaptureStartedAt :: string
  u_CaptureEndedAt :: string
  u_GitHubJobID :: "int64 option"
  u_Issuer :: string
  u_Audience :: "string list"
  u_IssuedAt :: "instant option"
  u_NotBefore :: "instant option"
  u_ExpiresAt :: "instant option"

record uploadRequest =
  q_PayloadSHA256 :: string
  q_ExecutionID :: string
  q_JobName :: string
  q_JobKey :: string
  q_RunnerName :: string
  q_RunnerOS :: string
  q_CaptureStartedAt :: string
  q_CaptureEndedAt :: string

section \<open>The libraries\<close>

text \<open>
  \<open>SignedString\<close> of a token with these claims; \<open>ParseWithClaims\<close> with the public key, restricted
  to RS256, the issuer, the audience and the time, giving the claims and the \<open>Valid\<close> flag.
\<close>

record ('sk, 'pk) jwt_signer =
  public_key :: "'sk \<Rightarrow> 'pk"
  sign_claims :: "'sk \<Rightarrow> uploadClaims \<Rightarrow> string result"
  parse_claims :: "string \<Rightarrow> 'pk \<Rightarrow> string \<Rightarrow> string \<Rightarrow> instant \<Rightarrow> (uploadClaims \<times> bool) result"

text \<open>\<open>jwt.NewNumericDate\<close> keeps whole seconds.\<close>

definition NewNumericDate :: "instant \<Rightarrow> instant option" where
  "NewNumericDate t = Some (truncate_second t)"

text \<open>The validator's conditions on the registered claims: a missing date is not checked.\<close>

definition registered_ok :: "uploadClaims \<Rightarrow> string \<Rightarrow> string \<Rightarrow> instant \<Rightarrow> bool" where
  "registered_ok c iss aud now \<longleftrightarrow>
     u_Issuer c = iss \<and> aud \<in> set (u_Audience c) \<and>
     (case u_ExpiresAt c of None \<Rightarrow> True | Some exp \<Rightarrow> time_Before now exp) \<and>
     (case u_NotBefore c of None \<Rightarrow> True | Some nbf \<Rightarrow> \<not> time_Before now nbf)"

text \<open>
  What the code relies on: a token that was signed is not blank and has no surrounding white
  space (it is base64 and dots); parsing it under the matching key gives back its claims when
  the registered claims are acceptable, and an error otherwise.
\<close>

definition signer_contract :: "('sk, 'pk) jwt_signer \<Rightarrow> bool" where
  "signer_contract lib \<longleftrightarrow>
     (\<forall>sk c raw iss aud now. sign_claims lib sk c = Inr raw \<longrightarrow>
        raw \<noteq> [] \<and> TrimSpace raw = raw \<and>
        (if registered_ok c iss aud now
         then parse_claims lib raw (public_key lib sk) iss aud now = Inr (c, True)
         else \<not> is_ok (parse_claims lib raw (public_key lib sk) iss aud now)))"

section \<open>Token manager\<close>

record ('sk, 'pk) tokenManager =
  m_issuer :: string
  m_privateKey :: 'sk
  m_publicKey :: 'pk
  m_ttl :: duration

definition NewTokenManagerWithTTL ::
  "('b, 'sk) key_reader \<Rightarrow> ('sk, 'pk) jwt_signer \<Rightarrow> string \<Rightarrow> string \<Rightarrow> duration
     \<Rightarrow> ('sk, 'pk) tokenManager result" where
  "NewTokenManagerWithTTL rd lib appID appPrivateKeyPEM ttl0 =
     (let issuer = TrimSpace appID in
      if issuer = [] then Inl (NewError ''missing app id'')
      else (let ttl = (if ttl0 \<le> 0 then 5 * minute else ttl0) in
            bind_result (parseRSAPrivateKey rd appPrivateKeyPEM) (\<lambda>privateKey.
            Inr \<lparr>m_issuer = issuer, m_privateKey = privateKey,
                 m_publicKey = public_key lib privateKey, m_ttl = ttl\<rparr>)))"

definition NewTokenManager ::
  "('b, 'sk) key_reader \<Rightarrow> ('sk, 'pk) jwt_signer \<Rightarrow> string \<Rightarrow> string \<Rightarrow> ('sk, 'pk) tokenManager result" where
  "NewTokenManager rd lib appID appPrivateKeyPEM =
     NewTokenManagerWithTTL rd lib appID appPrivateKeyPEM (5 * minute)"

text \<open>The claims that \<open>IssueUploadToken\<close> signs.\<close>

definition upload_claims ::
  "('sk, 'pk) tokenManager \<Rightarrow> principal \<Rightarrow> uploadRequest \<Rightarrow> instant \<Rightarrow> uploadClaims" where
  "upload_claims m p req now =
     \<lparr>u_Repository = p_Repository p, u_RepositoryID = p_RepositoryID p,
      u_RepositoryOwnerID = p_RepositoryOwnerID p, u_RepositoryVisibility = p_RepositoryVisibility p,
      u_CommitSHA = p_CommitSHA p, u_RunID = p_RunID p, u_RunAttempt = p_RunAttempt p,
      u_WorkflowName = p_WorkflowName p, u_WorkflowRef = p_WorkflowRef p,
      u_WorkflowSHA = p_WorkflowSHA p, u_JobWorkflowRef = p_JobWorkflowRef p,
      u_JobWorkflowSHA = p_JobWorkflowSHA p, u_EventName = p_EventName p, u_Actor = p_Actor p,
      u_ActorID = p_ActorID p, u_Ref = p_Ref p, u_HeadRef = p_HeadRef p, u_Subject = p_Subject p,
      u_RunnerEnvironment = p_RunnerEnvironment p, u_PayloadSHA256 = q_PayloadSHA256 req,
      u_ExecutionID = q_ExecutionID req, u_JobName = q_JobName req, u_JobKey = q_JobKey req,
      u_RunnerName = q_RunnerName req, u_RunnerOS = q_RunnerOS req,
      u_CaptureStartedAt = q_CaptureStartedAt req, u_CaptureEndedAt = q_CaptureEndedAt req,
      u_GitHubJobID = None, u_Issuer = m_issuer m, u_Audience = [tokenAudience],
      u_IssuedAt = NewNumericDate now, u_NotBefore = NewNumericDate now,
      u_ExpiresAt = NewNumericDate (time_Add now (m_ttl m))\<rparr>"

definition IssueUploadToken ::
  "('sk, 'pk) jwt_signer \<Rightarrow> ('sk, 'pk) tokenManager \<Rightarrow> principal \<Rightarrow> uploadRequest \<Rightarrow> instant
     \<Rightarrow> (string \<times> instant) result" where
  "IssueUploadToken lib m p req now =
     (let expiresAt = time_Add now (m_ttl m);
          claims = upload_claims m p req now
      in (case sign_claims lib (m_privateKey m) claims of
            Inl e \<Rightarrow> Inl (Wrap ''sign upload token'' e)
          | Inr rawToken \<Rightarrow> Inr (rawToken, expiresAt)))"

definition VerifyUploadToken ::
  "('sk, 'pk) jwt_signer \<Rightarrow> ('sk, 'pk) tokenManager \<Rightarrow> string \<Rightarrow> instant \<Rightarrow> uploadClaims result" where
  "VerifyUploadToken lib m rawToken0 now =
     (let rawToken = TrimSpace rawToken0 in
      if rawToken = [] then Inl (NewError ''missing token'')
      else (case parse_claims lib rawToken (m_publicKey m) (m_issuer m) tokenAudience now of
              Inl e \<Rightarrow> Inl (Wrap ''verify upload token'' e)
            | Inr (claims, valid) \<Rightarrow>
                if \<not> valid then Inl (NewError ''invalid upload token'')
                else if blank (u_Repository claims)
                then Inl (NewError ''upload token missing repository claim'')
                else if blank (u_CommitSHA claims)
                then Inl (NewError ''upload token missing sha claim'')
                else if u_RunID claims \<le> 0
                then Inl (NewError ''upload token missing run_id claim'')
                else if blank (u_PayloadSHA256 claims)
                then Inl (NewError ''upload token missing payload_sha256 claim'')
                else if blank (u_ExecutionID claims)
                then Inl (NewError ''upload token missing execution_id claim'')
                else if u_RepositoryID claims \<le> 0
                then Inl (NewError ''upload token missing repository_id claim'')
                else if u_RepositoryOwnerID claims \<le> 0
                then Inl (NewError ''upload token missing repository_owner_id claim'')
                else if u_RunAttempt claims \<le> 0
                then Inl (NewError ''upload token missing run_attempt claim'')
                else Inr claims))"

section \<open>Facts\<close>

text \<open>The claims that the ingest endpoint may rely on.\<close>

definition claims_ok :: "uploadClaims \<Rightarrow> bool" where
  "claims_ok c \<longleftrightarrow>
     \<not> blank (u_Repository c) \<and> \<not> blank (u_CommitSHA c) \<and> \<not> blank (u_PayloadSHA256 c) \<and>
     \<not> blank (u_ExecutionID c) \<and> 0 < u_RunID c \<and> 0 < u_RepositoryID c \<and>
     0 < u_RepositoryOwnerID c \<and> 0 < u_RunAttempt c"

lemma VerifyUploadToken_iff:
  "VerifyUploadToken lib m raw now = Inr c \<longleftrightarrow>
     TrimSpace raw \<noteq> [] \<and> claims_ok c \<and>
     parse_claims lib (TrimSpace raw) (m_publicKey m) (m_issuer m) tokenAudience now = Inr (c, True)"
proof (cases "parse_claims lib (TrimSpace raw) (m_publicKey m) (m_issuer m) tokenAudience now")
  case (Inl e)
  then show ?thesis by (simp add: VerifyUploadToken_def Let_def)
next
  case (Inr r)
  obtain c' valid where "r = (c', valid)" by (cases r)
  with Inr show ?thesis
    by (cases valid; cases "c' = c") (auto simp: VerifyUploadToken_def claims_ok_def Let_def)
qed

lemma NewTokenManagerWithTTL_ok:
  "NewTokenManagerWithTTL rd lib appID pem ttl = Inr m \<Longrightarrow>
     m_publicKey m = public_key lib (m_privateKey m) \<and> 0 < m_ttl m \<and>
     m_issuer m = TrimSpace appID \<and> m_issuer m \<noteq> []"
  by (auto simp: NewTokenManagerWithTTL_def Let_def bind_result_Inr duration_defs split: if_splits)

lemma signer_contractD:
  assumes "signer_contract lib" "sign_claims lib sk c = Inr raw"
  shows "raw \<noteq> []" "TrimSpace raw = raw"
    "registered_ok c iss aud now \<Longrightarrow> parse_claims lib raw (public_key lib sk) iss aud now = Inr (c, True)"
    "\<not> registered_ok c iss aud now \<Longrightarrow> \<not> is_ok (parse_claims lib raw (public_key lib sk) iss aud now)"
  using assms(1) [unfolded signer_contract_def, rule_format, OF assms(2)]
  by (simp_all split: if_splits)

lemma registered_ok_upload_claims:
  "registered_ok (upload_claims m p req now) (m_issuer m) tokenAudience later \<longleftrightarrow>
     truncate_second now \<le> later \<and> later < truncate_second (time_Add now (m_ttl m))"
  by (auto simp: registered_ok_def upload_claims_def NewNumericDate_def time_Before_def)

lemma claims_ok_upload_claims:
  assumes "principal_ok p" "\<not> blank (q_PayloadSHA256 req)" "\<not> blank (q_ExecutionID req)"
  shows "claims_ok (upload_claims m p req now)"
  using assms by (auto simp: claims_ok_def upload_claims_def principal_ok_def blank_def)

section \<open>Properties\<close>

text \<open>
  C24: Round trip: a token that is issued for a principal of the OIDC verifier and a request
  with a payload hash and an execution id is accepted, by the manager that issued it, from the
  second of its issue until the second of its expiry, and gives back exactly the principal's and
  the request's data. Outside this interval it is refused.
\<close>

theorem upload_token_roundtrip:
  assumes "signer_contract lib" "NewTokenManagerWithTTL rd lib appID pem ttl = Inr m"
    and "principal_ok p" "\<not> blank (q_PayloadSHA256 req)" "\<not> blank (q_ExecutionID req)"
    and "IssueUploadToken lib m p req now = Inr (raw, expiresAt)"
  shows "if truncate_second now \<le> later \<and> later < truncate_second expiresAt
    then VerifyUploadToken lib m raw later = Inr (upload_claims m p req now)
    else \<not> is_ok (VerifyUploadToken lib m raw later)"
proof -
  from assms(6) have s: "sign_claims lib (m_privateKey m) (upload_claims m p req now) = Inr raw"
    and e: "expiresAt = time_Add now (m_ttl m)"
    by (auto simp: IssueUploadToken_def Let_def split: sum.splits)
  note key = NewTokenManagerWithTTL_ok [OF assms(2)]
  note sd = signer_contractD(1,2) [OF assms(1) s]
    signer_contractD(3,4) [OF assms(1) s, of "m_issuer m" tokenAudience later]
  have "claims_ok (upload_claims m p req now)"
    using assms(3-5) by (rule claims_ok_upload_claims)
  with sd key have "VerifyUploadToken lib m raw later = Inr c \<longleftrightarrow>
      registered_ok (upload_claims m p req now) (m_issuer m) tokenAudience later \<and> c = upload_claims m p req now" for c
    by (cases "registered_ok (upload_claims m p req now) (m_issuer m) tokenAudience later")
       (auto simp: VerifyUploadToken_iff)
  then show ?thesis
    by (auto simp: registered_ok_upload_claims e is_ok_def split: sum.split)
qed

text \<open>A signer that issues one token, for the example.\<close>

definition demo_principal :: principal where
  "demo_principal =
     \<lparr>p_Repository = ''o/r'', p_RepositoryID = 5, p_RepositoryOwnerID = 3, p_RepositoryVisibility = ''private'',
      p_CommitSHA = ''abc'', p_RunID = 7, p_RunAttempt = 1, p_WorkflowName = ''ci'', p_WorkflowRef = [],
      p_WorkflowSHA = [], p_JobWorkflowRef = [], p_JobWorkflowSHA = [], p_EventName = ''push'',
      p_Actor = ''a'', p_ActorID = 9, p_Ref = ''refs/heads/main'', p_HeadRef = [], p_Subject = [],
      p_RunnerEnvironment = ''github-hosted''\<rparr>"

definition demo_request :: uploadRequest where
  "demo_request = \<lparr>q_PayloadSHA256 = ''ff'', q_ExecutionID = ''e1'', q_JobName = ''build'', q_JobKey = ''build'',
     q_RunnerName = ''r'', q_RunnerOS = ''Linux'', q_CaptureStartedAt = [], q_CaptureEndedAt = []\<rparr>"

definition demo_reader :: "(string, unit) key_reader" where
  "demo_reader = \<lparr>pem_Decode = Some, ParsePKCS1 = (\<lambda>_. Inr ()), ParsePKCS8 = (\<lambda>_. Inr None)\<rparr>"

definition demo_manager :: "(unit, unit) tokenManager" where
  "demo_manager = \<lparr>m_issuer = ''42'', m_privateKey = (), m_publicKey = (), m_ttl = 5 * minute\<rparr>"

definition demo_token_claims :: uploadClaims where
  "demo_token_claims = upload_claims demo_manager demo_principal demo_request (Instant 1500000000)"

definition signer_of :: "uploadClaims \<Rightarrow> (unit, unit) jwt_signer" where
  "signer_of known =
     \<lparr>public_key = (\<lambda>_. ()),
      sign_claims = (\<lambda>_ c. if c = known then Inr ''h.p.s'' else Inl (External ''unsupported'')),
      parse_claims = (\<lambda>raw _ iss aud now.
        if raw = ''h.p.s'' \<and> registered_ok known iss aud now then Inr (known, True)
        else Inl (External ''invalid''))\<rparr>"

lemma signer_of_contract: "signer_contract (signer_of known)"
proof -
  have "TrimSpace ''h.p.s'' = ''h.p.s''"
    by code_simp
  then show ?thesis
    by (auto simp: signer_contract_def signer_of_def split: if_splits)
qed

definition demo_signer :: "(unit, unit) jwt_signer" where
  "demo_signer = signer_of demo_token_claims"

lemma demo_signer_contract: "signer_contract demo_signer"
  by (simp add: demo_signer_def signer_of_contract)

lemma demo_issue:
  "IssueUploadToken demo_signer demo_manager demo_principal demo_request (Instant 1500000000)
     = Inr (''h.p.s'', Instant 301500000000)"
  by (simp add: IssueUploadToken_def demo_signer_def signer_of_def demo_token_claims_def demo_manager_def
      time_Add_def duration_defs Let_def)

theorem upload_token_roundtrip_witness:
  "map_sum id u_PayloadSHA256 (VerifyUploadToken demo_signer demo_manager ''h.p.s'' (Instant 300999999999)) = Inr ''ff''
   \<and> \<not> is_ok (VerifyUploadToken demo_signer demo_manager ''h.p.s'' (Instant 301000000000))"
proof -
  have "NewTokenManagerWithTTL demo_reader demo_signer '' 42'' ''key'' (5 * minute) = Inr demo_manager"
    by code_simp
  moreover have "principal_ok demo_principal" "\<not> blank (q_PayloadSHA256 demo_request)" "\<not> blank (q_ExecutionID demo_request)"
    by code_simp+
  ultimately have *: "if truncate_second (Instant 1500000000) \<le> later \<and> later < truncate_second (Instant 301500000000)
    then VerifyUploadToken demo_signer demo_manager ''h.p.s'' later = Inr demo_token_claims
    else \<not> is_ok (VerifyUploadToken demo_signer demo_manager ''h.p.s'' later)" for later
    using upload_token_roundtrip [OF demo_signer_contract _ _ _ _ demo_issue, of demo_reader "'' 42''" "''key''" "5 * minute" later]
    by (simp add: demo_token_claims_def)
  show ?thesis
    using * [of "Instant 300999999999"] * [of "Instant 301000000000"]
    by (simp add: truncate_second_def second_def less_eq_instant_def less_instant_def demo_token_claims_def
        upload_claims_def demo_request_def)
qed

text \<open>
  Whatever bytes are presented, the ingest endpoint receives claims exactly when the JWT
  library accepts the trimmed token for the manager's public key, this manager's issuer and the
  upload audience, and the claims name a repository, a commit, a payload hash, an execution
  and positive identifiers; they are then the token's claims, unchanged.
\<close>

theorem VerifyUploadToken_accepts:
  "(VerifyUploadToken lib m raw now = Inr c) =
     (TrimSpace raw \<noteq> [] \<and> claims_ok c \<and>
      parse_claims lib (TrimSpace raw) (m_publicKey m) (m_issuer m) tokenAudience now = Inr (c, True))"
  by (rule VerifyUploadToken_iff)

end
