(* ===== verification/Lineage.thy ===== *)
theory Lineage
  imports Go_Strings Types
begin

text \<open>
  The run summary of \<open>server/web/handler/server.go\<close>: the payload types, its validation at
  ingestion (\<open>validateRunSummaryPayload\<close>) and the view of the process tree that the run page
  shows (\<open>buildRunSummaryView\<close>, \<open>convertLineageTreeToView\<close> and the label functions). The same
  run page serves members of a project and anonymous visitors of a public repository; the flag
  \<open>includeSensitive\<close> says which, and the labels may use command lines for members only.

  \<open>json.Unmarshal\<close> into the payload type is a parameter: it gives the decoder's error text or
  the decoded payload. A Go slice that may be nil (the top-level lineage tree) is an option.
\<close>

section \<open>Payload\<close>

record lineageEgressPayload =
  le_NodeType :: string
  le_Family :: string
  le_Destination :: string
  le_Port :: int
  le_Count :: int
  le_FirstUnixNanos :: nat
  le_LastUnixNanos :: nat

datatype lineageTreePayload = LineageNode
  (lt_NodeType: string) (lt_PID: int64) (lt_PPID: int64) (lt_StartTimeTicks: "nat option")
  (lt_Name: string) (lt_Cmdline: string) (lt_Exe: string)
  (lt_DirectEgress: int) (lt_TotalEgress: int)
  (lt_Egress: "lineageEgressPayload list") (lt_Children: "lineageTreePayload list")

record lineageEventNode =
  ev_PID :: int64
  ev_Name :: string
  ev_Cmdline :: string

record runEventPayload =
  ev_UnixNanos :: nat
  ev_Family :: string
  ev_Destination :: string
  ev_Port :: int
  ev_Lineage :: "lineageEventNode list"

record runSummaryPayload =
  SchemaVersion :: string
  CaptureBackend :: string
  TotalEvents :: int
  DroppedEvents :: int
  DroppedLines :: int
  Errors :: "string list"
  Events :: "runEventPayload list"
  LineageTree :: "lineageTreePayload list option"

text \<open>Validation of an uploaded summary. \<open>fmt.Errorf\<close> with the quoted version is a fixed text here.\<close>

definition validateRunSummaryPayload ::
  "(string \<Rightarrow> string + runSummaryPayload) \<Rightarrow> string \<Rightarrow> unit result" where
  "validateRunSummaryPayload unmarshal raw =
     (case unmarshal raw of
        Inl msg \<Rightarrow> Inl (Wrap ''decode payload'' (External msg))
      | Inr payload \<Rightarrow>
          (let schemaVersion = ToLower (TrimSpace (SchemaVersion payload))
           in if schemaVersion = [] then Inl (NewError ''schema_version is required'')
              else if schemaVersion \<noteq> ''v2'' then Inl (NewError ''unsupported schema_version'')
              else if LineageTree payload = None
                   then Inl (NewError ''lineage_tree field is required for v2 payload'')
              else Inr ()))"

section \<open>View\<close>

record lineageEgressNodeView =
  Target :: string
  Count :: int

datatype lineageTreeNodeView = NodeView
  (nv_Label: string) (nv_DirectEgress: int) (nv_TotalEgress: int)
  (nv_Egress: "lineageEgressNodeView list") (nv_Children: "lineageTreeNodeView list")

record runSummaryView =
  LineageRootLabel :: string
  LineageRoots :: "lineageTreeNodeView list"
  ErrorMessages :: "string list"

definition isLocalhostHost :: "string \<Rightarrow> bool" where
  "isLocalhostHost host =
     (let h = TrimSpace (ToLower host)
      in h = ''localhost'' \<or> h = ''127.0.0.1'' \<or> h = ''127.0.0.53'' \<or> h = ''::1'')"

definition formatEgressTargetLabel :: "lineageEgressPayload \<Rightarrow> string" where
  "formatEgressTargetLabel egress =
     (let host0 = ToLower (TrimSpace (le_Destination egress));
          host1 = TrimSuffix host0 ''.'';
          host2 = (case LastIndex host1 (CHR '':'') of
                     None \<Rightarrow> host1
                   | Some idx \<Rightarrow> if \<not> HasPrefix host1 ''['' then take idx host1 else host1);
          host = (if host2 = [] then ''unknown'' else host2)
      in if isLocalhostHost host \<and> le_Port egress = 53 then ''localhost (dns resolver)'' else host)"

text \<open>
  The script argument of an interpreter: the first argument that is not blank and not an option
  and whose base name is not a dash.
\<close>

definition is_interpreter :: "string \<Rightarrow> bool" where
  "is_interpreter first \<longleftrightarrow>
     HasPrefix first ''python'' \<or> HasPrefix first ''bash'' \<or> HasPrefix first ''sh'' \<or>
     HasPrefix first ''node'' \<or> HasPrefix first ''ruby''"

fun script_arg :: "string list \<Rightarrow> string option" where
  "script_arg [] = None"
| "script_arg (arg0 # args) =
     (let arg = TrimSpace arg0
      in if arg = [] \<or> HasPrefix arg ''-'' then script_arg args
         else (let script = path_Base arg
               in if script \<noteq> [] \<and> script \<noteq> ''-'' then Some script else script_arg args))"

definition cmdline_label :: "string \<Rightarrow> string option" where
  "cmdline_label cmdline =
     (case Fields cmdline of
        [] \<Rightarrow> None
      | prog # args \<Rightarrow>
          (let script = (if args \<noteq> [] \<and> is_interpreter (ToLower (path_Base prog))
                         then script_arg args else None);
               entry = path_Base prog
           in case script of
                Some s \<Rightarrow> Some s
              | None \<Rightarrow> if entry \<noteq> [] then Some entry else None))"

definition processNodeDisplayLabel :: "lineageTreePayload \<Rightarrow> bool \<Rightarrow> string" where
  "processNodeDisplayLabel node includeSensitive =
     (let name = TrimSpace (lt_Name node);
          cmdline = TrimSpace (lt_Cmdline node);
          from_cmdline = (if includeSensitive \<and> cmdline \<noteq> [] then cmdline_label cmdline else None)
      in case from_cmdline of
           Some label \<Rightarrow> label
         | None \<Rightarrow>
             if name \<noteq> [] then name
             else if 0 < lt_PID node then ''pid '' @ FormatInt (lt_PID node)
             else ''process'')"

definition convert_egress :: "lineageEgressPayload \<Rightarrow> lineageEgressNodeView" where
  "convert_egress e = \<lparr>Target = formatEgressTargetLabel e, Count = le_Count e\<rparr>"

fun convertLineageTreeToView :: "lineageTreePayload list \<Rightarrow> bool \<Rightarrow> lineageTreeNodeView list" where
  "convertLineageTreeToView [] includeSensitive = []"
| "convertLineageTreeToView (LineageNode ty pid ppid ticks name cmdline exe dir tot egress children # nodes)
     includeSensitive =
     NodeView
       (processNodeDisplayLabel
          (LineageNode ty pid ppid ticks name cmdline exe dir tot egress children) includeSensitive)
       dir tot (map convert_egress egress)
       (convertLineageTreeToView children includeSensitive)
     # convertLineageTreeToView nodes includeSensitive"

definition formatRunLineageRootLabel :: "run \<Rightarrow> string" where
  "formatRunLineageRootLabel run =
     (let workflow = TrimSpace (run_WorkflowName run); job = TrimSpace (run_JobName run)
      in if workflow \<noteq> [] \<and> job \<noteq> [] then workflow @ '' '' @ [CHR 0xC2, CHR 0xB7] @ '' '' @ job
         else if workflow \<noteq> [] then workflow
         else if job \<noteq> [] then job
         else run_RepoFullName run)"

definition buildRunSummaryView ::
  "(string \<Rightarrow> string + runSummaryPayload) \<Rightarrow> run \<Rightarrow> bool \<Rightarrow> runSummaryView" where
  "buildRunSummaryView unmarshal run includeSensitive =
     (case unmarshal (run_EgressJSON run) of
        Inl msg \<Rightarrow> \<lparr>LineageRootLabel = [], LineageRoots = [],
                   ErrorMessages = [''failed to parse summary JSON: '' @ msg]\<rparr>
      | Inr payload \<Rightarrow>
          \<lparr>LineageRootLabel = formatRunLineageRootLabel run,
           LineageRoots =
             convertLineageTreeToView (case LineageTree payload of None \<Rightarrow> [] | Some ns \<Rightarrow> ns)
               includeSensitive,
           ErrorMessages = Errors payload\<rparr>)"

section \<open>Facts\<close>

lemma convertLineageTreeToView_Cons:
  "convertLineageTreeToView (node # nodes) s =
     NodeView (processNodeDisplayLabel node s) (lt_DirectEgress node) (lt_TotalEgress node)
       (map convert_egress (lt_Egress node)) (convertLineageTreeToView (lt_Children node) s)
     # convertLineageTreeToView nodes s"
  by (cases node) simp

lemma convertLineageTreeToView_length: "length (convertLineageTreeToView nodes s) = length nodes"
  by (induction nodes s rule: convertLineageTreeToView.induct) simp_all

lemma script_arg_not_Nil: "script_arg args = Some s \<Longrightarrow> s \<noteq> []"
  by (induction args) (auto simp: Let_def split: if_splits)

lemma cmdline_label_not_Nil: "cmdline_label c = Some l \<Longrightarrow> l \<noteq> []"
  by (auto simp: cmdline_label_def Let_def split: list.splits option.splits if_splits
      dest: script_arg_not_Nil)

lemma processNodeDisplayLabel_not_Nil: "processNodeDisplayLabel node s \<noteq> []"
  by (auto simp: processNodeDisplayLabel_def Let_def split: option.splits if_splits
      dest: cmdline_label_not_Nil)

lemma formatEgressTargetLabel_not_Nil: "formatEgressTargetLabel e \<noteq> []"
  by (simp add: formatEgressTargetLabel_def Let_def)

lemma processNodeDisplayLabel_public:
  "lt_Name n = lt_Name m \<Longrightarrow> lt_PID n = lt_PID m \<Longrightarrow>
   processNodeDisplayLabel n False = processNodeDisplayLabel m False"
  by (simp add: processNodeDisplayLabel_def Let_def)

text \<open>
  What an anonymous visitor may learn of a node: everything the tree says except command lines,
  executable paths, parents and start times.
\<close>

fun public_part :: "lineageTreePayload list \<Rightarrow> lineageTreePayload list" where
  "public_part [] = []"
| "public_part (LineageNode ty pid ppid ticks name cmdline exe dir tot egress children # nodes) =
     LineageNode '''' pid 0 None name '''' '''' dir tot egress (public_part children)
     # public_part nodes"

text \<open>Every node of a view tree, at any depth.\<close>

fun view_nodes :: "lineageTreeNodeView list \<Rightarrow> lineageTreeNodeView list" where
  "view_nodes [] = []"
| "view_nodes (NodeView label dir tot egress children # nodes) =
     NodeView label dir tot egress children # view_nodes children @ view_nodes nodes"

fun payload_nodes :: "lineageTreePayload list \<Rightarrow> lineageTreePayload list" where
  "payload_nodes [] = []"
| "payload_nodes (LineageNode ty pid ppid ticks name cmdline exe dir tot egress children # nodes) =
     LineageNode ty pid ppid ticks name cmdline exe dir tot egress children
     # payload_nodes children @ payload_nodes nodes"

lemma view_nodes_convert:
  "map (\<lambda>v. (nv_Label v, nv_DirectEgress v, nv_TotalEgress v, map Count (nv_Egress v),
           length (nv_Children v)))
     (view_nodes (convertLineageTreeToView nodes s)) =
   map (\<lambda>n. (processNodeDisplayLabel n s, lt_DirectEgress n, lt_TotalEgress n,
           map le_Count (lt_Egress n), length (lt_Children n)))
     (payload_nodes nodes)"
  by (induction nodes s rule: convertLineageTreeToView.induct)
     (simp_all add: convert_egress_def comp_def convertLineageTreeToView_length)

lemma convert_public_part:
  "convertLineageTreeToView nodes False = convertLineageTreeToView (public_part nodes) False"
  by (induction nodes rule: public_part.induct)
     (simp_all add: processNodeDisplayLabel_def Let_def)

section \<open>Properties\<close>

text \<open>
  No command line is in the view made for a visitor who is not a member: the public view of two runs whose
  trees differ only in command lines, executables, parents and start times (at any depth) is
  the same, for every decoder.
\<close>

lemma public_view_hides_cmdline:
  assumes "unmarshal (run_EgressJSON run1) = Inr payload1"
    and "unmarshal (run_EgressJSON run2) = Inr payload2"
    and "map_option public_part (LineageTree payload1) = map_option public_part (LineageTree payload2)"
    and "Errors payload1 = Errors payload2"
    and "formatRunLineageRootLabel run1 = formatRunLineageRootLabel run2"
  shows "buildRunSummaryView unmarshal run1 False = buildRunSummaryView unmarshal run2 False"
proof -
  have "convertLineageTreeToView (case LineageTree payload1 of None \<Rightarrow> [] | Some ns \<Rightarrow> ns) False =
      convertLineageTreeToView (case LineageTree payload2 of None \<Rightarrow> [] | Some ns \<Rightarrow> ns) False"
    using assms(3) convert_public_part
    by (cases "LineageTree payload1"; cases "LineageTree payload2"; simp) metis
  with assms show ?thesis
    by (simp add: buildRunSummaryView_def)
qed

definition example_node :: "string \<Rightarrow> lineageTreePayload" where
  "example_node cmdline =
     LineageNode ''process'' 20 1 None ''python3.12'' cmdline ''/usr/bin/python3.12'' 3 3
       [\<lparr>le_NodeType = ''egress'', le_Family = ''ipv4'', le_Destination = ''httpbingo.org'',
         le_Port = 443, le_Count = 2, le_FirstUnixNanos = 1, le_LastUnixNanos = 2\<rparr>] []"

definition example_payload :: "string \<Rightarrow> runSummaryPayload" where
  "example_payload cmdline =
     \<lparr>SchemaVersion = ''v2'', CaptureBackend = ''bpftrace'', TotalEvents = 2, DroppedEvents = 0,
      DroppedLines = 0, Errors = [], Events = [], LineageTree = Some [example_node cmdline]\<rparr>"

text \<open>
  The view is the tree: node by node in depth-first order, the run page shows the label,
  the two egress totals, the egress counts and the number of children of exactly the nodes of
  the payload (which fixes the shape of the tree), and no label is empty.
\<close>

theorem view_shows_every_node:
  "map (\<lambda>v. (nv_Label v, nv_DirectEgress v, nv_TotalEgress v, map Count (nv_Egress v),
           length (nv_Children v)))
     (view_nodes (convertLineageTreeToView nodes s)) =
   map (\<lambda>n. (processNodeDisplayLabel n s, lt_DirectEgress n, lt_TotalEgress n,
           map le_Count (lt_Egress n), length (lt_Children n)))
     (payload_nodes nodes)
   \<and> (\<forall>v. v \<in> set (view_nodes (convertLineageTreeToView nodes s)) \<longrightarrow> nv_Label v \<noteq> [])"
proof -
  have "nv_Label v \<noteq> []" if "v \<in> set (view_nodes (convertLineageTreeToView nodes s))" for v
  proof -
    have "nv_Label v \<in> set (map nv_Label (view_nodes (convertLineageTreeToView nodes s)))"
      using that by simp
    also have "map nv_Label (view_nodes (convertLineageTreeToView nodes s)) =
        map (\<lambda>n. processNodeDisplayLabel n s) (payload_nodes nodes)"
      using arg_cong [where f = "map fst", OF view_nodes_convert [of nodes s]]
      by (simp add: comp_def)
    finally show ?thesis using processNodeDisplayLabel_not_Nil by (metis (no_types, lifting) imageE set_map)
  qed
  with view_nodes_convert [of nodes s] show ?thesis by blast
qed

lemma view_shows_every_node_witness:
  "nv_Label (hd (view_nodes (convertLineageTreeToView [example_node ''sh -x run.sh''] True))) \<noteq> []"
  using view_shows_every_node [of "[example_node ''sh -x run.sh'']" True]
  by (simp add: example_node_def)

text \<open>
  A payload is stored only if it decodes, declares schema version 2 (in any letter case and
  with surrounding space) and has a lineage tree, possibly empty; nothing else is checked.
\<close>

theorem validateRunSummaryPayload_iff:
  "validateRunSummaryPayload unmarshal raw = Inr () \<longleftrightarrow>
   (\<exists>payload nodes. unmarshal raw = Inr payload \<and>
      ToLower (TrimSpace (SchemaVersion payload)) = ''v2'' \<and> LineageTree payload = Some nodes)"
  by (auto simp: validateRunSummaryPayload_def Let_def split: sum.splits)

text \<open>
  The port suffix of a destination is cut at its last colon even in a bare IPv6 address, so
  the loopback resolver \<open>::1\<close> is shown as a colon and never as the local resolver that
  \<open>isLocalhostHost\<close> takes it for.
\<close>

theorem ipv6_loopback_label:
  "formatEgressTargetLabel
     \<lparr>le_NodeType = ''egress'', le_Family = ''ipv6'', le_Destination = ''::1'', le_Port = 53,
      le_Count = 1, le_FirstUnixNanos = 0, le_LastUnixNanos = 0\<rparr> = '':''
   \<and> isLocalhostHost ''::1''"
  by code_simp

end
