(* ===== verification/Limiter.thy ===== *)
theory Limiter
  imports Go_Strings Go_Time
begin

text \<open>
  The fixed-window rate limiter of \<open>server/web/handler/server.go\<close> (\<open>fixedWindowLimiter\<close>,
  \<open>fixedWindowCounter\<close>, \<open>newFixedWindowLimiter\<close>, \<open>Allow\<close>). The server has two of them: one
  keyed by the repository owner on the two ingestion routes, one keyed by the client address on
  the public pages. A call holds the mutex from the lookup to the update, so concurrent calls
  are some sequence of calls, and \<open>run_calls\<close> is that sequence.

  The contract that the rest of the server relies on is the locale \<open>windowed_admission\<close>: one
  call changes only the counter of its own key, and within a window a counter goes up by one
  for every admitted call and never passes the limit. The locale proves the bound on whole call
  sequences once, and the limiter is its interpretation.
\<close>

section \<open>The limiter\<close>

record fixedWindowCounter =
  windowStart :: instant
  hit_count :: int

type_synonym hits = "string \<rightharpoonup> fixedWindowCounter"

text \<open>A nil limiter is None; it admits everything.\<close>

type_synonym limiter = "hits option"

definition newFixedWindowLimiter :: limiter where
  "newFixedWindowLimiter = Some Map.empty"

definition Allow :: "limiter \<Rightarrow> string \<Rightarrow> int \<Rightarrow> duration \<Rightarrow> instant \<Rightarrow> bool \<times> limiter" where
  "Allow l key0 limit window0 now =
     (case l of
        None \<Rightarrow> (True, None)
      | Some hits \<Rightarrow>
          (let key = TrimSpace key0
           in if key = [] then (False, Some hits)
              else if limit \<le> 0 then (True, Some hits)
              else
                (let window = (if window0 \<le> 0 then minute else window0);
                     fresh = \<lparr>windowStart = now, hit_count = 1\<rparr>
                 in case hits key of
                      None \<Rightarrow> (True, Some (hits(key \<mapsto> fresh)))
                    | Some hit \<Rightarrow>
                        if window \<le> time_Sub now (windowStart hit)
                        then (True, Some (hits(key \<mapsto> fresh)))
                        else if limit \<le> hit_count hit then (False, Some hits)
                        else (True, Some (hits(key \<mapsto> hit\<lparr>hit_count := hit_count hit + 1\<rparr>))))))"

text \<open>The state of one key: when its window began and how many calls it has admitted.\<close>

definition window_state :: "limiter \<Rightarrow> string \<Rightarrow> (instant \<times> int) option" where
  "window_state l key =
     (case l of None \<Rightarrow> None
      | Some hits \<Rightarrow> map_option (\<lambda>h. (windowStart h, hit_count h)) (hits key))"

section \<open>The contract\<close>

locale windowed_admission =
  fixes admit :: "'l \<Rightarrow> string \<Rightarrow> instant \<Rightarrow> bool \<times> 'l"
    and state_of :: "'l \<Rightarrow> string \<Rightarrow> (instant \<times> int) option"
    and norm :: "string \<Rightarrow> string"
    and limit :: int
    and window :: duration
  assumes limit_pos: "0 < limit"
    and blank_rejected: "norm k = [] \<Longrightarrow> admit l k t = (False, l)"
    and other_keys: "k' \<noteq> norm k \<Longrightarrow> state_of (snd (admit l k t)) k' = state_of l k'"
    and fresh_window: "norm k \<noteq> [] \<Longrightarrow>
        state_of l (norm k) = None \<or>
        (\<exists>s c. state_of l (norm k) = Some (s, c) \<and> nanos s + window \<le> nanos t) \<Longrightarrow>
        fst (admit l k t) \<and> state_of (snd (admit l k t)) (norm k) = Some (t, 1)"
    and same_window: "norm k \<noteq> [] \<Longrightarrow> state_of l (norm k) = Some (s, c) \<Longrightarrow>
        nanos t < nanos s + window \<Longrightarrow>
        fst (admit l k t) = (c < limit) \<and>
        state_of (snd (admit l k t)) (norm k) = Some (s, if c < limit then c + 1 else c)"
begin

fun run_window :: "'l \<Rightarrow> (string \<times> instant) list \<Rightarrow> bool list" where
  "run_window l [] = []"
| "run_window l ((k, t) # calls) = fst (admit l k t) # run_window (snd (admit l k t)) calls"

text \<open>How many calls for one (normalised) key are admitted.\<close>

fun admitted :: "string \<Rightarrow> 'l \<Rightarrow> (string \<times> instant) list \<Rightarrow> int" where
  "admitted key l [] = 0"
| "admitted key l ((k, t) # calls) =
     (if norm k = key \<and> fst (admit l k t) then 1 else 0) + admitted key (snd (admit l k t)) calls"

lemma admitted_run:
  "admitted key l calls =
   int (length (filter (\<lambda>(c, ok). norm (fst c) = key \<and> ok) (zip calls (run_window l calls))))"
  by (induction key l calls rule: admitted.induct) auto

text \<open>
  A window of the key has begun at \<open>s\<close> with \<open>c\<close> calls admitted, and the calls of the key all come before
  the end of its \<open>k\<close>-th successor: the rest of this window and \<open>k\<close> full limits bound the admissions,
  since a window that begins later leaves room for one window less. The clock may run backwards.
\<close>

lemma admitted_in_windows:
  assumes "key \<noteq> []" and "state_of l key = Some (s, c)" and "c \<le> limit"
    and "\<And>k t. (k, t) \<in> set calls \<Longrightarrow> norm k = key \<Longrightarrow> nanos t < nanos s + (int n + 1) * window"
  shows "admitted key l calls \<le> limit - c + int n * limit"
  using assms(2-)
proof (induction calls arbitrary: l s c n)
  case Nil
  then show ?case using limit_pos by simp
next
  case (Cons call calls)
  obtain k t where call: "call = (k, t)" by (cases call)
  let ?l = "snd (admit l k t)"
  have rest: "\<And>k t. (k, t) \<in> set calls \<Longrightarrow> norm k = key \<Longrightarrow> nanos t < nanos s + (int n + 1) * window"
    using Cons.prems(3) by auto
  consider (other) "norm k \<noteq> key" | (same) "norm k = key" "nanos t < nanos s + window"
    | (fresh) "norm k = key" "nanos s + window \<le> nanos t"
    by linarith
  then show ?case
  proof cases
    case other
    then have "state_of ?l key = Some (s, c)"
      using other_keys [of key k l t] Cons.prems(1) by auto
    from Cons.IH [OF this Cons.prems(2) rest] other call show ?thesis by simp
  next
    case same
    have step: "fst (admit l k t) = (c < limit)"
      "state_of ?l key = Some (s, if c < limit then c + 1 else c)"
      using same_window [of k l s c t] assms(1) Cons.prems(1) same by auto
    have "admitted key ?l calls \<le> limit - (if c < limit then c + 1 else c) + int n * limit"
      by (rule Cons.IH [OF step(2)]) (use Cons.prems(2) rest in auto)
    with step(1) same call Cons.prems(2) show ?thesis by (auto split: if_splits)
  next
    case fresh
    have step: "fst (admit l k t)" "state_of ?l key = Some (t, 1)"
      using fresh_window [of k l t] assms(1) Cons.prems(1) fresh by auto
    have before: "nanos t < nanos s + (int n + 1) * window"
      using Cons.prems(3) [of k t] fresh call by simp
    with fresh(2) obtain m where n: "n = Suc m"
      by (cases n) auto
    have "admitted key ?l calls \<le> limit - 1 + int m * limit"
    proof (rule Cons.IH [OF step(2)])
      show "1 \<le> limit" using limit_pos by simp
      show "nanos t' < nanos t + (int m + 1) * window" if "(k', t') \<in> set calls" "norm k' = key" for k' t'
        using rest [OF that] fresh(2) by (simp add: n algebra_simps)
    qed
    with step(1) fresh(1) call Cons.prems(2) show ?thesis by (simp add: n algebra_simps)
  qed
qed

text \<open>
  The budget left in front of the next reset. Before the first reset of a period the budget
  bounds the admissions, and the first reset leaves room for one window less than the period has.
\<close>

definition budget :: "(instant \<times> int) option \<Rightarrow> int" where
  "budget st = (case st of None \<Rightarrow> 0 | Some (s, c) \<Rightarrow> limit - c)"

lemma admitted_in_period:
  assumes "key \<noteq> []" and "\<And>s c. state_of l key = Some (s, c) \<Longrightarrow> c \<le> limit"
    and "\<And>k t. (k, t) \<in> set calls \<Longrightarrow> norm k = key \<Longrightarrow>
      t0 \<le> nanos t \<and> nanos t < t0 + int n * window"
  shows "admitted key l calls \<le> budget (state_of l key) + int n * limit"
  using assms(2-)
proof (induction calls arbitrary: l)
  case Nil
  then show ?case
    using limit_pos by (fastforce simp: budget_def split: option.splits)
next
  case (Cons call calls)
  obtain k t where call: "call = (k, t)" by (cases call)
  let ?l = "snd (admit l k t)"
  have rest: "\<And>k t. (k, t) \<in> set calls \<Longrightarrow> norm k = key \<Longrightarrow> t0 \<le> nanos t \<and> nanos t < t0 + int n * window"
    using Cons.prems(2) by auto
  consider (other) "norm k \<noteq> key"
    | (same) s c where "norm k = key" "state_of l key = Some (s, c)" "nanos t < nanos s + window"
    | (fresh) "norm k = key" "state_of l key = None \<or>
        (\<exists>s c. state_of l key = Some (s, c) \<and> nanos s + window \<le> nanos t)"
    by (cases "state_of l key") (auto simp: not_less, metis linorder_not_less)
  then show ?case
  proof cases
    case other
    then have "state_of ?l key = state_of l key"
      using other_keys [of key k l t] by auto
    with Cons.IH [of ?l] Cons.prems(1) rest other call show ?thesis by simp
  next
    case same
    have step: "fst (admit l k t) = (c < limit)"
      "state_of ?l key = Some (s, if c < limit then c + 1 else c)"
      using same_window [of k l s c t] assms(1) same by auto
    have "admitted key ?l calls \<le> budget (state_of ?l key) + int n * limit"
      by (rule Cons.IH) (use step Cons.prems(1) same(2) rest in \<open>auto split: if_splits\<close>)
    with step same call show ?thesis
      by (auto simp: budget_def split: if_splits)
  next
    case fresh
    have step: "fst (admit l k t)" "state_of ?l key = Some (t, 1)"
      using fresh_window [of k l t] assms(1) fresh by auto
    have now: "t0 \<le> nanos t" "nanos t < t0 + int n * window"
      using Cons.prems(2) [of k t] fresh(1) call by auto
    then obtain m where n: "n = Suc m"
      by (cases n) auto
    have "admitted key ?l calls \<le> limit - 1 + int m * limit"
    proof (rule admitted_in_windows [OF assms(1) step(2)])
      show "1 \<le> limit" using limit_pos by simp
      show "nanos t' < nanos t + (int m + 1) * window" if "(k', t') \<in> set calls" "norm k' = key" for k' t'
        using rest [OF that] now(1) by (simp add: n algebra_simps)
    qed
    moreover have "0 \<le> budget (state_of l key)"
      using Cons.prems(1) by (auto simp: budget_def split: option.splits)
    ultimately show ?thesis using step(1) fresh(1) call by (simp add: n algebra_simps)
  qed
qed

end

section \<open>The limiter meets the contract\<close>

lemma window_state_upd [simp]:
  "window_state (Some (hits(k \<mapsto> h))) k' =
     (if k' = k then Some (windowStart h, hit_count h) else window_state (Some hits) k')"
  by (simp add: window_state_def)

lemma Allow_blank: "TrimSpace key = [] \<Longrightarrow> Allow (Some hits) key limit window now = (False, Some hits)"
  by (simp add: Allow_def)

text \<open>
  A limiter that exists, seen as the interface wants it: \<open>Allow\<close> with the limit and window of
  one route, on the map inside.
\<close>

definition allow_on :: "int \<Rightarrow> duration \<Rightarrow> hits \<Rightarrow> string \<Rightarrow> instant \<Rightarrow> bool \<times> hits" where
  "allow_on limit window hits key now =
     map_prod id (\<lambda>l. case l of None \<Rightarrow> hits | Some h \<Rightarrow> h) (Allow (Some hits) key limit window now)"

definition hits_state :: "hits \<Rightarrow> string \<Rightarrow> (instant \<times> int) option" where
  "hits_state hits = window_state (Some hits)"

lemma Allow_some: "\<exists>hits'. snd (Allow (Some hits) key limit window now) = Some hits'"
  by (auto simp: Allow_def Let_def split: option.splits)

lemma allow_on_Allow:
  "Allow (Some hits) key limit window now =
     (fst (allow_on limit window hits key now), Some (snd (allow_on limit window hits key now)))"
  using Allow_some [of hits key limit window now]
  by (cases "Allow (Some hits) key limit window now") (auto simp: allow_on_def)

lemma windowed_admission_allow_on:
  assumes "0 < limit" and "0 < window" and "in_int64 window"
  shows "windowed_admission (allow_on limit window) hits_state TrimSpace limit window"
proof
  show "0 < limit" by (rule assms(1))
next
  fix k hits t
  assume "TrimSpace k = []"
  then show "allow_on limit window hits k t = (False, hits)"
    by (simp add: allow_on_def Allow_blank)
next
  fix k' k hits t
  assume "k' \<noteq> TrimSpace k"
  then show "hits_state (snd (allow_on limit window hits k t)) k' = hits_state hits k'"
    by (auto simp: allow_on_def hits_state_def Allow_def Let_def split: option.splits)
next
  fix k hits t
  assume "TrimSpace k \<noteq> []"
    and "hits_state hits (TrimSpace k) = None \<or>
      (\<exists>s c. hits_state hits (TrimSpace k) = Some (s, c) \<and> nanos s + window \<le> nanos t)"
  then show "fst (allow_on limit window hits k t) \<and>
      hits_state (snd (allow_on limit window hits k t)) (TrimSpace k) = Some (t, 1)"
    using assms
    by (auto simp: allow_on_def hits_state_def window_state_def Allow_def Let_def time_Sub_ge_pos
        split: option.splits)
next
  fix k hits s c t
  assume "TrimSpace k \<noteq> []" and "hits_state hits (TrimSpace k) = Some (s, c)"
    and "nanos t < nanos s + window"
  then show "fst (allow_on limit window hits k t) = (c < limit) \<and>
      hits_state (snd (allow_on limit window hits k t)) (TrimSpace k) =
        Some (s, if c < limit then c + 1 else c)"
    using assms
    by (auto simp: allow_on_def hits_state_def window_state_def Allow_def Let_def time_Sub_ge_pos
        split: option.splits)
qed

text \<open>The two limiters of the server, with the constants of the source.\<close>

definition ownerIngestRatePerMinute :: int where "ownerIngestRatePerMinute = 120"
definition publicRouteRatePerMinute :: int where "publicRouteRatePerMinute = 240"
definition ownerRunQuotaPerDay :: int64 where "ownerRunQuotaPerDay = 5000"

interpretation owner_limit: windowed_admission
  "allow_on ownerIngestRatePerMinute minute" hits_state TrimSpace ownerIngestRatePerMinute minute
  by (rule windowed_admission_allow_on)
     (simp_all add: ownerIngestRatePerMinute_def minute_def second_def in_int64_def)

interpretation public_limit: windowed_admission
  "allow_on publicRouteRatePerMinute minute" hits_state TrimSpace publicRouteRatePerMinute minute
  by (rule windowed_admission_allow_on)
     (simp_all add: publicRouteRatePerMinute_def minute_def second_def in_int64_def)

section \<open>Call sequences on one limiter\<close>

fun run_calls :: "limiter \<Rightarrow> int \<Rightarrow> duration \<Rightarrow> (string \<times> instant) list \<Rightarrow> bool list \<times> limiter" where
  "run_calls l limit window [] = ([], l)"
| "run_calls l limit window ((key, now) # calls) =
     (let (ok, l') = Allow l key limit window now;
          (oks, l'') = run_calls l' limit window calls
      in (ok # oks, l''))"

definition count_admitted :: "string \<Rightarrow> limiter \<Rightarrow> int \<Rightarrow> duration \<Rightarrow> (string \<times> instant) list \<Rightarrow> int" where
  "count_admitted key l limit window calls =
     int (length (filter (\<lambda>(c, ok). TrimSpace (fst c) = key \<and> ok)
       (zip calls (fst (run_calls l limit window calls)))))"

definition counters_bounded :: "int \<Rightarrow> limiter \<Rightarrow> bool" where
  "counters_bounded limit l \<longleftrightarrow>
     (\<forall>hits key hit. l = Some hits \<longrightarrow> hits key = Some hit \<longrightarrow> 1 \<le> hit_count hit \<and> hit_count hit \<le> limit)"

lemma counters_bounded_new: "counters_bounded limit newFixedWindowLimiter"
  by (simp add: counters_bounded_def newFixedWindowLimiter_def)

lemma counters_bounded_Allow:
  "counters_bounded limit l \<Longrightarrow> counters_bounded limit (snd (Allow l key limit window now))"
  by (auto simp: counters_bounded_def Allow_def Let_def split: option.splits if_splits) fastforce+

lemma counters_bounded_run:
  "counters_bounded limit l \<Longrightarrow> counters_bounded limit (snd (run_calls l limit window calls))"
proof (induction l limit window calls rule: run_calls.induct)
  case (1 l limit window)
  then show ?case by simp
next
  case (2 l limit window key now calls)
  then show ?case
    using counters_bounded_Allow [of limit l key window now]
    by (auto simp: Let_def split: prod.splits)
qed

lemma run_calls_run:
  assumes "windowed_admission (allow_on limit window) hits_state TrimSpace limit window"
  shows "fst (run_calls (Some hits) limit window calls) =
    windowed_admission.run_window (allow_on limit window) hits calls"
proof (induction calls arbitrary: hits)
  case Nil
  then show ?case by (simp add: windowed_admission.run_window.simps [OF assms])
next
  case (Cons call calls)
  obtain key now where call: "call = (key, now)" by (cases call)
  show ?case
    using Cons.IH [of "snd (allow_on limit window hits key now)"]
    by (simp add: call windowed_admission.run_window.simps [OF assms] allow_on_Allow Let_def split_beta)
qed

lemma count_admitted_le:
  assumes wa: "windowed_admission (allow_on limit window) hits_state TrimSpace limit window"
    and "counters_bounded limit l" and "l \<noteq> None" and "key \<noteq> []"
    and "\<And>k t. (k, t) \<in> set calls \<Longrightarrow> TrimSpace k = key \<Longrightarrow> t0 \<le> nanos t \<and> nanos t < t0 + int n * window"
  shows "count_admitted key l limit window calls \<le> (int n + 1) * limit"
proof -
  obtain hits where l: "l = Some hits" using assms(3) by blast
  have "count_admitted key l limit window calls =
      windowed_admission.admitted (allow_on limit window) TrimSpace key hits calls"
    by (simp add: count_admitted_def l run_calls_run [OF wa] windowed_admission.admitted_run [OF wa])
  also have "\<dots> \<le> windowed_admission.budget limit (hits_state hits key) + int n * limit"
  proof (rule windowed_admission.admitted_in_period [OF wa])
    show "key \<noteq> []" by (rule assms(4))
    show "c \<le> limit" if "hits_state hits key = Some (s, c)" for s c
      using that assms(2) l
      by (auto simp: hits_state_def window_state_def counters_bounded_def)
  qed (use assms(5) in blast)
  also have "windowed_admission.budget limit (hits_state hits key) \<le> limit"
    using assms(2) l windowed_admission.limit_pos [OF wa]
    by (fastforce simp: windowed_admission.budget_def [OF wa] hits_state_def window_state_def
        counters_bounded_def split: option.splits)
  finally show ?thesis by (simp add: algebra_simps)
qed

section \<open>Properties\<close>

text \<open>
  C21: From the limiter as the server creates it, after any earlier calls, and whatever other
  keys are interleaved, if the calls for a key all fall into a period of \<open>n\<close> windows, wherever it
  begins, then at most \<open>(n + 1) * limit\<close> of them are admitted: the windows of the key need not begin
  with the period, so it meets at most \<open>n + 1\<close> of them, and each admits at most the limit.
\<close>

theorem limiter_period_bound:
  assumes "0 < limit" and "0 < window" and "in_int64 window" and "key \<noteq> []"
    and "\<And>k t. (k, t) \<in> set calls \<Longrightarrow> TrimSpace k = key \<Longrightarrow>
      t0 \<le> nanos t \<and> nanos t < t0 + int n * window"
  shows "count_admitted key (snd (run_calls newFixedWindowLimiter limit window earlier))
    limit window calls \<le> (int n + 1) * limit"
proof (rule count_admitted_le [OF windowed_admission_allow_on [OF assms(1-3)] _ _ assms(4,5)])
  show "counters_bounded limit (snd (run_calls newFixedWindowLimiter limit window earlier))"
    by (rule counters_bounded_run) (rule counters_bounded_new)
  show "snd (run_calls newFixedWindowLimiter limit window earlier) \<noteq> None"
  proof -
    have "snd (run_calls (Some hits) limit window earlier) \<noteq> None" for hits
      by (induction earlier arbitrary: hits) (auto simp: allow_on_Allow Let_def split_beta)
    then show ?thesis by (simp add: newFixedWindowLimiter_def)
  qed
qed

lemma limiter_period_bound_witness:
  "count_admitted ''42'' (snd (run_calls newFixedWindowLimiter 2 minute [(''42'', Instant 0)])) 2 minute
     [(''42'', Instant 50000000000), ('' 42'', Instant 70000000000), (''7'', Instant 71000000000),
      (''42'', Instant 72000000000), (''42'', Instant 140000000000)] \<le> (int 2 + 1) * 2"
proof (rule limiter_period_bound [where ?t0.0 = "50000000000" and n = 2])
  have "TrimSpace ''7'' \<noteq> ''42''" by code_simp
  then show "50000000000 \<le> nanos t \<and> nanos t < 50000000000 + int 2 * minute"
    if "(k, t) \<in> set [(''42'', Instant 50000000000), ('' 42'', Instant 70000000000), (''7'', Instant 71000000000),
      (''42'', Instant 72000000000), (''42'', Instant 140000000000)]" "TrimSpace k = ''42''" for k t
    using that by (auto simp: minute_def second_def)
qed (simp_all add: minute_def second_def in_int64_def)

text \<open>
  The counter of a key is exact inside its window: a call is admitted if and only if fewer
  than \<open>limit\<close> calls were admitted since the window began, and admitting it adds one.
\<close>

theorem limiter_same_window:
  assumes "0 < limit" and "0 < window" and "in_int64 window" and "TrimSpace key \<noteq> []"
    and "hits (TrimSpace key) = Some hit" and "nanos now < nanos (windowStart hit) + window"
  shows "Allow (Some hits) key limit window now =
    (if hit_count hit < limit
     then (True, Some (hits(TrimSpace key \<mapsto> hit\<lparr>hit_count := hit_count hit + 1\<rparr>)))
     else (False, Some hits))"
  using assms by (auto simp: Allow_def Let_def time_Sub_ge_pos)

lemma limiter_same_window_witness:
  "Allow (Some [''a'' \<mapsto> \<lparr>windowStart = Instant 0, hit_count = 3\<rparr>]) ''a'' 3 minute (Instant 9) =
     (False, Some [''a'' \<mapsto> \<lparr>windowStart = Instant 0, hit_count = 3\<rparr>])"
proof -
  have "TrimSpace ''a'' = ''a''" by code_simp
  then show ?thesis
    using limiter_same_window [of 3 minute "''a''"
        "[''a'' \<mapsto> \<lparr>windowStart = Instant 0, hit_count = 3\<rparr>]"
        "\<lparr>windowStart = Instant 0, hit_count = 3\<rparr>" "Instant 9"]
    by (simp add: minute_def second_def in_int64_def)
qed

text \<open>
  C39: No lock-out: once a full window has passed since the window of a key began, the next call
  for it is admitted and starts a new window, whatever the counter was.
\<close>

theorem limiter_recovers:
  assumes "0 < window" and "in_int64 window" and "TrimSpace key \<noteq> []" and "0 < limit"
    and "hits (TrimSpace key) = Some hit" and "nanos (windowStart hit) + window \<le> nanos now"
  shows "Allow (Some hits) key limit window now =
    (True, Some (hits(TrimSpace key \<mapsto> \<lparr>windowStart = now, hit_count = 1\<rparr>)))"
  using assms by (auto simp: Allow_def Let_def time_Sub_ge_pos)

lemma limiter_recovers_witness:
  "fst (Allow (Some [''a'' \<mapsto> \<lparr>windowStart = Instant 0, hit_count = 3\<rparr>]) ''a'' 3 minute
     (time_Add (Instant 0) minute))"
proof -
  have "TrimSpace ''a'' = ''a''" by code_simp
  then show ?thesis
    using limiter_recovers [of minute "''a''" 3
        "[''a'' \<mapsto> \<lparr>windowStart = Instant 0, hit_count = 3\<rparr>]"
        "\<lparr>windowStart = Instant 0, hit_count = 3\<rparr>" "time_Add (Instant 0) minute"]
    by (simp add: minute_def second_def in_int64_def)
qed

end
