(* ===== verification/Http.thy ===== *)
theory Http
  imports Workers Runs_Auth Lineage Limiter
begin

text \<open>
  The part of Go's \<open>net/http\<close> that the handlers use, and the state they run in: requests as the
  handlers read them, the response writer, cookies, \<open>http.Error\<close> and \<open>http.Redirect\<close>, and
  \<open>server/web/render.go\<close>. What a handler writes is kept in the writer: headers and cookies count
  only until the status is written, the first status wins, and writing a body writes status 200
  when none was written. The short body that \<open>http.Redirect\<close> adds for GET is left out, and so is
  its cleaning of the path, which changes none of the paths used here.
\<close>

section \<open>Requests and responses\<close>

text \<open>
  A request as the router and the handlers ask for it: the method, the segments of the clean path,
  the path values that the router fills in, the first value of a query parameter and of a
  header (empty when there is none), the cookies in their order, the parsed form or the error of
  \<open>ParseForm\<close>, the body or the error of reading it, and the peer's address.
\<close>

record http_request =
  hr_Method :: string
  hr_Segments :: "string list"
  hr_PathValue :: "string \<Rightarrow> string"
  hr_Query :: "string \<Rightarrow> string"
  hr_Header :: "string \<Rightarrow> string"
  hr_Cookies :: "(string \<times> string) list"
  hr_Form :: "(string \<Rightarrow> string) result"
  hr_Body :: "string result"
  hr_RemoteAddr :: string

record cookie =
  ck_Name :: string
  ck_Value :: string
  ck_Path :: string
  ck_HttpOnly :: bool
  ck_Secure :: bool
  ck_SameSite :: string
  ck_MaxAge :: int
  ck_Expires :: "instant option"

record writer =
  wr_status :: "int option"
  wr_headers :: "(string \<times> string) list"
  wr_cookies :: "cookie list"
  wr_body :: string
  wr_recorded :: int

text \<open>
  Every request is served under \<open>LoggingMiddleware\<close>, so the writer is its \<open>statusWriter\<close>: beside
  the response that is sent it records the last status that a handler wrote, 200 before that; the
  status that writing a body implies is not recorded.
\<close>

definition new_writer :: writer where
  "new_writer = \<lparr>wr_status = None, wr_headers = [], wr_cookies = [], wr_body = [], wr_recorded = 200\<rparr>"

text \<open>The status that is sent when the handler has returned.\<close>

definition sent_status :: "writer \<Rightarrow> int" where
  "sent_status w = (case wr_status w of None \<Rightarrow> 200 | Some code \<Rightarrow> code)"

definition header_Set :: "string \<Rightarrow> string \<Rightarrow> writer \<Rightarrow> writer" where
  "header_Set k v w =
     (if wr_status w = None then w\<lparr>wr_headers := filter (\<lambda>h. fst h \<noteq> k) (wr_headers w) @ [(k, v)]\<rparr> else w)"

definition header_Add :: "string \<Rightarrow> string \<Rightarrow> writer \<Rightarrow> writer" where
  "header_Add k v w = (if wr_status w = None then w\<lparr>wr_headers := wr_headers w @ [(k, v)]\<rparr> else w)"

definition SetCookie :: "cookie \<Rightarrow> writer \<Rightarrow> writer" where
  "SetCookie c w = (if wr_status w = None then w\<lparr>wr_cookies := wr_cookies w @ [c]\<rparr> else w)"

definition WriteHeader :: "int \<Rightarrow> writer \<Rightarrow> writer" where
  "WriteHeader code w =
     (if wr_status w = None then w\<lparr>wr_status := Some code, wr_recorded := code\<rparr> else w\<lparr>wr_recorded := code\<rparr>)"

definition Write :: "string \<Rightarrow> writer \<Rightarrow> writer" where
  "Write bytes w =
     (if wr_status w = None then w\<lparr>wr_status := Some 200, wr_body := wr_body w @ bytes\<rparr>
      else w\<lparr>wr_body := wr_body w @ bytes\<rparr>)"

definition http_Error :: "string \<Rightarrow> int \<Rightarrow> writer \<Rightarrow> writer" where
  "http_Error msg code w =
     Write (msg @ [CHR 0x0A]) (WriteHeader code
       (header_Set ''X-Content-Type-Options'' ''nosniff''
         (header_Set ''Content-Type'' ''text/plain; charset=utf-8'' w)))"

definition http_Redirect :: "string \<Rightarrow> int \<Rightarrow> writer \<Rightarrow> writer" where
  "http_Redirect url code w = WriteHeader code (header_Set ''Location'' url w)"

definition StatusOK :: int where "StatusOK = 200"
definition StatusAccepted :: int where "StatusAccepted = 202"
definition StatusSeeOther :: int where "StatusSeeOther = 303"
definition StatusTemporaryRedirect :: int where "StatusTemporaryRedirect = 307"
definition StatusBadRequest :: int where "StatusBadRequest = 400"
definition StatusUnauthorized :: int where "StatusUnauthorized = 401"
definition StatusForbidden :: int where "StatusForbidden = 403"
definition StatusNotFound :: int where "StatusNotFound = 404"
definition StatusTooManyRequests :: int where "StatusTooManyRequests = 429"
definition StatusInternalServerError :: int where "StatusInternalServerError = 500"
definition StatusBadGateway :: int where "StatusBadGateway = 502"
definition StatusServiceUnavailable :: int where "StatusServiceUnavailable = 503"

lemmas status_codes = StatusOK_def StatusAccepted_def StatusSeeOther_def StatusTemporaryRedirect_def
  StatusBadRequest_def StatusUnauthorized_def StatusForbidden_def StatusNotFound_def
  StatusTooManyRequests_def StatusInternalServerError_def StatusBadGateway_def StatusServiceUnavailable_def

text \<open>\<open>io.ReadAll(http.MaxBytesReader(w, r.Body, n))\<close>\<close>

definition ReadBody :: "nat \<Rightarrow> http_request \<Rightarrow> string result" where
  "ReadBody n r = bind_result (hr_Body r)
     (\<lambda>body. if n < length body then Inl (External ''http: request body too large'') else Inr body)"

text \<open>\<open>err.Error()\<close>; of a PostgreSQL error the code is kept.\<close>

primrec error_text :: "error \<Rightarrow> string" where
  "error_text (NewError m) = m"
| "error_text (Wrap m e) = m @ '': '' @ error_text e"
| "error_text NoRows = ''no rows in result set''"
| "error_text NotFound = ''not found''"
| "error_text (PgError c) = ''ERROR: (SQLSTATE '' @ c @ '')''"
| "error_text (External m) = m"

section \<open>Pages\<close>

text \<open>The page templates with the data that the handlers pass to them.\<close>

datatype page =
    LoginPage string string
  | DashboardPage user "project list"
  | ProjectPage user project "repo list" "run list"
  | RunPage "user option" run runSummaryView string string bool
  | RepoRunsPage "user option" string string "run list"
  | ConnectPage user project "repo list" string string bool
  | MembersPage user project

text \<open>The functions that templates may call.\<close>

record template_funcs =
  tf_fmtTime :: "instant \<Rightarrow> string"
  tf_shortSHA :: "string \<Rightarrow> string"
  tf_isoTime :: "instant \<Rightarrow> string"
  tf_isSelected :: "(string \<Rightarrow> bool) \<Rightarrow> string \<Rightarrow> bool"
  tf_tailwindCSS :: string

datatype location = Local | UTC

text \<open>
  \<open>html/template\<close> with the embedded files: whether the files of a page parse with these functions, and
  what executing the template writes before it ends or fails; beside it the embedded style sheet and
  \<open>Time.Format\<close>.
\<close>

record templates =
  tp_parse :: "template_funcs \<Rightarrow> page \<Rightarrow> unit result"
  tp_execute :: "template_funcs \<Rightarrow> page \<Rightarrow> string \<times> unit result"
  tp_tailwindSource :: string
  tp_Format :: "location \<Rightarrow> string \<Rightarrow> instant \<Rightarrow> string"

definition RFC3339 :: string where
  "RFC3339 = ''2006-01-02T15:04:05Z07:00''"

definition shortSHA :: "string \<Rightarrow> string" where
  "shortSHA sha = (if length sha \<le> 7 then sha else take 7 sha)"

definition page_funcs :: "templates \<Rightarrow> template_funcs" where
  "page_funcs tp = \<lparr>
     tf_fmtTime = tp_Format tp Local ''2006-01-02 15:04:05'',
     tf_shortSHA = shortSHA,
     tf_isoTime = tp_Format tp UTC RFC3339,
     tf_isSelected = (\<lambda>selected key. selected key),
     tf_tailwindCSS = tp_tailwindSource tp\<rparr>"

definition render :: "templates \<Rightarrow> page \<Rightarrow> int \<Rightarrow> writer \<Rightarrow> unit result \<times> writer" where
  "render tp page status w =
     (case tp_parse tp (page_funcs tp) page of
        Inl e \<Rightarrow> (Inl (Wrap ''parse templates'' e), w)
      | Inr _ \<Rightarrow>
          (let w1 = header_Set ''Content-Type'' ''text/html; charset=utf-8'' w;
               w2 = (if 0 < status then WriteHeader status w1 else w1);
               w3 = (if fst (tp_execute tp (page_funcs tp) page) = [] then w2
                     else Write (fst (tp_execute tp (page_funcs tp) page)) w2)
           in case snd (tp_execute tp (page_funcs tp) page) of
                Inl e \<Rightarrow> (Inl (Wrap ''execute template'' e), w3)
              | Inr _ \<Rightarrow> (Inr (), w3)))"

definition Render :: "templates \<Rightarrow> page \<Rightarrow> writer \<Rightarrow> unit result \<times> writer" where
  "Render tp page = render tp page 0"

definition RenderWithStatus :: "templates \<Rightarrow> int \<Rightarrow> page \<Rightarrow> writer \<Rightarrow> unit result \<times> writer" where
  "RenderWithStatus tp status page = render tp page status"

section \<open>The state of the server\<close>

text \<open>
  Beside the database and GitHub: the two limiters, the verifier with its key cache and the
  answers of the key set endpoint still to come, the outcomes of the random source, and the
  writer of the request at hand.
\<close>

record web =
  wb_world :: world
  wb_ingestOwnerLimiter :: limiter
  wb_publicRouteIPLimiter :: limiter
  wb_oidcVerifier :: "verifier option"
  wb_replies :: "http_reply list"
  wb_random :: "nat list result list"
  wb_out :: writer

type_synonym 'a webop = "web \<Rightarrow> 'a result \<times> web"

definition out :: "(writer \<Rightarrow> writer) \<Rightarrow> web \<Rightarrow> web" where
  "out f s = s\<lparr>wb_out := f (wb_out s)\<rparr>"

definition on_world :: "'a wop \<Rightarrow> 'a webop" where
  "on_world m s = (case m (wb_world s) of (r, w) \<Rightarrow> (r, s\<lparr>wb_world := w\<rparr>))"

definition on_store :: "(db, 'a) dbop \<Rightarrow> 'a webop" where
  "on_store m = on_world (on_db m)"

text \<open>Filling a buffer of \<open>n\<close> zero bytes from the random source, whose outcomes are arbitrary.\<close>

definition rand_Read :: "nat \<Rightarrow> nat list webop" where
  "rand_Read n s =
     (case wb_random s of
        [] \<Rightarrow> (Inl (External ''random source failed''), s)
      | r # rs \<Rightarrow> (map_sum id (\<lambda>bytes. take n (bytes @ replicate n 0)) r, s\<lparr>wb_random := rs\<rparr>))"

lemma rand_Read_ok: "rand_Read n s = (Inr buf, s') \<Longrightarrow> length buf = n \<and> wb_world s' = wb_world s \<and> wb_out s' = wb_out s"
  by (cases "wb_random s"; cases "hd (wb_random s)") (auto simp: rand_Read_def)

definition lift_result :: "'a result \<Rightarrow> 's \<Rightarrow> 'a result \<times> 's" where
  "lift_result r s = (r, s)"

text \<open>\<open>x, err := m(); if err != nil {h; return}; f\<close> in a handler.\<close>

definition try_op :: "'a webop \<Rightarrow> (error \<Rightarrow> web \<Rightarrow> web) \<Rightarrow> ('a \<Rightarrow> web \<Rightarrow> web) \<Rightarrow> web \<Rightarrow> web" where
  "try_op m h f s = (case m s of (Inl e, s') \<Rightarrow> h e s' | (Inr x, s') \<Rightarrow> f x s')"

abbreviation status_of :: "web \<Rightarrow> int" where
  "status_of s \<equiv> sent_status (wb_out s)"

abbreviation tables_of :: "web \<Rightarrow> db" where
  "tables_of s \<equiv> tables (wd_db (wb_world s))"

abbreviation fresh_writer :: "web \<Rightarrow> bool" where
  "fresh_writer s \<equiv> wr_status (wb_out s) = None"

section \<open>Facts\<close>

text \<open>Handlers that keep a predicate of the state.\<close>

definition keeps :: "(web \<Rightarrow> bool) \<Rightarrow> (web \<Rightarrow> web) \<Rightarrow> bool" where
  "keeps P f \<longleftrightarrow> (\<forall>s. P s \<longrightarrow> P (f s))"

lemma keepsD: "keeps P f \<Longrightarrow> P s \<Longrightarrow> P (f s)"
  by (simp add: keeps_def)

named_theorems keep_rules \<open>rules for \<open>keeps\<close>\<close>

lemma keeps_try_op [keep_rules]:
  "preserves P m \<Longrightarrow> (\<And>e. keeps P (h e)) \<Longrightarrow> (\<And>x. keeps P (f x)) \<Longrightarrow> keeps P (try_op m h f)"
  unfolding keeps_def [of _ "try_op m h f"] try_op_def
  by (auto split: prod.split sum.split intro: keepsD dest: preservesE)

lemma keeps_out [keep_rules]: "keeps (\<lambda>s. I (wb_world s)) (out f)"
  by (simp add: keeps_def out_def)

lemma keeps_if [keep_rules]: "(c \<Longrightarrow> keeps P f) \<Longrightarrow> (\<not> c \<Longrightarrow> keeps P g) \<Longrightarrow> keeps P (if c then f else g)"
  by simp

lemma keeps_option [keep_rules]:
  "(v = None \<Longrightarrow> keeps P f) \<Longrightarrow> (\<And>x. v = Some x \<Longrightarrow> keeps P (g x)) \<Longrightarrow> keeps P (case v of None \<Rightarrow> f | Some x \<Rightarrow> g x)"
  by (cases v) simp_all

lemma keeps_sum [keep_rules]:
  "(\<And>e. v = Inl e \<Longrightarrow> keeps P (f e)) \<Longrightarrow> (\<And>x. v = Inr x \<Longrightarrow> keeps P (g x)) \<Longrightarrow>
   keeps P (case v of Inl e \<Rightarrow> f e | Inr x \<Rightarrow> g x)"
  by (cases v) simp_all

lemma keeps_pair [keep_rules]: "(\<And>x y. v = (x, y) \<Longrightarrow> keeps P (f x y)) \<Longrightarrow> keeps P (case v of (x, y) \<Rightarrow> f x y)"
  by (cases v) simp

lemma keeps_comp: "keeps P f \<Longrightarrow> keeps P g \<Longrightarrow> keeps P (\<lambda>s. f (g s))"
  by (simp add: keeps_def)

named_theorems http_simps \<open>what the writer operations do\<close>

lemma out_simps [simp]:
  "wb_world (out f s) = wb_world s" "wb_out (out f s) = f (wb_out s)"
  "wb_ingestOwnerLimiter (out f s) = wb_ingestOwnerLimiter s"
  "wb_publicRouteIPLimiter (out f s) = wb_publicRouteIPLimiter s"
  "wb_oidcVerifier (out f s) = wb_oidcVerifier s" "wb_random (out f s) = wb_random s"
  "wb_replies (out f s) = wb_replies s"
  by (simp_all add: out_def)

lemma header_simps [simp]:
  "wr_status (header_Set k v w) = wr_status w" "wr_status (header_Add k v w) = wr_status w"
  "wr_status (SetCookie c w) = wr_status w"
  "wr_recorded (header_Set k v w) = wr_recorded w" "wr_recorded (header_Add k v w) = wr_recorded w"
  "wr_recorded (SetCookie c w) = wr_recorded w"
  by (simp_all add: header_Set_def header_Add_def SetCookie_def)

lemma status_WriteHeader [simp]:
  "wr_status (WriteHeader code w) = (case wr_status w of None \<Rightarrow> Some code | Some c \<Rightarrow> Some c)"
  by (auto simp: WriteHeader_def split: option.split)

lemma status_Write [simp]:
  "wr_status (Write b w) = (case wr_status w of None \<Rightarrow> Some 200 | Some c \<Rightarrow> Some c)"
  by (auto simp: Write_def Let_def split: option.split)

lemma recorded_simps [simp]:
  "wr_recorded (WriteHeader code w) = code" "wr_recorded (Write b w) = wr_recorded w"
  "wr_recorded (http_Error msg code w) = code" "wr_recorded (http_Redirect url code w) = code"
  by (simp_all add: WriteHeader_def Write_def http_Error_def http_Redirect_def)

lemma status_http_Error [simp]:
  "wr_status (http_Error msg code w) = (case wr_status w of None \<Rightarrow> Some code | Some c \<Rightarrow> Some c)"
  by (simp add: http_Error_def split: option.split)

lemma status_http_Redirect [simp]:
  "wr_status (http_Redirect url code w) = (case wr_status w of None \<Rightarrow> Some code | Some c \<Rightarrow> Some c)"
  by (simp add: http_Redirect_def)

lemma sent_http_Error [simp]: "wr_status w = None \<Longrightarrow> sent_status (http_Error msg code w) = code"
  by (simp add: sent_status_def)

lemma sent_http_Redirect [simp]: "wr_status w = None \<Longrightarrow> sent_status (http_Redirect url code w) = code"
  by (simp add: sent_status_def)

text \<open>The first status that is written is the one that is sent.\<close>

lemma status_render:
  "wr_status w = Some c \<Longrightarrow> wr_status (snd (render tp page status w)) = Some c"
  by (auto simp: render_def Let_def split: sum.split)

lemma status_RenderWithStatus:
  "wr_status w = None \<Longrightarrow> 0 < status \<Longrightarrow> tp_parse tp (page_funcs tp) page = Inr u \<Longrightarrow>
   wr_status (snd (RenderWithStatus tp status page w)) = Some status"
  by (auto simp: RenderWithStatus_def render_def Let_def split: sum.split)

end
