(* ===== verification/Sessions.thy ===== *)
theory Sessions
  imports Http Base64
begin

text \<open>
  \<open>server/internal/auth/session.go\<close>: tokens from the random source and the two cookies, the session
  and the state of a login under way. A request's cookies are pairs of a name and a value;
  \<open>r.Cookie\<close> gives the first of a name.
\<close>

definition SessionCookieName :: string where
  "SessionCookieName = ''ghapp_demo_session''"

definition OAuthStateCookieName :: string where
  "OAuthStateCookieName = ''ghapp_demo_oauth_state''"

definition NewToken :: "string webop" where
  "NewToken = bind_op (rand_Read 32) (\<lambda>buf. ret (RawURLEncode buf))"

definition SetSessionCookie :: "string \<Rightarrow> instant \<Rightarrow> bool \<Rightarrow> writer \<Rightarrow> writer" where
  "SetSessionCookie token expiresAt secure =
     SetCookie \<lparr>ck_Name = SessionCookieName, ck_Value = token, ck_Path = ''/'', ck_HttpOnly = True,
       ck_Secure = secure, ck_SameSite = ''Lax'', ck_MaxAge = 0, ck_Expires = Some expiresAt\<rparr>"

definition ClearSessionCookie :: "bool \<Rightarrow> writer \<Rightarrow> writer" where
  "ClearSessionCookie secure =
     SetCookie \<lparr>ck_Name = SessionCookieName, ck_Value = [], ck_Path = ''/'', ck_HttpOnly = True,
       ck_Secure = secure, ck_SameSite = ''Lax'', ck_MaxAge = - 1, ck_Expires = Some (Instant 0)\<rparr>"

definition request_Cookie :: "http_request \<Rightarrow> string \<Rightarrow> string option" where
  "request_Cookie r name = map_of (hr_Cookies r) name"

definition ReadSessionToken :: "http_request \<Rightarrow> string option" where
  "ReadSessionToken r =
     (case request_Cookie r SessionCookieName of
        None \<Rightarrow> None
      | Some v \<Rightarrow> if v = [] then None else Some v)"

definition SetOAuthStateCookie :: "instant \<Rightarrow> string \<Rightarrow> bool \<Rightarrow> writer \<Rightarrow> writer" where
  "SetOAuthStateCookie now state secure =
     SetCookie \<lparr>ck_Name = OAuthStateCookieName, ck_Value = state, ck_Path = ''/'', ck_HttpOnly = True,
       ck_Secure = secure, ck_SameSite = ''Lax'', ck_MaxAge = 600, ck_Expires = Some (time_Add now (10 * minute))\<rparr>"

definition ReadOAuthStateCookie :: "http_request \<Rightarrow> string option" where
  "ReadOAuthStateCookie r =
     (case request_Cookie r OAuthStateCookieName of
        None \<Rightarrow> None
      | Some v \<Rightarrow> if v = [] then None else Some v)"

definition ClearOAuthStateCookie :: "bool \<Rightarrow> writer \<Rightarrow> writer" where
  "ClearOAuthStateCookie secure =
     SetCookie \<lparr>ck_Name = OAuthStateCookieName, ck_Value = [], ck_Path = ''/'', ck_HttpOnly = True,
       ck_Secure = secure, ck_SameSite = ''Lax'', ck_MaxAge = - 1, ck_Expires = Some (Instant 0)\<rparr>"

text \<open>
  What a browser makes of the cookies of a response: an expired cookie is removed, any other
  replaces the one of its name. It is used in statements only.
\<close>

definition browser_accepts :: "cookie \<Rightarrow> (string \<times> string) list \<Rightarrow> (string \<times> string) list" where
  "browser_accepts c jar =
     (let others = filter (\<lambda>p. fst p \<noteq> ck_Name c) jar
      in if ck_MaxAge c < 0 then others else others @ [(ck_Name c, ck_Value c)])"

lemma browser_keeps_other:
  "k \<noteq> ck_Name c \<Longrightarrow> map_of (browser_accepts c jar) k = map_of jar k"
  by (induction jar) (auto simp: browser_accepts_def Let_def)

lemma browser_has_cookie:
  "0 \<le> ck_MaxAge c \<Longrightarrow> map_of (browser_accepts c jar) (ck_Name c) = Some (ck_Value c)"
  by (induction jar) (auto simp: browser_accepts_def Let_def)

lemma NewToken_ok: "NewToken s = (Inr token, s') \<Longrightarrow>
   \<exists>buf. length buf = 32 \<and> token = RawURLEncode buf \<and> wb_world s' = wb_world s \<and> wb_out s' = wb_out s"
  by (auto simp: NewToken_def bind_op_ok ret_def dest!: rand_Read_ok)

lemma NewToken_frame [simp]: "wb_world (snd (NewToken s)) = wb_world s" "wb_out (snd (NewToken s)) = wb_out s"
  by (auto simp: NewToken_def bind_op_def ret_def rand_Read_def split: prod.splits sum.splits list.splits)

end
