(* ===== verification/Web_Server.thy ===== *)
theory Web_Server
  imports Sessions
begin

text \<open>
  \<open>server/web/handler/server.go\<close>, first part: the server with its configuration and what it is
  built from, the error page, the public-route helpers, and the small parsers of the upload
  endpoints. The library calls are fields of the server: JSON, JWT, SHA-256, RFC 3339, the text
  types of PostgreSQL, the templates and the file server.
\<close>

section \<open>The server\<close>

record handler_config =
  hc_BaseURL :: string
  hc_GitHubClientID :: string
  hc_GitHubClientSecret :: string
  hc_GitHubAppInstallURL :: string
  hc_GitHubAppSettingsURL :: string

record runTokenRequest =
  rt_PayloadSHA256 :: string
  rt_JobName :: string
  rt_JobKey :: string
  rt_ExecutionID :: string
  rt_RunnerName :: string
  rt_RunnerOS :: string
  rt_CaptureStartedAt :: string
  rt_CaptureEndedAt :: string

text \<open>The libraries: what is decoded, checked and computed outside the repository.\<close>

record ('sk, 'pk) libraries =
  lb_templates :: templates
  lb_github_json :: github_json
  lb_app_signer :: "'sk app_signer"
  lb_users_get :: "string \<Rightarrow> (int64 \<times> string \<times> string) result"
  lb_jwt :: jwt_library
  lb_float_range :: "int \<Rightarrow> int \<Rightarrow> int64"
  lb_jwks :: "string \<Rightarrow> string + jwk list"
  lb_upload_jwt :: "('sk, 'pk) jwt_signer"
  lb_pg_types :: pg_types
  lb_json_Valid :: "string \<Rightarrow> bool"
  lb_token_request :: "string \<Rightarrow> runTokenRequest result"
  lb_summary :: "string \<Rightarrow> string + runSummaryPayload"
  lb_Sum256 :: "string \<Rightarrow> nat list"
  lb_parse_RFC3339 :: "string \<Rightarrow> instant result"
  lb_format_RFC3339 :: "instant \<Rightarrow> string"
  lb_token_response :: "string \<Rightarrow> string \<Rightarrow> string"
  lb_ingest_response :: "string \<Rightarrow> int64 \<Rightarrow> string"
  lb_static :: "string list \<Rightarrow> writer \<Rightarrow> writer"

text \<open>
  The fields of the server that a request does not change; the limiters and the verifier, which it
  changes, are in the state.
\<close>

record ('sk, 'pk) server =
  sv_cfg :: handler_config
  sv_secureCookies :: bool
  sv_githubAppClient :: "'sk client option"
  sv_runsTokenManager :: "('sk, 'pk) tokenManager option"
  sv_accessCacheTTL :: duration
  sv_accessMaxStaleness :: duration
  sv_ownerRunQuotaPerDay :: int64
  sv_lib :: "('sk, 'pk) libraries"

definition NewServer ::
  "('sk, 'pk) libraries \<Rightarrow> handler_config \<Rightarrow> 'sk client option \<Rightarrow> ('sk, 'pk) tokenManager option \<Rightarrow> ('sk, 'pk) server" where
  "NewServer lib cfg githubAppClient runsTokenManager =
     \<lparr>sv_cfg = cfg, sv_secureCookies = HasPrefix (ToLower (hc_BaseURL cfg)) ''https://'',
      sv_githubAppClient = githubAppClient, sv_runsTokenManager = runsTokenManager,
      sv_accessCacheTTL = 5 * minute, sv_accessMaxStaleness = 24 * hour,
      sv_ownerRunQuotaPerDay = ownerRunQuotaPerDay, sv_lib = lib\<rparr>"

definition renderError :: "('sk, 'pk) server \<Rightarrow> int \<Rightarrow> string \<Rightarrow> web \<Rightarrow> web" where
  "renderError a status message =
     out (\<lambda>w. case RenderWithStatus (lb_templates (sv_lib a)) status (LoginPage message message) w of
                (Inl _, w') \<Rightarrow> http_Error message status w'
              | (Inr _, w') \<Rightarrow> w')"

text \<open>\<open>a.renderer.Render\<close> at the end of a handler, with an error page when it fails.\<close>

definition renderPage :: "('sk, 'pk) server \<Rightarrow> page \<Rightarrow> web \<Rightarrow> web" where
  "renderPage a p s =
     (case Render (lb_templates (sv_lib a)) p (wb_out s) of
        (Inl err, w') \<Rightarrow> renderError a StatusInternalServerError (error_text err) (s\<lparr>wb_out := w'\<rparr>)
      | (Inr _, w') \<Rightarrow> s\<lparr>wb_out := w'\<rparr>)"

abbreviation redirect :: "string \<Rightarrow> web \<Rightarrow> web" where
  "redirect url \<equiv> out (http_Redirect url StatusSeeOther)"

section \<open>Public routes\<close>

text \<open>\<open>net.SplitHostPort\<close>: the host, without the brackets of an IPv6 address.\<close>

definition SplitHostPort :: "string \<Rightarrow> string option" where
  "SplitHostPort hp =
     (case LastIndex hp (CHR '':'') of
        None \<Rightarrow> None
      | Some i \<Rightarrow>
          (let head = take i hp; port = drop (Suc i) hp in
           if hp \<noteq> [] \<and> hd hp = CHR ''[''
           then (if takeWhile (\<lambda>c. c \<noteq> CHR '']'') head @ [CHR '']''] = head \<and>
                    CHR ''['' \<notin> set (drop 1 head) \<and> CHR ''['' \<notin> set port \<and> CHR '']'' \<notin> set port
                 then Some (drop 1 (butlast head)) else None)
           else if CHR '':'' \<in> set head \<or> CHR ''['' \<in> set hp \<or> CHR '']'' \<in> set hp then None
           else Some head))"

definition requestIP :: "http_request \<Rightarrow> string" where
  "requestIP r =
     (let xff = TrimSpace (hr_Header r ''X-Forwarded-For'');
          first = TrimSpace (hd (Split xff (CHR '','')));
          hostPort = TrimSpace (hr_RemoteAddr r)
      in if xff \<noteq> [] \<and> first \<noteq> [] then first
         else if hostPort = [] then ''unknown''
         else (case SplitHostPort hostPort of
                 None \<Rightarrow> hostPort
               | Some host \<Rightarrow> if TrimSpace host \<noteq> [] then host else hostPort))"

text \<open>The continuation runs when the request is admitted.\<close>

definition allowPublicRouteRequest :: "instant \<Rightarrow> http_request \<Rightarrow> (web \<Rightarrow> web) \<Rightarrow> web \<Rightarrow> web" where
  "allowPublicRouteRequest now r k s =
     (case Allow (wb_publicRouteIPLimiter s) (requestIP r) publicRouteRatePerMinute minute now of
        (ok, l) \<Rightarrow>
          (if ok then k (s\<lparr>wb_publicRouteIPLimiter := l\<rparr>)
           else out (http_Error ''rate limit exceeded'' StatusTooManyRequests) (s\<lparr>wb_publicRouteIPLimiter := l\<rparr>)))"

definition applyPublicCacheHeaders :: "bool \<Rightarrow> web \<Rightarrow> web" where
  "applyPublicCacheHeaders anonymous =
     out (\<lambda>w. header_Set ''Cache-Control'' (if anonymous then ''public, max-age=30'' else ''private, no-store'')
                (header_Add ''Vary'' ''Cookie'' w))"

definition allowIngestOwner :: "instant \<Rightarrow> int64 \<Rightarrow> (web \<Rightarrow> web) \<Rightarrow> web \<Rightarrow> web" where
  "allowIngestOwner now ownerID k s =
     (case Allow (wb_ingestOwnerLimiter s) (FormatInt ownerID) ownerIngestRatePerMinute minute now of
        (ok, l) \<Rightarrow>
          (if ok then k (s\<lparr>wb_ingestOwnerLimiter := l\<rparr>)
           else out (http_Error ''repository owner rate limit exceeded'' StatusTooManyRequests)
                  (s\<lparr>wb_ingestOwnerLimiter := l\<rparr>)))"

section \<open>Parsers\<close>

definition canManageProject :: "string \<Rightarrow> bool" where
  "canManageProject role0 = (let role = ToLower (TrimSpace role0) in role = ''owner'' \<or> role = ''admin'')"

definition configuredGitHubAppSettingsURL :: "string \<Rightarrow> string \<Rightarrow> string" where
  "configuredGitHubAppSettingsURL settingsURL installURL =
     (if TrimSpace settingsURL \<noteq> [] then TrimSpace settingsURL
      else if TrimSpace installURL \<noteq> [] then TrimSpace installURL
      else ''https://github.com/apps'')"

definition bearerToken :: "string \<Rightarrow> string option" where
  "bearerToken header0 =
     (let header = TrimSpace header0 in
      if header = [] then None
      else (case SplitN2 header (CHR '' '') of
              [scheme, rest] \<Rightarrow>
                if \<not> EqualFold scheme ''Bearer'' then None
                else if TrimSpace rest = [] then None
                else Some (TrimSpace rest)
            | _ \<Rightarrow> None))"

definition hex_lower :: "nat \<Rightarrow> char" where
  "hex_lower n = (if n < 10 then char_of (48 + n) else char_of (87 + n))"

definition hex_EncodeToString :: "nat list \<Rightarrow> string" where
  "hex_EncodeToString bs = concat (map (\<lambda>b. [hex_lower (b div 16), hex_lower (b mod 16)]) bs)"

definition sha256Hex :: "('sk, 'pk) server \<Rightarrow> string \<Rightarrow> string" where
  "sha256Hex a payload = hex_EncodeToString (lb_Sum256 (sv_lib a) payload)"

text \<open>The pattern of 64 characters from a to f and 0 to 9.\<close>

definition sha256HexPattern :: "string \<Rightarrow> bool" where
  "sha256HexPattern s \<longleftrightarrow> length s = 64 \<and> list_all (\<lambda>c. c \<in> set ''abcdef0123456789'') s"

definition normalizeSHA256Hex :: "string \<Rightarrow> string option" where
  "normalizeSHA256Hex v =
     (let normalized = ToLower (TrimSpace v) in if sha256HexPattern normalized then Some normalized else None)"

text \<open>\<open>subtle.ConstantTimeCompare(x, y) == 1\<close>: equal lengths and no byte that differs.\<close>

definition ConstantTimeCompare :: "string \<Rightarrow> string \<Rightarrow> bool" where
  "ConstantTimeCompare x y \<longleftrightarrow> length x = length y \<and> list_all (\<lambda>(c, d). c = d) (zip x y)"

definition parseOptionalRFC3339 :: "('sk, 'pk) server \<Rightarrow> string \<Rightarrow> instant option result" where
  "parseOptionalRFC3339 a v =
     (let v' = TrimSpace v in
      if v' = [] then Inr None
      else (case lb_parse_RFC3339 (sv_lib a) v' of Inl e \<Rightarrow> Inl e | Inr t \<Rightarrow> Inr (Some t)))"

definition nullableInt64Pointer :: "int64 \<Rightarrow> int64 option" where
  "nullableInt64Pointer v = (if v \<le> 0 then None else Some v)"

definition handler_splitRepoFullName :: "string \<Rightarrow> string \<times> string" where
  "handler_splitRepoFullName fullName =
     (case SplitN2 (TrimSpace fullName) (CHR ''/'') of
        [a, b] \<Rightarrow> (a, b)
      | _ \<Rightarrow> (fullName, []))"

definition repoOwnerFromFullName :: "string \<Rightarrow> string" where
  "repoOwnerFromFullName fullName = fst (handler_splitRepoFullName fullName)"

text \<open>
  The pattern \<open>refs/pull/(digits)/(merge or head)\<close>, anchored: the digits end at the first
  character that is none, and what follows is one of the two suffixes.
\<close>

definition pullRefPattern :: "string \<Rightarrow> string option" where
  "pullRefPattern s =
     (if \<not> HasPrefix s ''refs/pull/'' then None
      else (let rest = drop (length ''refs/pull/'') s;
                digits = takeWhile is_digit rest;
                tail = dropWhile is_digit rest
            in if digits \<noteq> [] \<and> (tail = ''/merge'' \<or> tail = ''/head'') then Some digits else None))"

definition parsePRNumber :: "string \<Rightarrow> int64 option" where
  "parsePRNumber ref =
     (case pullRefPattern (TrimSpace ref) of
        None \<Rightarrow> None
      | Some digits \<Rightarrow>
          (case ParseInt digits of
             None \<Rightarrow> None
           | Some n \<Rightarrow> if n \<le> 0 then None else Some n))"

section \<open>Facts\<close>

lemma keeps_renderError [keep_rules]: "keeps (\<lambda>s. I (wb_world s)) (renderError a st msg)"
  by (simp add: keeps_def renderError_def)

lemma keeps_renderPage [keep_rules]: "keeps (\<lambda>s. I (wb_world s)) (renderPage a p)"
  by (auto simp: keeps_def renderPage_def renderError_def split: prod.split sum.split)

lemma keeps_allowPublicRoute [keep_rules]:
  "keeps (\<lambda>s. I (wb_world s)) k \<Longrightarrow> keeps (\<lambda>s. I (wb_world s)) (allowPublicRouteRequest now r k)"
  by (auto simp: keeps_def allowPublicRouteRequest_def split: prod.split)

lemma keeps_allowIngestOwner [keep_rules]:
  "keeps (\<lambda>s. I (wb_world s)) k \<Longrightarrow> keeps (\<lambda>s. I (wb_world s)) (allowIngestOwner now owner k)"
  by (auto simp: keeps_def allowIngestOwner_def split: prod.split)

lemma renderError_frame [simp]:
  "wb_world (renderError a st msg s) = wb_world s" "wb_random (renderError a st msg s) = wb_random s"
  "wb_ingestOwnerLimiter (renderError a st msg s) = wb_ingestOwnerLimiter s"
  "wb_publicRouteIPLimiter (renderError a st msg s) = wb_publicRouteIPLimiter s"
  "wb_oidcVerifier (renderError a st msg s) = wb_oidcVerifier s"
  by (simp_all add: renderError_def)

lemma renderPage_frame [simp]:
  "wb_world (renderPage a p s) = wb_world s"
  by (simp add: renderPage_def split: prod.split sum.split)

text \<open>The error page has the status asked for, also when its template fails.\<close>

lemma sent_renderError [simp]:
  assumes "fresh_writer s" "0 < st"
  shows "status_of (renderError a st msg s) = st"
proof (cases "tp_parse (lb_templates (sv_lib a)) (page_funcs (lb_templates (sv_lib a))) (LoginPage msg msg)")
  case (Inl e)
  with assms show ?thesis
    by (simp add: renderError_def RenderWithStatus_def render_def)
next
  case (Inr u)
  have "wr_status (snd (RenderWithStatus (lb_templates (sv_lib a)) st (LoginPage msg msg) (wb_out s))) = Some st"
    by (rule status_RenderWithStatus [OF assms Inr])
  then show ?thesis
    by (auto simp: renderError_def sent_status_def split: prod.split sum.split)
qed

lemma ConstantTimeCompare_eq: "ConstantTimeCompare x y \<longleftrightarrow> x = y"
  by (auto simp: ConstantTimeCompare_def list_eq_iff_zip_eq list_all_iff)

lemma parsePRNumber_canonical:
  "0 < n \<Longrightarrow> pullRefPattern (''refs/pull/'' @ FormatInt n @ ''/merge'') = Some (FormatInt n)"
proof -
  assume "0 < n"
  have "\<not> is_digit (CHR ''/'')"
    by code_simp
  then have "takeWhile is_digit (nat_digits m @ ''/merge'') = nat_digits m"
    "dropWhile is_digit (nat_digits m @ ''/merge'') = ''/merge''" for m
    using nat_digits_digits by (simp_all add: takeWhile_append2 dropWhile_append2)
  with \<open>0 < n\<close> show ?thesis
    by (simp add: pullRefPattern_def HasPrefix_def FormatInt_def)
qed

lemma hex_lower_ok: "n < 16 \<Longrightarrow> hex_lower n \<in> set ''abcdef0123456789''"
proof -
  assume "n < 16"
  moreover have "\<forall>n \<in> set [0..<16]. hex_lower n \<in> set ''abcdef0123456789''"
    by code_simp
  ultimately show ?thesis by simp
qed

lemma sha256Hex_normal:
  assumes "length (lb_Sum256 (sv_lib a) body) = 32" "\<forall>b \<in> set (lb_Sum256 (sv_lib a) body). b < 256"
  shows "sha256HexPattern (sha256Hex a body)"
proof -
  have "length (hex_EncodeToString bs) = 2 * length bs" for bs
    by (induction bs) (simp_all add: hex_EncodeToString_def)
  moreover have "c \<in> set ''abcdef0123456789''" if "c \<in> set (sha256Hex a body)" for c
  proof -
    from that obtain b where b: "b \<in> set (lb_Sum256 (sv_lib a) body)" "c = hex_lower (b div 16) \<or> c = hex_lower (b mod 16)"
      by (auto simp: sha256Hex_def hex_EncodeToString_def)
    with assms(2) have "b div 16 < 16" "b mod 16 < 16"
      by auto
    with b(2) show ?thesis using hex_lower_ok by blast
  qed
  ultimately show ?thesis
    using assms(1) by (simp only: sha256HexPattern_def sha256Hex_def list_all_iff) simp
qed

text \<open>A normal hash is its own normal form.\<close>

lemma hex_chars:
  "c \<in> set ''abcdef0123456789'' \<Longrightarrow> \<not> is_upper c \<and> c \<noteq> CHR 0xC4 \<and> c \<noteq> CHR 0xE2 \<and> (\<forall>w \<in> set white_space. c \<notin> set w)"
proof -
  have "\<forall>c \<in> set ''abcdef0123456789''. \<not> is_upper c \<and> c \<noteq> CHR 0xC4 \<and> c \<noteq> CHR 0xE2 \<and> (\<forall>w \<in> set white_space. c \<notin> set w)"
    by code_simp
  then show "c \<in> set ''abcdef0123456789'' \<Longrightarrow> ?thesis" by blast
qed

lemma TrimSpace_no_space:
  assumes "\<And>c w. c \<in> set s \<Longrightarrow> w \<in> set white_space \<Longrightarrow> c \<notin> set w"
  shows "TrimSpace s = s"
proof -
  have *: "find (\<lambda>w. w \<noteq> [] \<and> prefix w t) ws = None" if "\<And>c w. c \<in> set t \<Longrightarrow> w \<in> set ws \<Longrightarrow> c \<notin> set w" for t ws
    using that by (auto simp: find_None_iff prefix_def) (metis hd_in_set in_set_conv_decomp list.set_intros(1) append_is_Nil_conv Un_iff set_append)
  have "trim_encs white_space s = s" "trim_encs (map rev white_space) (rev s) = rev s"
    using assms by (auto intro!: trim_encs_None *)
  then show ?thesis by (simp add: TrimSpace_def)
qed

lemma normalize_again:
  assumes "normalizeSHA256Hex v = Some sha"
  shows "normalizeSHA256Hex sha = Some sha"
proof -
  have sha: "sha256HexPattern sha"
    using assms by (auto simp: normalizeSHA256Hex_def Let_def split: if_splits)
  then have c: "c \<in> set ''abcdef0123456789''" if "c \<in> set sha" for c
    using that by (auto simp: sha256HexPattern_def list_all_iff)
  have "TrimSpace sha = sha"
    using c hex_chars by (intro TrimSpace_no_space) blast
  moreover have "ToLower t = t" if "\<And>c. c \<in> set t \<Longrightarrow> c \<in> set ''abcdef0123456789''" for t
    using that
  proof (induction t)
    case (Cons c t)
    then have "\<not> is_upper c \<and> c \<noteq> CHR 0xC4 \<and> c \<noteq> CHR 0xE2"
      using hex_chars [of c] by (meson list.set_intros(1))
    with Cons show ?case by simp
  qed simp
  ultimately show ?thesis
    using sha c by (simp add: normalizeSHA256Hex_def)
qed

end
