(* ===== verification/Access_Sync.thy ===== *)
theory Access_Sync
  imports Web_Server
begin

text \<open>
  \<open>server/web/handler/server.go\<close>, second part: keeping the list of repositories that a user can
  reach on GitHub, which decides what the user may bind. The per-user lock makes two
  synchronisations of one user run one after the other; operations are sequential here. One
  synchronisation reads the clock once.
\<close>

section \<open>Model\<close>

definition on_network :: "(net \<Rightarrow> 'a result \<times> net) \<Rightarrow> 'a webop" where
  "on_network m = on_world (on_gh (on_net m))"

definition encrypt_fresh :: "'sk client \<Rightarrow> string \<Rightarrow> nat list webop" where
  "encrypt_fresh c token s = (case rand_Read (nonce_size (gc_aead c)) s of (nonce, s') \<Rightarrow> (EncryptToken c nonce token, s'))"

text \<open>The access token has expired or will within a minute.\<close>

definition token_expired :: "instant \<Rightarrow> instant option \<Rightarrow> bool" where
  "token_expired now accessExp =
     (case accessExp of None \<Rightarrow> False | Some e \<Rightarrow> time_After now (time_Add e (- (1 * minute))))"

definition refresh_access ::
  "('sk, 'pk) server \<Rightarrow> 'sk client \<Rightarrow> instant \<Rightarrow> int64 \<Rightarrow> nat list option \<Rightarrow> string webop" where
  "refresh_access a c now userID refreshEnc =
     (let enc = (case refreshEnc of None \<Rightarrow> [] | Some e \<Rightarrow> e) in
      if length enc = 0 then fail (NewError ''github user token expired and no refresh token is available'')
      else bind_op (lift_result (DecryptToken c enc)) (\<lambda>refreshToken.
           bind_op (on_network (RefreshUserToken (lb_github_json (sv_lib a)) c now refreshToken)) (\<lambda>newTokens.
           bind_op (encrypt_fresh c (ut_AccessToken newTokens)) (\<lambda>newAccessEnc.
           bind_op (if \<not> blank (ut_RefreshToken newTokens)
                    then bind_op (encrypt_fresh c (ut_RefreshToken newTokens)) (\<lambda>e. ret (Some e))
                    else ret refreshEnc) (\<lambda>newRefreshEnc.
           bind_op (on_store (UpsertUserGitHubTokens userID newAccessEnc (ut_AccessTokenExpiresAt newTokens)
                      newRefreshEnc (ut_RefreshTokenExpiresAt newTokens))) (\<lambda>_.
           ret (ut_AccessToken newTokens)))))))"

fun upsert_listed ::
  "instant \<Rightarrow> int64 \<Rightarrow> repoLite list \<Rightarrow> userRepoAccessRow list \<Rightarrow> userRepoAccessRow list webop" where
  "upsert_listed now installationID [] rows = ret rows"
| "upsert_listed now installationID (repo # repos) rows =
     bind_op (on_store (UpsertRepo now (repo_of_lite repo))) (\<lambda>_.
     upsert_listed now installationID repos
       (rows @ [\<lparr>ura_RepoID = rl_RepoID repo, ura_InstallationID = installationID\<rparr>]))"

fun listed_access_rows ::
  "('sk, 'pk) server \<Rightarrow> instant \<Rightarrow> string \<Rightarrow> installationLite list \<Rightarrow> userRepoAccessRow list \<Rightarrow> userRepoAccessRow list webop" where
  "listed_access_rows a now accessToken [] rows = ret rows"
| "listed_access_rows a now accessToken (inst # insts) rows =
     bind_op (on_network (ListUserInstallationRepositories (lb_github_json (sv_lib a)) accessToken (il_ID inst))) (\<lambda>repos.
     bind_op (upsert_listed now (il_ID inst) repos rows) (\<lambda>rows'.
     listed_access_rows a now accessToken insts rows'))"

definition syncUserRepoAccess :: "('sk, 'pk) server \<Rightarrow> 'sk client \<Rightarrow> instant \<Rightarrow> int64 \<Rightarrow> unit webop" where
  "syncUserRepoAccess a c now userID =
     bind_op (on_store (GetUserGitHubTokens userID)) (\<lambda>(accessEnc, accessExp, refreshEnc, _).
     bind_op (lift_result (DecryptToken c accessEnc)) (\<lambda>storedToken.
     bind_op (if token_expired now accessExp then refresh_access a c now userID refreshEnc
              else ret storedToken) (\<lambda>accessToken.
     bind_op (on_network (ListUserInstallations (lb_github_json (sv_lib a)) accessToken)) (\<lambda>(installations, _).
     bind_op (listed_access_rows a now accessToken installations []) (\<lambda>rows.
     on_store (ReplaceUserRepoAccess userID rows))))))"

definition zero_sync :: userAccessSync where
  "zero_sync = \<lparr>uas_SyncedAt = None, uas_AttemptedAt = None, uas_LastError = None, uas_ETag = None\<rparr>"

text \<open>A user without a row has the zero state.\<close>

definition load_sync :: "int64 \<Rightarrow> userAccessSync webop" where
  "load_sync userID =
     catch_op (on_store (GetUserAccessSync userID))
       (\<lambda>err. if errors_Is err NotFound then ret zero_sync else fail err) ret"

definition synced_within :: "instant \<Rightarrow> duration \<Rightarrow> userAccessSync \<Rightarrow> bool" where
  "synced_within now d st = (case uas_SyncedAt st of None \<Rightarrow> False | Some t \<Rightarrow> time_Sub now t \<le> d)"

text \<open>The part under the user's lock.\<close>

definition sync_locked :: "('sk, 'pk) server \<Rightarrow> 'sk client \<Rightarrow> instant \<Rightarrow> int64 \<Rightarrow> bool webop" where
  "sync_locked a c now userID =
     bind_op (load_sync userID) (\<lambda>st.
     if synced_within now (sv_accessCacheTTL a) st then ret False
     else catch_op (syncUserRepoAccess a c now userID)
       (\<lambda>err. bind_op (catch_op (on_store (UpsertUserAccessSync userID (uas_SyncedAt st) now (Some (error_text err)) (uas_ETag st)))
                          (\<lambda>_. ret ()) ret) (\<lambda>_.
               if synced_within now (sv_accessMaxStaleness a) st then ret True else fail err))
       (\<lambda>_. bind_op (on_store (UpsertUserAccessSync userID (Some now) now None None)) (\<lambda>_. ret False)))"

definition ensureUserRepoAccess :: "('sk, 'pk) server \<Rightarrow> instant \<Rightarrow> int64 \<Rightarrow> bool webop" where
  "ensureUserRepoAccess a now userID =
     (case sv_githubAppClient a of
        None \<Rightarrow> fail (NewError ''github app client unavailable'')
      | Some c \<Rightarrow>
          bind_op (load_sync userID) (\<lambda>st.
          if synced_within now (sv_accessCacheTTL a) st then ret False else sync_locked a c now userID))"

section \<open>Preservation\<close>

lemma preserves_on_store [preserve_rules]:
  "preserves (\<lambda>s. I (tables s)) m \<Longrightarrow> preserves (\<lambda>s. I (tables_of s)) (on_store m)"
  by (auto simp: preserves_def on_store_def on_world_def on_db_def split: prod.split)

lemma preserves_on_network [preserve_rules]: "preserves (\<lambda>s. I (tables_of s)) (on_network m)"
  by (auto simp: preserves_def on_network_def on_world_def on_gh_def split: prod.split)

lemma preserves_lift_result [preserve_rules]: "preserves P (lift_result r)"
  by (simp add: preserves_def lift_result_def)

lemma preserves_encrypt_fresh [preserve_rules]: "preserves (\<lambda>s. I (tables_of s)) (encrypt_fresh c token)"
  by (auto simp: preserves_def encrypt_fresh_def rand_Read_def split: prod.split list.split)

lemma preserves_upsert_listed:
  assumes "\<And>repo. preserves (\<lambda>s. I (tables s)) (UpsertRepo now repo)"
  shows "preserves (\<lambda>s. I (tables_of s)) (upsert_listed now i repos rows)"
  by (induction repos arbitrary: rows) (simp_all, (intro preserve_rules assms; assumption?)+)

lemma preserves_access_rows:
  assumes "\<And>repo. preserves (\<lambda>s. I (tables s)) (UpsertRepo now repo)"
  shows "preserves (\<lambda>s. I (tables_of s)) (listed_access_rows a now token insts rows)"
  by (induction insts arbitrary: rows) (simp_all, (intro preserve_rules preserves_upsert_listed assms; assumption?)+)

lemma preserves_syncUserRepoAccess:
  assumes "\<And>repo. preserves (\<lambda>s. I (tables s)) (UpsertRepo now repo)"
    and "\<And>e x r y. preserves (\<lambda>s. I (tables s)) (UpsertUserGitHubTokens userID e x r y)"
    and "\<And>rows. preserves (\<lambda>s. I (tables s)) (ReplaceUserRepoAccess userID rows)"
  shows "preserves (\<lambda>s. I (tables_of s)) (syncUserRepoAccess a c now userID)"
  unfolding syncUserRepoAccess_def refresh_access_def GetUserGitHubTokens_def Let_def
  by (intro preserve_rules preserves_access_rows assms)

end
