(* ===== verification/Web_Pages.thy ===== *)
theory Web_Pages
  imports Access_Sync
begin

text \<open>
  \<open>server/web/handler/server.go\<close>, third part: the handlers for browsers, from the login with
  GitHub to the pages of projects, repositories and runs. Each handler is the code of one Go
  method, every early return included; it takes the time, the user of the request context and
  the request, and changes the state. Logging is left out.
\<close>

section \<open>The context of a request\<close>

definition errMissingUserContext :: error where
  "errMissingUserContext = NewError ''missing user in request context''"

definition userFromRequest :: "user option \<Rightarrow> user webop" where
  "userFromRequest u = (case u of None \<Rightarrow> fail errMissingUserContext | Some user \<Rightarrow> ret user)"

definition projectFromPath :: "http_request \<Rightarrow> int64 \<Rightarrow> project webop" where
  "projectFromPath r userID = on_store (GetProjectBySlug userID (hr_PathValue r ''slug''))"

text \<open>The opening of the handlers of one project: its user and the project of the path.\<close>

definition with_user :: "('sk, 'pk) server \<Rightarrow> user option \<Rightarrow> (user \<Rightarrow> web \<Rightarrow> web) \<Rightarrow> web \<Rightarrow> web" where
  "with_user a u k =
     try_op (userFromRequest u) (\<lambda>err. renderError a StatusInternalServerError (error_text err)) k"

definition with_project ::
  "('sk, 'pk) server \<Rightarrow> http_request \<Rightarrow> user \<Rightarrow> (project \<Rightarrow> web \<Rightarrow> web) \<Rightarrow> web \<Rightarrow> web" where
  "with_project a r user k =
     try_op (projectFromPath r (usr_ID user))
       (\<lambda>err. if errors_Is err NotFound then renderError a StatusNotFound ''project not found''
              else renderError a StatusInternalServerError ''failed to load project'') k"

section \<open>Login and logout\<close>

definition handleRoot :: "('sk, 'pk) server \<Rightarrow> user option \<Rightarrow> web \<Rightarrow> web" where
  "handleRoot a u =
     (if u \<noteq> None then redirect ''/dashboard'' else renderPage a (LoginPage ''Login'' []))"

definition handleGitHubLogin :: "('sk, 'pk) server \<Rightarrow> instant \<Rightarrow> web \<Rightarrow> web" where
  "handleGitHubLogin a now =
     (case sv_githubAppClient a of
        None \<Rightarrow> renderError a StatusServiceUnavailable ''GitHub App login is not configured''
      | Some c \<Rightarrow>
          try_op NewToken (\<lambda>_. renderError a StatusInternalServerError ''failed to generate oauth state'')
            (\<lambda>state s. out (http_Redirect (AuthCodeURL c state) StatusTemporaryRedirect)
               (out (SetOAuthStateCookie now state (sv_secureCookies a)) s)))"

text \<open>Encryption of the refresh token, when there is one.\<close>

definition encrypt_refresh :: "'sk client \<Rightarrow> string \<Rightarrow> nat list option webop" where
  "encrypt_refresh c token =
     (if blank token then ret None else bind_op (encrypt_fresh c token) (\<lambda>e. ret (Some e)))"

definition handleGitHubCallback ::
  "('sk, 'pk) server \<Rightarrow> instant \<Rightarrow> http_request \<Rightarrow> web \<Rightarrow> web" where
  "handleGitHubCallback a now r =
     (case sv_githubAppClient a of
        None \<Rightarrow> renderError a StatusServiceUnavailable ''GitHub App login is not configured''
      | Some c \<Rightarrow>
     (let state = hr_Query r ''state''; code = hr_Query r ''code'' in
      if state = [] \<or> code = [] then renderError a StatusBadRequest ''missing oauth state or code''
      else if ReadOAuthStateCookie r \<noteq> Some state
      then (\<lambda>s. renderError a StatusUnauthorized ''invalid oauth state'' (out (ClearOAuthStateCookie (sv_secureCookies a)) s))
      else (\<lambda>s.
        try_op (on_network (ExchangeUserCode (lb_github_json (sv_lib a)) c now code))
          (\<lambda>_. renderError a StatusBadGateway ''failed to exchange oauth code'') (\<lambda>userToken.
        try_op (lift_result (GitHubUser (lb_users_get (sv_lib a)) (ut_AccessToken userToken)))
          (\<lambda>_. renderError a StatusBadGateway ''failed to fetch github profile'') (\<lambda>(githubID, login, avatar).
        try_op (on_store (UpsertUserFromGitHub now githubID login avatar))
          (\<lambda>_. renderError a StatusInternalServerError ''failed to persist user'') (\<lambda>user.
        try_op (encrypt_fresh c (ut_AccessToken userToken))
          (\<lambda>_. renderError a StatusInternalServerError ''failed to encrypt access token'') (\<lambda>accessEnc.
        try_op (encrypt_refresh c (ut_RefreshToken userToken))
          (\<lambda>_. renderError a StatusInternalServerError ''failed to encrypt refresh token'') (\<lambda>refreshEnc.
        try_op (on_store (UpsertUserGitHubTokens (usr_ID user) accessEnc (ut_AccessTokenExpiresAt userToken)
                  refreshEnc (ut_RefreshTokenExpiresAt userToken)))
          (\<lambda>_. renderError a StatusInternalServerError ''failed to persist github tokens'') (\<lambda>_.
        try_op NewToken
          (\<lambda>_. renderError a StatusInternalServerError ''failed to create session'') (\<lambda>sessionToken.
        try_op (on_store (CreateSession (usr_ID user) sessionToken (time_Add now (30 * 24 * hour))))
          (\<lambda>_. renderError a StatusInternalServerError ''failed to store session'') (\<lambda>_ s.
        redirect ''/dashboard''
          (out (SetSessionCookie sessionToken (time_Add now (30 * 24 * hour)) (sv_secureCookies a)) s)))))))))
        (out (ClearOAuthStateCookie (sv_secureCookies a)) s))))"

definition handleLogout :: "('sk, 'pk) server \<Rightarrow> http_request \<Rightarrow> web \<Rightarrow> web" where
  "handleLogout a r s =
     redirect ''/'' (out (ClearSessionCookie (sv_secureCookies a))
       (case ReadSessionToken r of
          None \<Rightarrow> s
        | Some token \<Rightarrow> snd (on_store (DeleteSession token) s)))"

section \<open>Projects\<close>

definition handleDashboard :: "('sk, 'pk) server \<Rightarrow> user option \<Rightarrow> web \<Rightarrow> web" where
  "handleDashboard a u =
     with_user a u (\<lambda>user.
     try_op (on_store (ListProjectsByUser (usr_ID user)))
       (\<lambda>_. renderError a StatusInternalServerError ''failed to list projects'')
       (\<lambda>projects. renderPage a (DashboardPage user projects)))"

definition handleCreateProject ::
  "('sk, 'pk) server \<Rightarrow> instant \<Rightarrow> user option \<Rightarrow> http_request \<Rightarrow> web \<Rightarrow> web" where
  "handleCreateProject a now u r =
     with_user a u (\<lambda>user.
     (case hr_Form r of
        Inl _ \<Rightarrow> renderError a StatusBadRequest ''invalid form''
      | Inr form \<Rightarrow>
          (let name = TrimSpace (form ''name'') in
           if name = [] then renderError a StatusBadRequest ''project name is required''
           else try_op (on_store (CreateProject now (usr_ID user) name))
                  (\<lambda>_. renderError a StatusInternalServerError ''failed to create project'')
                  (\<lambda>project. redirect (''/projects/'' @ prj_Slug project)))))"

definition handleProject :: "('sk, 'pk) server \<Rightarrow> user option \<Rightarrow> http_request \<Rightarrow> web \<Rightarrow> web" where
  "handleProject a u r =
     with_user a u (\<lambda>user.
     with_project a r user (\<lambda>project.
     try_op (on_store (ListProjectRepos (prj_ID project)))
       (\<lambda>_. renderError a StatusInternalServerError ''failed to list project repositories'') (\<lambda>repos.
     try_op (on_store (ListRunsForProject (prj_ID project) 100))
       (\<lambda>_. renderError a StatusInternalServerError ''failed to list runs'') (\<lambda>runs.
     renderPage a (ProjectPage user project repos runs)))))"

definition handleProjectMembersPage :: "('sk, 'pk) server \<Rightarrow> user option \<Rightarrow> http_request \<Rightarrow> web \<Rightarrow> web" where
  "handleProjectMembersPage a u r =
     with_user a u (\<lambda>user.
     with_project a r user (\<lambda>project. renderPage a (MembersPage user project)))"

section \<open>Runs\<close>

definition handleRunDetail :: "('sk, 'pk) server \<Rightarrow> instant \<Rightarrow> user option \<Rightarrow> http_request \<Rightarrow> web \<Rightarrow> web" where
  "handleRunDetail a now currentUser r =
     allowPublicRouteRequest now r (\<lambda>s.
       (let publicID = TrimSpace (hr_PathValue r ''publicID'') in
        if publicID = [] then renderError a StatusBadRequest ''invalid run id''
        else try_op (on_store (GetRunByPublicID (lb_pg_types (sv_lib a)) publicID (map_option usr_ID currentUser)))
               (\<lambda>err. if errors_Is err NotFound then renderError a StatusNotFound ''run not found''
                      else renderError a StatusInternalServerError ''failed to load run'')
               (\<lambda>run. case handler_splitRepoFullName (run_RepoFullName run) of
                        (owner, repo) \<Rightarrow>
                          renderPage a (RunPage currentUser run
                            (buildRunSummaryView (lb_summary (sv_lib a)) run (run_ViewerIsMember run)) owner repo
                            (run_ViewerIsMember run))))
       (applyPublicCacheHeaders (currentUser = None) s))"

definition handleRepoRuns :: "('sk, 'pk) server \<Rightarrow> instant \<Rightarrow> user option \<Rightarrow> http_request \<Rightarrow> web \<Rightarrow> web" where
  "handleRepoRuns a now currentUser r =
     allowPublicRouteRequest now r
       (let owner = TrimSpace (hr_PathValue r ''owner''); repo = TrimSpace (hr_PathValue r ''repo'') in
        if owner = [] \<or> repo = [] then renderError a StatusNotFound ''repository not found''
        else (\<lambda>s. try_op (on_store (ListRunsForRepo owner repo (map_option usr_ID currentUser) 100))
               (\<lambda>_. renderError a StatusInternalServerError ''failed to list runs'')
               (\<lambda>runs. if length runs = 0 then renderError a StatusNotFound ''repository not found''
                       else renderPage a (RepoRunsPage currentUser owner repo runs))
               (applyPublicCacheHeaders (currentUser = None) s)))"

section \<open>Binding repositories\<close>

definition handleConnectReposPage ::
  "('sk, 'pk) server \<Rightarrow> instant \<Rightarrow> user option \<Rightarrow> http_request \<Rightarrow> web \<Rightarrow> web" where
  "handleConnectReposPage a now u r =
     with_user a u (\<lambda>user.
     with_project a r user (\<lambda>project.
     try_op (ensureUserRepoAccess a now (usr_ID user))
       (\<lambda>_. renderError a StatusForbidden ''github repository access is unavailable'') (\<lambda>usingStaleAccess.
     try_op (on_store (ListReposForProjectBinding (prj_ID project) (usr_ID user)))
       (\<lambda>_. renderError a StatusInternalServerError ''failed to list repositories'') (\<lambda>repos.
     renderPage a (ConnectPage user project repos (hc_GitHubAppInstallURL (sv_cfg a))
       (configuredGitHubAppSettingsURL (hc_GitHubAppSettingsURL (sv_cfg a)) (hc_GitHubAppInstallURL (sv_cfg a)))
       usingStaleAccess)))))"

text \<open>The positive repository id of a form; bad forms end the request.\<close>

definition with_repo_id :: "('sk, 'pk) server \<Rightarrow> http_request \<Rightarrow> (int64 \<Rightarrow> web \<Rightarrow> web) \<Rightarrow> web \<Rightarrow> web" where
  "with_repo_id a r k =
     (case hr_Form r of
        Inl _ \<Rightarrow> renderError a StatusBadRequest ''invalid form''
      | Inr form \<Rightarrow>
          (case ParseInt (TrimSpace (form ''repo_id'')) of
             None \<Rightarrow> renderError a StatusBadRequest ''invalid repo id''
           | Some repoID \<Rightarrow>
               if repoID \<le> 0 then renderError a StatusBadRequest ''invalid repo id'' else k repoID))"

definition handleBindRepo :: "('sk, 'pk) server \<Rightarrow> instant \<Rightarrow> user option \<Rightarrow> http_request \<Rightarrow> web \<Rightarrow> web" where
  "handleBindRepo a now u r =
     with_user a u (\<lambda>user.
     with_project a r user (\<lambda>project.
     if \<not> canManageProject (prj_Role project)
     then renderError a StatusForbidden ''insufficient role for repo binding''
     else with_repo_id a r (\<lambda>repoID.
     try_op (ensureUserRepoAccess a now (usr_ID user))
       (\<lambda>_. renderError a StatusForbidden ''github repository access is unavailable'') (\<lambda>_.
     try_op (on_store (UserCanAccessRepoForBinding (usr_ID user) repoID))
       (\<lambda>_. renderError a StatusInternalServerError ''failed to verify repo access'') (\<lambda>canBind.
     if \<not> canBind then renderError a StatusForbidden ''you do not have github access to this repository''
     else try_op (on_store (BindRepoToProject now (prj_ID project) repoID (usr_ID user)))
       (\<lambda>_. renderError a StatusInternalServerError ''failed to bind repository'') (\<lambda>_.
     redirect (''/projects/'' @ prj_Slug project @ ''/repos'')))))))"

definition handleUnbindRepo :: "('sk, 'pk) server \<Rightarrow> instant \<Rightarrow> user option \<Rightarrow> http_request \<Rightarrow> web \<Rightarrow> web" where
  "handleUnbindRepo a now u r =
     with_user a u (\<lambda>user.
     with_project a r user (\<lambda>project.
     if \<not> canManageProject (prj_Role project)
     then renderError a StatusForbidden ''insufficient role for repo binding''
     else with_repo_id a r (\<lambda>repoID.
     try_op (on_store (UnbindRepoFromProject now (prj_ID project) repoID))
       (\<lambda>_. renderError a StatusInternalServerError ''failed to unbind repository'') (\<lambda>_.
     redirect (''/projects/'' @ prj_Slug project @ ''/repos'')))))"

end
