(* ===== verification/Web_Ingest.thy ===== *)
theory Web_Ingest
  imports Web_Server Store_Effects
begin

text \<open>
  \<open>server/web/handler/server.go\<close>, fourth part: the two endpoints of a runner. \<open>handleRunsToken\<close>
  exchanges the runner's OIDC token for an upload token bound to the hash of the payload to come;
  \<open>handleRunsIngest\<close> takes the payload with the upload token and stores the run. One request reads
  the clock once.
\<close>

section \<open>Shared steps\<close>

text \<open>The key of the job: the one given, or the workflow reference, or the subject, or a default.\<close>

definition job_key_of :: "string \<Rightarrow> string \<Rightarrow> string \<Rightarrow> string" where
  "job_key_of key workflowRef subject =
     (if TrimSpace key \<noteq> [] then TrimSpace key
      else if TrimSpace workflowRef \<noteq> [] then TrimSpace workflowRef
      else if TrimSpace subject \<noteq> [] then TrimSpace subject
      else ''default'')"

definition job_name_of :: "string \<Rightarrow> string \<Rightarrow> string" where
  "job_name_of name jobKey = (if TrimSpace name \<noteq> [] then TrimSpace name else jobKey)"

abbreviation plain_error :: "string \<Rightarrow> int \<Rightarrow> web \<Rightarrow> web" where
  "plain_error msg code \<equiv> out (http_Error msg code)"

definition write_json :: "int \<Rightarrow> string \<Rightarrow> web \<Rightarrow> web" where
  "write_json code body = out (\<lambda>w. Write body (WriteHeader code (header_Set ''Content-Type'' ''application/json'' w)))"

text \<open>The verifier of the state, which may fetch the key set once.\<close>

definition oidc_Verify :: "('sk, 'pk) server \<Rightarrow> verifier \<Rightarrow> instant \<Rightarrow> string \<Rightarrow> principal webop" where
  "oidc_Verify a v now bearer s =
     (case (case wb_replies s of [] \<Rightarrow> (TransportError ''connection refused'', []) | x # xs \<Rightarrow> (x, xs)) of
        (reply, rest) \<Rightarrow>
          (case Verify (lb_jwt (sv_lib a)) (lb_float_range (sv_lib a)) (lb_jwks (sv_lib a)) v reply now now now bearer of
             (res, v') \<Rightarrow> (res, s\<lparr>wb_oidcVerifier := Some v', wb_replies := rest\<rparr>)))"

section \<open>Issuing an upload token\<close>

definition upload_request :: "principal \<Rightarrow> runTokenRequest \<Rightarrow> string \<Rightarrow> string \<Rightarrow> uploadRequest" where
  "upload_request p req payloadSHA executionID =
     (let jobKey = job_key_of (rt_JobKey req) (p_JobWorkflowRef p) (p_Subject p)
      in \<lparr>q_PayloadSHA256 = payloadSHA, q_ExecutionID = executionID,
          q_JobName = job_name_of (rt_JobName req) jobKey, q_JobKey = jobKey,
          q_RunnerName = TrimSpace (rt_RunnerName req), q_RunnerOS = TrimSpace (rt_RunnerOS req),
          q_CaptureStartedAt = TrimSpace (rt_CaptureStartedAt req),
          q_CaptureEndedAt = TrimSpace (rt_CaptureEndedAt req)\<rparr>)"

definition handleRunsToken :: "('sk, 'pk) server \<Rightarrow> instant \<Rightarrow> http_request \<Rightarrow> web \<Rightarrow> web" where
  "handleRunsToken a now r s =
     (case wb_oidcVerifier s of
        None \<Rightarrow> plain_error ''oidc verifier not configured'' StatusServiceUnavailable s
      | Some v \<Rightarrow>
     (case sv_runsTokenManager a of
        None \<Rightarrow> plain_error ''runs token manager not configured'' StatusServiceUnavailable s
      | Some m \<Rightarrow>
     (case bearerToken (hr_Header r ''Authorization'') of
        None \<Rightarrow> plain_error ''missing bearer token'' StatusUnauthorized s
      | Some bearer \<Rightarrow>
     try_op (oidc_Verify a v now bearer) (\<lambda>_. plain_error ''invalid oidc token'' StatusUnauthorized) (\<lambda>principal.
     allowIngestOwner now (p_RepositoryOwnerID principal)
     (case ReadBody 1048576 r of
        Inl _ \<Rightarrow> plain_error ''invalid payload'' StatusBadRequest
      | Inr body \<Rightarrow>
     (case lb_token_request (sv_lib a) body of
        Inl _ \<Rightarrow> plain_error ''invalid json payload'' StatusBadRequest
      | Inr req \<Rightarrow>
     (case normalizeSHA256Hex (rt_PayloadSHA256 req) of
        None \<Rightarrow> plain_error ''payload_sha256 must be a 64-char lowercase hex sha256'' StatusBadRequest
      | Some payloadSHA \<Rightarrow>
     (let executionID = TrimSpace (rt_ExecutionID req) in
      if executionID = [] then plain_error ''execution_id is required'' StatusBadRequest
      else
     (case IssueUploadToken (lb_upload_jwt (sv_lib a)) m principal (upload_request principal req payloadSHA executionID) now of
        Inl _ \<Rightarrow> plain_error ''failed to issue upload token'' StatusInternalServerError
      | Inr (uploadToken, expiresAt) \<Rightarrow>
          write_json StatusOK
            (lb_token_response (sv_lib a) uploadToken (lb_format_RFC3339 (sv_lib a) expiresAt)))))))) s)))"

section \<open>Taking a run\<close>

definition claims_repo :: "uploadClaims \<Rightarrow> repo" where
  "claims_repo claims =
     zero_repo\<lparr>rep_RepoID := u_RepositoryID claims, rep_FullName := u_Repository claims,
       rep_Owner := repoOwnerFromFullName (u_Repository claims), rep_OwnerID := u_RepositoryOwnerID claims,
       rep_Visibility := u_RepositoryVisibility claims, rep_UpdatedFrom := ''oidc''\<rparr>"

definition claims_run ::
  "uploadClaims \<Rightarrow> string \<Rightarrow> instant option \<Rightarrow> instant option \<Rightarrow> string \<Rightarrow> run" where
  "claims_run claims expectedSHA captureStartedAt captureEndedAt body =
     (let jobKey = job_key_of (u_JobKey claims) (u_JobWorkflowRef claims) (u_Subject claims);
          jobName = job_name_of (u_JobName claims) jobKey;
          branch = (if TrimSpace (u_HeadRef claims) \<noteq> [] then TrimSpace (u_HeadRef claims) else TrimSpace (u_Ref claims))
      in zero_run\<lparr>run_RepoID := u_RepositoryID claims, run_RepoFullName := u_Repository claims,
           run_CommitSHA := u_CommitSHA claims, run_WorkflowName := u_WorkflowName claims,
           run_WorkflowRef := u_WorkflowRef claims, run_WorkflowSHA := u_WorkflowSHA claims,
           run_JobWorkflowRef := u_JobWorkflowRef claims, run_JobWorkflowSHA := u_JobWorkflowSHA claims,
           run_JobName := jobName, run_GitHubRunID := u_RunID claims, run_GitHubJobID := u_GitHubJobID claims,
           run_RunAttempt := u_RunAttempt claims, run_Branch := branch, run_EventName := u_EventName claims,
           run_Actor := u_Actor claims, run_ActorID := nullableInt64Pointer (u_ActorID claims),
           run_RunnerEnvironment := u_RunnerEnvironment claims, run_ExecutionID := u_ExecutionID claims,
           run_JobKey := jobKey, run_RunnerName := u_RunnerName claims, run_RunnerOS := u_RunnerOS claims,
           run_CaptureStartedAt := captureStartedAt, run_CaptureEndedAt := captureEndedAt,
           run_PayloadSHA256 := expectedSHA, run_PRNumber := parsePRNumber (u_Ref claims),
           run_EgressJSON := body\<rparr>)"

text \<open>The owner's quota of the last day; the continuation runs when it is not used up.\<close>

definition within_quota :: "('sk, 'pk) server \<Rightarrow> instant \<Rightarrow> int64 \<Rightarrow> (web \<Rightarrow> web) \<Rightarrow> web \<Rightarrow> web" where
  "within_quota a now ownerID k =
     (if 0 < sv_ownerRunQuotaPerDay a
      then try_op (on_store (CountRunsByOwnerSince ownerID (time_Add now (- (24 * hour)))))
             (\<lambda>_. plain_error ''failed to evaluate owner quota'' StatusInternalServerError)
             (\<lambda>count. if sv_ownerRunQuotaPerDay a \<le> int count
                      then plain_error ''repository owner daily run quota exceeded'' StatusTooManyRequests
                      else k)
      else k)"

text \<open>From the checked claims and payload on: the repository, the quota and the run.\<close>

definition store_upload ::
  "('sk, 'pk) server \<Rightarrow> instant \<Rightarrow> string \<Rightarrow> uploadClaims \<Rightarrow> run \<Rightarrow> web \<Rightarrow> web" where
  "store_upload a now uuid claims run =
     try_op (on_store (UpsertRepo now (claims_repo claims)))
       (\<lambda>_. plain_error ''failed to persist repo'' StatusInternalServerError) (\<lambda>_.
     within_quota a now (u_RepositoryOwnerID claims) (
     try_op (on_store (UpsertRun (lb_pg_types (sv_lib a)) now uuid run))
       (\<lambda>_. plain_error ''failed to persist run'' StatusInternalServerError) (\<lambda>_.
     write_json StatusAccepted (lb_ingest_response (sv_lib a) (u_Repository claims) (u_RunID claims)))))"

text \<open>The checks of the payload against the token; the result is the hash that both name.\<close>

definition check_payload :: "('sk, 'pk) server \<Rightarrow> uploadClaims \<Rightarrow> string \<Rightarrow> (string \<times> int) + string" where
  "check_payload a claims body =
     (if blank body \<or> \<not> lb_json_Valid (sv_lib a) body then Inl (''payload must be valid json'', StatusBadRequest)
      else (case validateRunSummaryPayload (lb_summary (sv_lib a)) body of
        Inl err \<Rightarrow> Inl (''invalid run summary payload: '' @ error_text err, StatusBadRequest)
      | Inr _ \<Rightarrow>
     (case normalizeSHA256Hex (u_PayloadSHA256 claims) of
        None \<Rightarrow> Inl (''invalid payload hash in token'', StatusUnauthorized)
      | Some expectedSHA \<Rightarrow>
          if \<not> ConstantTimeCompare (sha256Hex a body) expectedSHA
          then Inl (''payload hash mismatch'', StatusUnauthorized)
          else Inr expectedSHA)))"

definition handleRunsIngest :: "('sk, 'pk) server \<Rightarrow> instant \<Rightarrow> string \<Rightarrow> http_request \<Rightarrow> web \<Rightarrow> web" where
  "handleRunsIngest a now uuid r =
     (case sv_runsTokenManager a of
        None \<Rightarrow> plain_error ''runs token manager not configured'' StatusServiceUnavailable
      | Some m \<Rightarrow>
     (case bearerToken (hr_Header r ''Authorization'') of
        None \<Rightarrow> plain_error ''missing bearer token'' StatusUnauthorized
      | Some bearer \<Rightarrow>
     (case VerifyUploadToken (lb_upload_jwt (sv_lib a)) m bearer now of
        Inl _ \<Rightarrow> plain_error ''invalid upload token'' StatusUnauthorized
      | Inr claims \<Rightarrow>
     allowIngestOwner now (u_RepositoryOwnerID claims)
     (case ReadBody 10485760 r of
        Inl _ \<Rightarrow> plain_error ''invalid payload'' StatusBadRequest
      | Inr body \<Rightarrow>
     (case check_payload a claims body of
        Inl (msg, code) \<Rightarrow> plain_error msg code
      | Inr expectedSHA \<Rightarrow>
     (case parseOptionalRFC3339 a (u_CaptureStartedAt claims) of
        Inl _ \<Rightarrow> plain_error ''invalid capture_started_at'' StatusBadRequest
      | Inr captureStartedAt \<Rightarrow>
     (case parseOptionalRFC3339 a (u_CaptureEndedAt claims) of
        Inl _ \<Rightarrow> plain_error ''invalid capture_ended_at'' StatusBadRequest
      | Inr captureEndedAt \<Rightarrow>
          store_upload a now uuid claims (claims_run claims expectedSHA captureStartedAt captureEndedAt body))))))))"

end
