(* ===== verification/Web_Routes.thy ===== *)
theory Web_Routes
  imports Web_Pages Web_Ingest Configuration
begin

text \<open>
  \<open>server/web/handler/server.go\<close>, last part, and \<open>server/cmd/server/main.go\<close>: the routes, the
  middleware that finds the user of a request, and how the process is put together. The router
  gets the method and the segments of the path; that it cleans paths and redirects unclean ones
  is left out; the time limit of a request, the log and the recovery from panics are in Web_Middleware.
\<close>

section \<open>Routes\<close>

datatype route =
    Static "string list" | Healthz | Root | GitHubLogin | GitHubCallback | LogoutRoute
  | DashboardRoute | CreateProjectRoute | ProjectRoute string | ConnectRepos string | BindRepo string
  | UnbindRepo string | Members string | RunDetail string | RepoRuns string string | RunsToken | RunsIngest

definition get_route :: "string list \<Rightarrow> route option" where
  "get_route segs =
     (case segs of
        [] \<Rightarrow> Some Root
      | [x] \<Rightarrow> if x = ''healthz'' then Some Healthz else if x = ''dashboard'' then Some DashboardRoute else None
      | [x, y] \<Rightarrow>
          if x = ''static'' then Some (Static [y])
          else if x = ''auth'' \<and> y = ''github'' then Some GitHubLogin
          else if x = ''projects'' \<and> y \<noteq> [] then Some (ProjectRoute y)
          else if x = ''runs'' \<and> y \<noteq> [] then Some (RunDetail y)
          else None
      | [x, y, z] \<Rightarrow>
          if x = ''static'' then Some (Static [y, z])
          else if x = ''auth'' \<and> y = ''github'' \<and> z = ''callback'' then Some GitHubCallback
          else if x = ''projects'' \<and> y \<noteq> [] \<and> z = ''repos'' then Some (ConnectRepos y)
          else if x = ''projects'' \<and> y \<noteq> [] \<and> z = ''members'' then Some (Members y)
          else if x = ''r'' \<and> y \<noteq> [] \<and> z \<noteq> [] then Some (RepoRuns y z)
          else None
      | x # rest \<Rightarrow> if x = ''static'' then Some (Static rest) else None)"

definition post_route :: "string list \<Rightarrow> route option" where
  "post_route segs =
     (case segs of
        [x] \<Rightarrow> if x = ''projects'' then Some CreateProjectRoute else if x = ''runs'' then Some RunsIngest else None
      | [x, y] \<Rightarrow>
          if x = ''auth'' \<and> y = ''logout'' then Some LogoutRoute
          else if x = ''runs'' \<and> y = ''token'' then Some RunsToken else None
      | [x, y, z, w] \<Rightarrow>
          if x = ''projects'' \<and> y \<noteq> [] \<and> z = ''repos'' \<and> w = ''bind'' then Some (BindRepo y)
          else if x = ''projects'' \<and> y \<noteq> [] \<and> z = ''repos'' \<and> w = ''unbind'' then Some (UnbindRepo y)
          else None
      | _ \<Rightarrow> None)"

text \<open>The segments of the wildcards.\<close>

definition path_values :: "route \<Rightarrow> string \<Rightarrow> string" where
  "path_values rt name =
     (case rt of
        ProjectRoute slug \<Rightarrow> if name = ''slug'' then slug else []
      | ConnectRepos slug \<Rightarrow> if name = ''slug'' then slug else []
      | BindRepo slug \<Rightarrow> if name = ''slug'' then slug else []
      | UnbindRepo slug \<Rightarrow> if name = ''slug'' then slug else []
      | Members slug \<Rightarrow> if name = ''slug'' then slug else []
      | RunDetail publicID \<Rightarrow> if name = ''publicID'' then publicID else []
      | RepoRuns owner repo \<Rightarrow> if name = ''owner'' then owner else if name = ''repo'' then repo else []
      | _ \<Rightarrow> [])"

definition requireUser :: "(user option \<Rightarrow> web \<Rightarrow> web) \<Rightarrow> user option \<Rightarrow> web \<Rightarrow> web" where
  "requireUser next u = (if u = None then redirect ''/'' else next u)"

definition handle_healthz :: "web \<Rightarrow> web" where
  "handle_healthz = out (\<lambda>w. Write ''ok'' (WriteHeader StatusOK w))"

definition serve_route ::
  "('sk, 'pk) server \<Rightarrow> instant \<Rightarrow> string \<Rightarrow> route \<Rightarrow> http_request \<Rightarrow> user option \<Rightarrow> web \<Rightarrow> web" where
  "serve_route a now uuid rt r u =
     (case rt of
        Static path \<Rightarrow> out (lb_static (sv_lib a) path)
      | Healthz \<Rightarrow> handle_healthz
      | Root \<Rightarrow> handleRoot a u
      | GitHubLogin \<Rightarrow> handleGitHubLogin a now
      | GitHubCallback \<Rightarrow> handleGitHubCallback a now r
      | LogoutRoute \<Rightarrow> handleLogout a r
      | DashboardRoute \<Rightarrow> requireUser (handleDashboard a) u
      | CreateProjectRoute \<Rightarrow> requireUser (\<lambda>u. handleCreateProject a now u r) u
      | ProjectRoute _ \<Rightarrow> requireUser (\<lambda>u. handleProject a u r) u
      | ConnectRepos _ \<Rightarrow> requireUser (\<lambda>u. handleConnectReposPage a now u r) u
      | BindRepo _ \<Rightarrow> requireUser (\<lambda>u. handleBindRepo a now u r) u
      | UnbindRepo _ \<Rightarrow> requireUser (\<lambda>u. handleUnbindRepo a now u r) u
      | Members _ \<Rightarrow> requireUser (\<lambda>u. handleProjectMembersPage a u r) u
      | RunDetail _ \<Rightarrow> handleRunDetail a now u r
      | RepoRuns _ _ \<Rightarrow> handleRepoRuns a now u r
      | RunsToken \<Rightarrow> handleRunsToken a now r
      | RunsIngest \<Rightarrow> handleRunsIngest a now uuid r)"

definition find_route :: "string \<Rightarrow> string list \<Rightarrow> route option" where
  "find_route meth segs =
     (if meth = ''GET'' \<or> meth = ''HEAD'' then get_route segs
      else if meth = ''POST'' then post_route segs else None)"

definition mux ::
  "('sk, 'pk) server \<Rightarrow> instant \<Rightarrow> string \<Rightarrow> http_request \<Rightarrow> user option \<Rightarrow> web \<Rightarrow> web" where
  "mux a now uuid r u =
     (case find_route (hr_Method r) (hr_Segments r) of
        Some rt \<Rightarrow> serve_route a now uuid rt (r\<lparr>hr_PathValue := path_values rt\<rparr>) u
      | None \<Rightarrow>
          if get_route (hr_Segments r) \<noteq> None \<or> post_route (hr_Segments r) \<noteq> None
          then plain_error ''Method Not Allowed'' 405
          else plain_error ''404 page not found'' StatusNotFound)"

definition loadCurrentUser ::
  "('sk, 'pk) server \<Rightarrow> instant \<Rightarrow> http_request \<Rightarrow> (user option \<Rightarrow> web \<Rightarrow> web) \<Rightarrow> web \<Rightarrow> web" where
  "loadCurrentUser a now r next =
     (case ReadSessionToken r of
        None \<Rightarrow> next None
      | Some token \<Rightarrow>
          try_op (on_store (GetUserBySessionToken now token))
            (\<lambda>_. renderError a StatusInternalServerError ''failed to load user session'')
            (\<lambda>user. case user of
                       None \<Rightarrow> (\<lambda>s. next None (out (ClearSessionCookie (sv_secureCookies a)) s))
                     | Some u \<Rightarrow> next (Some u)))"

text \<open>The handler of the process: every request starts with a new writer.\<close>

definition Routes :: "('sk, 'pk) server \<Rightarrow> instant \<Rightarrow> string \<Rightarrow> http_request \<Rightarrow> web \<Rightarrow> web" where
  "Routes a now uuid r s = loadCurrentUser a now r (mux a now uuid r) (s\<lparr>wb_out := new_writer\<rparr>)"

section \<open>The process\<close>

text \<open>
  How \<open>main\<close> ends before it serves, or what it serves: the handlers, the verifier of the first
  state and the worker, which is absent without a GitHub client. Opening the pool and migrating
  are outcomes; a token manager or client that cannot be made is left out and the process goes on.
\<close>

datatype ('sk, 'pk) startup =
    Fatal string
  | MigratedOnly
  | Running "('sk, 'pk) server" verifier "'sk worker option"

definition main ::
  "('sk, 'pk) libraries \<Rightarrow> ('b, 'sk) key_reader \<Rightarrow> (nat list \<Rightarrow> aead) \<Rightarrow> config \<Rightarrow> unit result \<Rightarrow> unit result
     \<Rightarrow> ('sk, 'pk) startup" where
  "main lib rd gcm cfg pool migrated =
     (case pool of
        Inl err \<Rightarrow> Fatal (''postgres connect: '' @ error_text err)
      | Inr _ \<Rightarrow>
     (case migrated of
        Inl err \<Rightarrow> Fatal (''migrate: '' @ error_text err)
      | Inr _ \<Rightarrow>
     (if MigrateOnly cfg then MigratedOnly
      else
        (let runsTokenManager =
               (case NewTokenManager rd (lb_upload_jwt lib) (GitHubAppID cfg) (GitHubAppPrivateKey cfg) of
                  Inl _ \<Rightarrow> None | Inr m \<Rightarrow> Some m);
             githubAppClient =
               (case NewClient rd gcm \<lparr>gf_ClientID = GitHubClientID cfg, gf_ClientSecret = GitHubClientSecret cfg,
                       gf_BaseURL = BaseURL cfg, gf_TokenEncryptionKey = TokenEncryptionKey cfg,
                       gf_AppID = GitHubAppID cfg, gf_AppPrivateKey = GitHubAppPrivateKey cfg\<rparr> of
                  Inl _ \<Rightarrow> None | Inr c \<Rightarrow> Some c)
         in Running
              (NewServer lib \<lparr>hc_BaseURL = BaseURL cfg, hc_GitHubClientID = GitHubClientID cfg,
                 hc_GitHubClientSecret = GitHubClientSecret cfg, hc_GitHubAppInstallURL = GitHubAppInstallURL cfg,
                 hc_GitHubAppSettingsURL = GitHubAppSettingsURL cfg\<rparr> githubAppClient runsTokenManager)
              (NewVerifier \<lparr>oc_Issuer = OIDCIssuer cfg, oc_Audiences = OIDCAudiences cfg, oc_JWKSURL = [], oc_CacheTTL = 0\<rparr>)
              (map_option (\<lambda>c. \<lparr>wk_json = lb_github_json lib, wk_signer = lb_app_signer lib, wk_client = c,
                 wk_RetentionWindow = 0, wk_EnrichmentBatch = 0\<rparr>) githubAppClient)))))"

definition first_state :: "verifier \<Rightarrow> world \<Rightarrow> http_reply list \<Rightarrow> nat list result list \<Rightarrow> web" where
  "first_state v w replies random =
     \<lparr>wb_world = w, wb_ingestOwnerLimiter = newFixedWindowLimiter, wb_publicRouteIPLimiter = newFixedWindowLimiter,
      wb_oidcVerifier = Some v, wb_replies = replies, wb_random = random, wb_out = new_writer\<rparr>"

end
