(* ===== verification/Web_Middleware.thy ===== *)
theory Web_Middleware
  imports Web_Routes
begin

text \<open>
  \<open>server/web/handler/middleware.go\<close> and the end of \<open>Routes\<close>: the handler of the process is the
  router with the user of the session, inside the recovery from panics, inside the log, inside the
  time limit of \<open>http.TimeoutHandler\<close>. Where a handler panics is arbitrary: \<open>crash\<close> gives, for a
  state, the value of the panic and the state that the handler had reached. The log keeps the
  lines without the duration and the stack.
\<close>

section \<open>Handlers that may panic\<close>

datatype log_line = RequestLine string "string list" int | PanicLine string

datatype completion = Returned | Panicked string

type_synonym handler = "web \<Rightarrow> (completion \<times> log_line list) \<times> web"

definition may_panic :: "(web \<Rightarrow> (string \<times> web) option) \<Rightarrow> (web \<Rightarrow> web) \<Rightarrow> handler" where
  "may_panic crash next s =
     (case crash s of
        None \<Rightarrow> ((Returned, []), next s)
      | Some (v, s') \<Rightarrow> ((Panicked v, []), s'))"

section \<open>The middleware\<close>

definition RecoveryMiddleware :: "handler \<Rightarrow> handler" where
  "RecoveryMiddleware next s =
     (case next s of
        ((Returned, lines), s') \<Rightarrow> ((Returned, lines), s')
      | ((Panicked rec, lines), s') \<Rightarrow>
          ((Returned, lines @ [PanicLine rec]),
           out (http_Error ''internal server error'' StatusInternalServerError) s'))"

text \<open>The line is not written when the handler panics through this middleware.\<close>

definition LoggingMiddleware :: "http_request \<Rightarrow> handler \<Rightarrow> handler" where
  "LoggingMiddleware r next s =
     (case next (out (\<lambda>w. w\<lparr>wr_recorded := StatusOK\<rparr>) s) of
        ((Returned, lines), s') \<Rightarrow>
          ((Returned, lines @ [RequestLine (hr_Method r) (hr_Segments r) (wr_recorded (wb_out s'))]), s')
      | ((Panicked rec, lines), s') \<Rightarrow> ((Panicked rec, lines), s'))"

text \<open>
  \<open>http.TimeoutHandler\<close> keeps the response back until the handler has returned; when the time is
  over before that, the client gets 503 and the handler's response is dropped, but not what the
  handler does.
\<close>

definition TimeoutHandler :: "bool \<Rightarrow> handler \<Rightarrow> handler" where
  "TimeoutHandler late next s =
     (case next s of
        (c, s') \<Rightarrow>
          (c, if late then s'\<lparr>wb_out := Write ''request timed out'' (WriteHeader StatusServiceUnavailable new_writer)\<rparr>
              else s'))"

definition Handler ::
  "('sk, 'pk) server \<Rightarrow> instant \<Rightarrow> string \<Rightarrow> (web \<Rightarrow> (string \<times> web) option) \<Rightarrow> bool \<Rightarrow> http_request \<Rightarrow> handler" where
  "Handler a now uuid crash late r s =
     TimeoutHandler late
       (LoggingMiddleware r
         (RecoveryMiddleware (may_panic crash (loadCurrentUser a now r (mux a now uuid r)))))
       (s\<lparr>wb_out := new_writer\<rparr>)"

section \<open>Facts\<close>

definition request_start :: "web \<Rightarrow> web" where
  "request_start s = s\<lparr>wb_out := new_writer\<rparr>"

lemma start_recorded: "out (\<lambda>w. w\<lparr>wr_recorded := StatusOK\<rparr>) (s\<lparr>wb_out := new_writer\<rparr>) = request_start s"
  by (simp add: out_def new_writer_def StatusOK_def request_start_def)

lemma Handler_calm:
  assumes "crash (request_start s) = None"
  shows "Handler a now uuid crash False r s =
    ((Returned, [RequestLine (hr_Method r) (hr_Segments r) (wr_recorded (wb_out (Routes a now uuid r s)))]), Routes a now uuid r s)"
proof -
  have "loadCurrentUser a now r (mux a now uuid r) (request_start s) = Routes a now uuid r s"
    by (simp add: Routes_def request_start_def)
  with assms show ?thesis
    by (simp add: Handler_def TimeoutHandler_def LoggingMiddleware_def RecoveryMiddleware_def may_panic_def start_recorded)
qed

lemma Handler_crash:
  assumes "crash (request_start s) = Some (v, s')"
  shows "Handler a now uuid crash False r s =
    ((Returned, [PanicLine v, RequestLine (hr_Method r) (hr_Segments r) 500]), out (http_Error ''internal server error'' 500) s')"
  using assms
  by (simp add: Handler_def TimeoutHandler_def LoggingMiddleware_def RecoveryMiddleware_def may_panic_def start_recorded
      StatusInternalServerError_def)

lemma Handler_late:
  "Handler a now uuid crash True r s =
     (fst (Handler a now uuid crash False r s),
      (snd (Handler a now uuid crash False r s))\<lparr>wb_out := Write ''request timed out'' (WriteHeader 503 new_writer)\<rparr>)"
  by (simp add: Handler_def TimeoutHandler_def StatusServiceUnavailable_def split: prod.split)

end
