(* ===== verification/Web_Frames.thy ===== *)
theory Web_Frames
  imports Web_Routes
begin

text \<open>
  What the operations leave alone. An operation of the store keeps every predicate of the tables
  that its statements keep; so each operation is described once by the tables it writes, and the
  handlers inherit that through the combinators. The second section carries the constraints of
  the schema through every route.
\<close>

section \<open>Operations of the store\<close>

lemma exec_writes:
  "(\<And>d x d'. I d \<Longrightarrow> st d = Inr (x, d') \<Longrightarrow> I d') \<Longrightarrow> preserves (\<lambda>s. I (tables s)) (exec st)"
  by (rule keeps_invariant.preserves_exec, unfold_locales)

lemma tx_exec_writes:
  "(\<And>d x d'. I d \<Longrightarrow> st d = Inr (x, d') \<Longrightarrow> I d') \<Longrightarrow> preserves (\<lambda>x. I (work x)) (tx_exec st)"
  by (rule keeps_invariant.preserves_tx_exec, unfold_locales)

lemma UpsertRepo_writes:
  assumes "\<And>d rows. I d \<Longrightarrow> I (d\<lparr>db_repos := rows\<rparr>)"
  shows "preserves (\<lambda>s. I (tables s)) (UpsertRepo now repo)"
  unfolding UpsertRepo_def Let_def
  by (intro preserve_rules exec_writes) (auto simp: upsert_repo_stmt_def Let_def assms split: if_splits)

lemma UpsertUserGitHubTokens_writes:
  assumes "\<And>d rows. I d \<Longrightarrow> I (d\<lparr>db_tokens := rows\<rparr>)"
  shows "preserves (\<lambda>s. I (tables s)) (UpsertUserGitHubTokens userID ae ax re rx)"
  unfolding UpsertUserGitHubTokens_def
  by (intro preserve_rules exec_writes) (auto simp: upsert_tokens_stmt_def assms split: if_splits)

lemma UpsertUserAccessSync_writes:
  assumes "\<And>d rows. I d \<Longrightarrow> I (d\<lparr>db_syncs := rows\<rparr>)"
  shows "preserves (\<lambda>s. I (tables s)) (UpsertUserAccessSync userID synced attempted err etag)"
  unfolding UpsertUserAccessSync_def
  by (intro preserve_rules exec_writes) (auto simp: upsert_sync_stmt_def assms split: if_splits)

lemma ReplaceUserRepoAccess_writes:
  assumes "\<And>d rows. I d \<Longrightarrow> I (d\<lparr>db_access := rows\<rparr>)"
  shows "preserves (\<lambda>s. I (tables s)) (ReplaceUserRepoAccess userID rows)"
  unfolding ReplaceUserRepoAccess_def
  by (intro preserve_rules tx_exec_writes)
    (auto simp: clear_access_stmt_def insert_access_stmt_def assms split: if_splits)

lemma UpsertUserFromGitHub_writes:
  assumes "\<And>d rows next. I d \<Longrightarrow> I (d\<lparr>db_users := rows, db_next_user := next\<rparr>)"
    and "\<And>d rows. I d \<Longrightarrow> I (d\<lparr>db_users := rows\<rparr>)" and "\<And>d rows. I d \<Longrightarrow> I (d\<lparr>db_identities := rows\<rparr>)"
  shows "preserves (\<lambda>s. I (tables s)) (UpsertUserFromGitHub now gid login avatar)"
  unfolding UpsertUserFromGitHub_def github_identity_def getUserByIDTx_def
  by (intro preserve_rules tx_exec_writes)
    (auto simp: insert_user_stmt_def insert_identity_stmt_def update_identity_stmt_def update_profile_stmt_def
      Let_def assms split: if_splits)

lemma CreateSession_writes:
  assumes "\<And>d rows. I d \<Longrightarrow> I (d\<lparr>db_sessions := rows\<rparr>)"
  shows "preserves (\<lambda>s. I (tables s)) (CreateSession userID token expires)"
  unfolding CreateSession_def
  by (intro preserve_rules exec_writes) (auto simp: create_session_stmt_def assms split: if_splits)

lemma DeleteSession_writes:
  assumes "\<And>d rows. I d \<Longrightarrow> I (d\<lparr>db_sessions := rows\<rparr>)"
  shows "preserves (\<lambda>s. I (tables s)) (DeleteSession token)"
  unfolding DeleteSession_def by (intro preserve_rules exec_writes) (auto simp: delete_session_stmt_def assms)

lemma create_project_attempts_writes:
  assumes "\<And>d rows next. I d \<Longrightarrow> I (d\<lparr>db_projects := rows, db_next_project := next\<rparr>)"
    and "\<And>d rows. I d \<Longrightarrow> I (d\<lparr>db_members := rows\<rparr>)"
  shows "preserves (\<lambda>x. I (work x)) (create_project_attempts now uid name base is)"
proof (induction "is")
  case (Cons i "is")
  have "preserves (\<lambda>x. I (work x)) (tx_exec (insert_project_stmt now uid n slug))" for n slug
    by (rule tx_exec_writes) (auto simp: insert_project_stmt_def Let_def assms split: if_splits)
  moreover have "preserves (\<lambda>x. I (work x)) (tx_exec (insert_owner_stmt pid uid))" for pid
    by (rule tx_exec_writes) (auto simp: insert_owner_stmt_def assms split: if_splits)
  ultimately show ?case
    using Cons by (simp only: create_project_attempts.simps) (intro preserve_rules; assumption?)
qed (simp add: preserves_fail)

lemma CreateProject_writes:
  assumes "\<And>d rows next. I d \<Longrightarrow> I (d\<lparr>db_projects := rows, db_next_project := next\<rparr>)"
    and "\<And>d rows. I d \<Longrightarrow> I (d\<lparr>db_members := rows\<rparr>)"
  shows "preserves (\<lambda>s. I (tables s)) (CreateProject now uid name)"
  unfolding CreateProject_def by (intro preserve_rules create_project_attempts_writes assms)

lemma binding_writes:
  assumes "\<And>d rows. I d \<Longrightarrow> I (d\<lparr>db_bindings := rows\<rparr>)"
  shows "preserves (\<lambda>s. I (tables s)) (BindRepoToProject now pid rid uid)"
    and "preserves (\<lambda>s. I (tables s)) (UnbindRepoFromProject now pid rid)"
  unfolding BindRepoToProject_def UnbindRepoFromProject_def
  by (intro preserve_rules exec_writes; auto simp: bind_stmt_def unbind_stmt_def assms split: if_splits)+

lemma UpsertRun_writes:
  assumes "\<And>d rows next. I d \<Longrightarrow> I (d\<lparr>db_runs := rows, db_next_run := next\<rparr>)"
  shows "preserves (\<lambda>s. I (tables s)) (UpsertRun pt now uuid run)"
proof -
  have "I d \<Longrightarrow> I (with_run new d)" for d new
    unfolding with_run_def by (rule assms)
  then show ?thesis
    unfolding UpsertRun_def Let_def by (intro preserve_rules exec_writes) (auto simp: upsert_run_stmt_ok)
qed

lemma reads_keep:
  "preserves (\<lambda>s. I (tables s)) (GetProjectBySlug userID slug)"
  "preserves (\<lambda>s. I (tables s)) (ListProjectsByUser userID)"
  "preserves (\<lambda>s. I (tables s)) (ListProjectRepos pid)"
  "preserves (\<lambda>s. I (tables s)) (ListReposForProjectBinding pid userID)"
  "preserves (\<lambda>s. I (tables s)) (ListRunsForProject pid n)"
  "preserves (\<lambda>s. I (tables s)) (ListRunsForRepo owner repo viewer n)"
  "preserves (\<lambda>s. I (tables s)) (UserCanAccessRepoForBinding userID rid)"
  "preserves (\<lambda>s. I (tables s)) (GetUserBySessionToken now token)"
  "preserves (\<lambda>s. I (tables s)) (GetUserAccessSync userID)"
  "preserves (\<lambda>s. I (tables s)) (CountRunsByOwnerSince oid since)"
  unfolding GetProjectBySlug_def ListProjectsByUser_def ListProjectRepos_def ListReposForProjectBinding_def
    ListRunsForProject_def ListRunsForRepo_def UserCanAccessRepoForBinding_def GetUserBySessionToken_def
    GetUserAccessSync_def CountRunsByOwnerSince_def Let_def
  by (intro preserve_rules)+

lemma GetRunByPublicID_keeps: "preserves (\<lambda>s. I (tables s)) (GetRunByPublicID pt publicID viewer)"
  unfolding GetRunByPublicID_def by (intro preserve_rules)

section \<open>Steps of the handlers\<close>

lemma keeps_out_tables [keep_rules]: "keeps (\<lambda>s. I (tables_of s)) (out f)"
  by (rule keeps_out)

lemma keeps_renderError_tables [keep_rules]: "keeps (\<lambda>s. I (tables_of s)) (renderError a st msg)"
  by (rule keeps_renderError)

lemma keeps_renderPage_tables [keep_rules]: "keeps (\<lambda>s. I (tables_of s)) (renderPage a p)"
  by (rule keeps_renderPage)

lemma keeps_limited [keep_rules]:
  "keeps (\<lambda>s. I (tables_of s)) k \<Longrightarrow> keeps (\<lambda>s. I (tables_of s)) (allowPublicRouteRequest now r k)"
  "keeps (\<lambda>s. I (tables_of s)) k \<Longrightarrow> keeps (\<lambda>s. I (tables_of s)) (allowIngestOwner now owner k)"
  by (rule keeps_allowPublicRoute keeps_allowIngestOwner; assumption)+

text \<open>The rules for predicates of the tables take the place of those for the whole world.\<close>

declare keeps_out [keep_rules del] keeps_renderError [keep_rules del] keeps_renderPage [keep_rules del]
  keeps_allowPublicRoute [keep_rules del] keeps_allowIngestOwner [keep_rules del]

lemma keeps_after_out:
  "keeps (\<lambda>s. I (tables_of s)) f \<Longrightarrow> keeps (\<lambda>s. I (tables_of s)) (\<lambda>s. f (out g s))"
  by (simp add: keeps_def)

lemma preserves_NewToken [preserve_rules]: "preserves (\<lambda>s. I (tables_of s)) NewToken"
  by (simp add: preserves_def)

lemma preserves_userFromRequest [preserve_rules]: "preserves P (userFromRequest u)"
  by (auto simp: userFromRequest_def intro: preserve_rules)

lemma preserves_oidc_Verify [preserve_rules]: "preserves (\<lambda>s. I (tables_of s)) (oidc_Verify a v now bearer)"
  by (auto simp: preserves_def oidc_Verify_def split: prod.split list.split)

lemma keeps_with_user [keep_rules]:
  "(\<And>user. u = Some user \<Longrightarrow> keeps (\<lambda>s. I (tables_of s)) (k user)) \<Longrightarrow> keeps (\<lambda>s. I (tables_of s)) (with_user a u k)"
  by (cases u) (auto simp: with_user_def keeps_def try_op_def userFromRequest_def ret_def fail_def)

lemma keeps_with_project [keep_rules]:
  "(\<And>p. keeps (\<lambda>s. I (tables_of s)) (k p)) \<Longrightarrow> keeps (\<lambda>s. I (tables_of s)) (with_project a r user k)"
  unfolding with_project_def projectFromPath_def by (intro keep_rules preserve_rules reads_keep)

lemma keeps_with_repo_id [keep_rules]:
  "(\<And>i. keeps (\<lambda>s. I (tables_of s)) (k i)) \<Longrightarrow> keeps (\<lambda>s. I (tables_of s)) (with_repo_id a r k)"
  unfolding with_repo_id_def by (intro keep_rules)

lemma preserves_load_sync [preserve_rules]: "preserves (\<lambda>s. I (tables_of s)) (load_sync userID)"
  unfolding load_sync_def by (intro preserve_rules reads_keep)

lemma preserves_ensureUserRepoAccess:
  assumes "\<And>repo. preserves (\<lambda>s. I (tables s)) (UpsertRepo now repo)"
    and "\<And>e x r y. preserves (\<lambda>s. I (tables s)) (UpsertUserGitHubTokens userID e x r y)"
    and "\<And>rows. preserves (\<lambda>s. I (tables s)) (ReplaceUserRepoAccess userID rows)"
    and "\<And>synced attempted err etag. preserves (\<lambda>s. I (tables s)) (UpsertUserAccessSync userID synced attempted err etag)"
  shows "preserves (\<lambda>s. I (tables_of s)) (ensureUserRepoAccess a now userID)"
  unfolding ensureUserRepoAccess_def sync_locked_def
  by (intro preserve_rules preserves_syncUserRepoAccess assms)

end
