(* ===== verification/Web_Invariants.thy ===== *)
theory Web_Invariants
  imports Web_Frames
begin

text \<open>
  Which tables a request can write. A predicate of the tables that the access synchronisation and
  the bookkeeping of repositories keep is kept by every page; each other handler keeps it if the
  few operations that the handler adds do. With the predicates ``the bindings are these'', ``the
  sessions are these'', ``the runs are these'' this tells which requests can write these tables; with
  the constraints of the schema it gives an invariant of the whole server.
\<close>

section \<open>Handlers that only read\<close>

abbreviation keeping :: "(db \<Rightarrow> bool) \<Rightarrow> (web \<Rightarrow> web) \<Rightarrow> bool" where
  "keeping I \<equiv> keeps (\<lambda>s. I (tables_of s))"

lemma reading_handleRoot: "keeping I (handleRoot a u)"
  unfolding handleRoot_def by (intro keep_rules)

lemma reading_handleGitHubLogin: "keeping I (handleGitHubLogin a now)"
  unfolding handleGitHubLogin_def by (intro keep_rules keeps_after_out preserve_rules)

lemma reading_handleDashboard: "keeping I (handleDashboard a u)"
  unfolding handleDashboard_def by (intro keep_rules preserve_rules reads_keep)

lemma reading_handleProject: "keeping I (handleProject a u r)"
  unfolding handleProject_def by (intro keep_rules preserve_rules reads_keep)

lemma reading_handleProjectMembersPage: "keeping I (handleProjectMembersPage a u r)"
  unfolding handleProjectMembersPage_def by (intro keep_rules)

lemma reading_handleRunDetail: "keeping I (handleRunDetail a now u r)"
  unfolding handleRunDetail_def Let_def applyPublicCacheHeaders_def
  by (intro keep_rules preserve_rules GetRunByPublicID_keeps keeps_after_out)

lemma reading_handleRepoRuns: "keeping I (handleRepoRuns a now u r)"
  unfolding handleRepoRuns_def Let_def applyPublicCacheHeaders_def
  by (intro keep_rules preserve_rules reads_keep keeps_after_out)

lemma reading_write_json: "keeping I (write_json code body)"
  unfolding write_json_def by (intro keep_rules)

lemma reading_handleRunsToken: "keeping I (handleRunsToken a now r)"
proof -
  have "I (tables_of (handleRunsToken a now r s))" if "I (tables_of s)" for s
  proof (cases "wb_oidcVerifier s")
    case None
    with that show ?thesis by (simp add: handleRunsToken_def)
  next
    case (Some v)
    show ?thesis
    proof (cases "sv_runsTokenManager a")
      case m: (Some m)
      show ?thesis
      proof (cases "bearerToken (hr_Header r ''Authorization'')")
        case b: (Some bearer)
        show ?thesis
          unfolding handleRunsToken_def Let_def Some m b option.case
          by (rule keepsD [where P = "\<lambda>s. I (tables_of s)", OF _ that]) (intro keep_rules preserve_rules reading_write_json)
      qed (use that in \<open>simp add: handleRunsToken_def Some m\<close>)
    qed (use that in \<open>simp add: handleRunsToken_def Some\<close>)
  qed
  then show ?thesis by (simp add: keeps_def)
qed

lemma keeping_mux:
  assumes "\<And>rt. find_route (hr_Method r) (hr_Segments r) = Some rt \<Longrightarrow>
    keeping I (serve_route a now uuid rt (r\<lparr>hr_PathValue := path_values rt\<rparr>) u)"
  shows "keeping I (mux a now uuid r u)"
  unfolding mux_def by (intro keep_rules assms)

lemma keeping_loadCurrentUser:
  assumes "\<And>u. keeping I (next u)"
  shows "keeping I (loadCurrentUser a now r next)"
  unfolding loadCurrentUser_def
  by (intro keep_rules preserve_rules reads_keep assms keeps_after_out)

lemma keeping_Routes:
  assumes "\<And>rt u. find_route (hr_Method r) (hr_Segments r) = Some rt \<Longrightarrow>
      keeping I (serve_route a now uuid rt (r\<lparr>hr_PathValue := path_values rt\<rparr>) u)"
    and "I (tables_of s)"
  shows "I (tables_of (Routes a now uuid r s))"
  unfolding Routes_def
  by (rule keepsD [where P = "\<lambda>s. I (tables_of s)", OF keeping_loadCurrentUser [OF keeping_mux [OF assms(1)]]])
    (simp_all add: assms(2))

section \<open>The contract\<close>

locale page_invariant =
  fixes I :: "db \<Rightarrow> bool"
  assumes repos: "preserves (\<lambda>s. I (tables s)) (UpsertRepo now repo)"
    and tokens: "preserves (\<lambda>s. I (tables s)) (UpsertUserGitHubTokens userID ae ax re rx)"
begin

abbreviation kept :: "(web \<Rightarrow> web) \<Rightarrow> bool" where
  "kept \<equiv> keeps (\<lambda>s. I (tables_of s))"

lemma kept_handleCreateProject:
  "(\<And>uid name. preserves (\<lambda>s. I (tables s)) (CreateProject now uid name)) \<Longrightarrow> kept (handleCreateProject a now u r)"
  unfolding handleCreateProject_def Let_def by (intro keep_rules preserve_rules)

lemma kept_handleUnbindRepo:
  "(\<And>pid rid. preserves (\<lambda>s. I (tables s)) (UnbindRepoFromProject now pid rid)) \<Longrightarrow> kept (handleUnbindRepo a now u r)"
  unfolding handleUnbindRepo_def by (intro keep_rules preserve_rules)

lemma kept_handleLogout:
  assumes "\<And>token. preserves (\<lambda>s. I (tables s)) (DeleteSession token)"
  shows "kept (handleLogout a r)"
  using assms [THEN preserves_on_store, THEN preservesD]
  by (auto simp: keeps_def handleLogout_def split: option.split)

lemma kept_handleGitHubCallback:
  assumes "\<And>gid login avatar. preserves (\<lambda>s. I (tables s)) (UpsertUserFromGitHub now gid login avatar)"
    and "\<And>uid token expires. preserves (\<lambda>s. I (tables s)) (CreateSession uid token expires)"
  shows "kept (handleGitHubCallback a now r)"
  unfolding handleGitHubCallback_def Let_def encrypt_refresh_def
  by (intro keep_rules preserve_rules assms tokens keeps_after_out)

lemma kept_handleRunsIngest:
  assumes "\<And>pt run. preserves (\<lambda>s. I (tables s)) (UpsertRun pt now uuid run)"
  shows "kept (handleRunsIngest a now uuid r)"
  unfolding handleRunsIngest_def store_upload_def within_quota_def
  by (intro keep_rules preserve_rules repos reads_keep assms reading_write_json)

text \<open>Every other route keeps the predicate.\<close>

lemma kept_route:
  assumes "rt = GitHubCallback \<Longrightarrow> kept (handleGitHubCallback a now r)"
    and "rt = LogoutRoute \<Longrightarrow> kept (handleLogout a r)"
    and "rt = CreateProjectRoute \<Longrightarrow> kept (handleCreateProject a now u r)"
    and "\<And>slug. rt = ConnectRepos slug \<Longrightarrow> u \<noteq> None \<Longrightarrow> kept (handleConnectReposPage a now u r)"
    and "\<And>slug. rt = BindRepo slug \<Longrightarrow> u \<noteq> None \<Longrightarrow> kept (handleBindRepo a now u r)"
    and "\<And>slug. rt = UnbindRepo slug \<Longrightarrow> u \<noteq> None \<Longrightarrow> kept (handleUnbindRepo a now u r)"
    and "rt = RunsIngest \<Longrightarrow> kept (handleRunsIngest a now uuid r)"
  shows "kept (serve_route a now uuid rt r u)"
  using assms
  by (cases rt) (auto simp: serve_route_def requireUser_def handle_healthz_def
      intro: keep_rules reading_handleRoot reading_handleGitHubLogin reading_handleDashboard reading_handleProject
        reading_handleProjectMembersPage reading_handleRunDetail reading_handleRepoRuns reading_handleRunsToken)

end

text \<open>With the tables of the access synchronisation: also the pages that synchronise keep the predicate.\<close>

locale web_invariant = page_invariant +
  assumes access: "preserves (\<lambda>s. I (tables s)) (ReplaceUserRepoAccess userID rows)"
    and syncs: "preserves (\<lambda>s. I (tables s)) (UpsertUserAccessSync userID synced attempted err etag)"
begin

lemma preserves_ensure: "preserves (\<lambda>s. I (tables_of s)) (ensureUserRepoAccess a now userID)"
  by (intro preserves_ensureUserRepoAccess repos tokens access syncs)

lemma kept_handleConnectReposPage: "kept (handleConnectReposPage a now u r)"
  unfolding handleConnectReposPage_def by (intro keep_rules preserve_rules reads_keep preserves_ensure)

lemma kept_handleBindRepo:
  "(\<And>pid rid uid. preserves (\<lambda>s. I (tables s)) (BindRepoToProject now pid rid uid)) \<Longrightarrow> kept (handleBindRepo a now u r)"
  unfolding handleBindRepo_def by (intro keep_rules preserve_rules reads_keep preserves_ensure)

lemma kept_serve_route:
  assumes "rt = GitHubCallback \<Longrightarrow> kept (handleGitHubCallback a now r)"
    and "rt = LogoutRoute \<Longrightarrow> kept (handleLogout a r)"
    and "rt = CreateProjectRoute \<Longrightarrow> kept (handleCreateProject a now u r)"
    and "\<And>slug. rt = BindRepo slug \<Longrightarrow> u \<noteq> None \<Longrightarrow> kept (handleBindRepo a now u r)"
    and "\<And>slug. rt = UnbindRepo slug \<Longrightarrow> u \<noteq> None \<Longrightarrow> kept (handleUnbindRepo a now u r)"
    and "rt = RunsIngest \<Longrightarrow> kept (handleRunsIngest a now uuid r)"
  shows "kept (serve_route a now uuid rt r u)"
  by (rule kept_route; (rule kept_handleConnectReposPage | rule assms; assumption))

end

text \<open>
  Every predicate of the tables that does not look at the four tables of the bookkeeping meets the
  contract.
\<close>

lemma web_invariantI:
  assumes "\<And>d rows. I d \<Longrightarrow> I (d\<lparr>db_repos := rows\<rparr>)" "\<And>d rows. I d \<Longrightarrow> I (d\<lparr>db_tokens := rows\<rparr>)"
    and "\<And>d rows. I d \<Longrightarrow> I (d\<lparr>db_access := rows\<rparr>)" "\<And>d rows. I d \<Longrightarrow> I (d\<lparr>db_syncs := rows\<rparr>)"
  shows "web_invariant I"
  by unfold_locales
    (rule UpsertRepo_writes UpsertUserGitHubTokens_writes ReplaceUserRepoAccess_writes UpsertUserAccessSync_writes;
     fact assms)+

interpretation bindings_kept: web_invariant "\<lambda>d. db_bindings d = rows" for rows
  by (rule web_invariantI) simp_all

interpretation sessions_kept: web_invariant "\<lambda>d. db_sessions d = rows" for rows
  by (rule web_invariantI) simp_all

interpretation runs_kept: web_invariant "\<lambda>d. db_runs d = rows" for rows
  by (rule web_invariantI) simp_all

interpretation constraints_kept: web_invariant db_ok
  by unfold_locales (rule operations_preserve)+

abbreviation net_of :: "web \<Rightarrow> net" where
  "net_of s \<equiv> gs_net (wd_gh (wb_world s))"

lemma on_store_net: "on_store m s = (r, s') \<Longrightarrow> net_of s' = net_of s"
  by (auto simp: on_store_def on_world_def on_db_def split: prod.splits)

lemma on_store_out: "on_store m s = (r, s') \<Longrightarrow> wb_out s' = wb_out s"
  by (auto simp: on_store_def on_world_def split: prod.splits)

lemma on_store_store: "on_store m s = (r, s') \<Longrightarrow> m (wd_db (wb_world s)) = (r, wd_db (wb_world s'))"
  by (auto simp: on_store_def on_world_def on_db_def split: prod.splits)

section \<open>Reaching the end of a handler\<close>

text \<open>
  A handler run in a state with \<open>P\<close> ends with \<open>P\<close> or establishes \<open>Q\<close>. The rules go through a handler
  step by step and collect what is known when the last step is reached.
\<close>

definition reaches :: "(web \<Rightarrow> bool) \<Rightarrow> (web \<Rightarrow> bool) \<Rightarrow> (web \<Rightarrow> web) \<Rightarrow> web \<Rightarrow> bool" where
  "reaches P Q f s \<longleftrightarrow> P (f s) \<or> Q (f s)"

lemma reaches_keeps: "keeps P f \<Longrightarrow> P s \<Longrightarrow> reaches P Q f s"
  by (simp add: reaches_def keeps_def)

lemma reaches_try_op:
  assumes "preserves P m" "\<And>e. keeps P (h e)" "P s"
    and "\<And>x s'. m s = (Inr x, s') \<Longrightarrow> P s' \<Longrightarrow> reaches P Q (f x) s'"
  shows "reaches P Q (try_op m h f) s"
proof (cases "m s")
  case (Pair r s')
  then have "P s'"
    using preservesE [OF assms(1,3)] by simp
  with assms(4) Pair keepsD [OF assms(2) \<open>P s'\<close>] show ?thesis
    by (cases r) (auto simp: try_op_def reaches_def)
qed

lemma reaches_if:
  "(c \<Longrightarrow> reaches P Q f s) \<Longrightarrow> (\<not> c \<Longrightarrow> reaches P Q g s) \<Longrightarrow> reaches P Q (if c then f else g) s"
  by simp

lemma read_tables:
  assumes "preserves (\<lambda>t. tables t = tables (wd_db (wb_world s))) m" "on_store m s = (r, s')"
  shows "tables_of s' = tables_of s"
  using preservesE [OF preserves_on_store [OF assms(1)] refl assms(2)] by simp

lemma reaches_with_user:
  assumes "P s" "\<And>e. keeps P (renderError a StatusInternalServerError e)" "\<And>user. u = Some user \<Longrightarrow> reaches P Q (k user) s"
  shows "reaches P Q (with_user a u k) s"
proof (cases u)
  case None
  with keepsD [OF assms(2,1)] show ?thesis
    by (simp add: with_user_def userFromRequest_def try_op_def fail_def reaches_def)
next
  case (Some user)
  with assms(3) show ?thesis
    by (simp add: with_user_def userFromRequest_def try_op_def ret_def reaches_def)
qed

lemma reaches_with_project:
  assumes "I (tables_of s)"
    and "\<And>p s'. project_by_slug (usr_ID user) (hr_PathValue r ''slug'') (tables_of s) = Some p \<Longrightarrow>
      tables_of s' = tables_of s \<Longrightarrow> net_of s' = net_of s \<Longrightarrow> reaches (\<lambda>s. I (tables_of s)) Q (k p) s'"
  shows "reaches (\<lambda>s. I (tables_of s)) Q (with_project a r user k) s"
  unfolding with_project_def projectFromPath_def
proof (rule reaches_try_op)
  fix p s'
  assume p: "on_store (GetProjectBySlug (usr_ID user) (hr_PathValue r ''slug'')) s = (Inr p, s')"
  have t: "tables_of s' = tables_of s"
    by (rule read_tables [OF reads_keep(1) p])
  have "query_row (project_by_slug (usr_ID user) (hr_PathValue r ''slug'')) (wd_db (wb_world s)) = (Inr p, wd_db (wb_world s'))"
    using on_store_store [OF p] by (simp add: GetProjectBySlug_def or_not_found_ok)
  from query_row_ok [OF this] show "reaches (\<lambda>s. I (tables_of s)) Q (k p) s'"
    by (intro assms(2) t on_store_net [OF p]) simp
next
  fix err
  show "keeps (\<lambda>s. I (tables_of s)) (if errors_Is err NotFound then renderError a StatusNotFound ''project not found''
      else renderError a StatusInternalServerError ''failed to load project'')"
    by (intro keep_rules)
next
  show "preserves (\<lambda>s. I (tables_of s)) (on_store (GetProjectBySlug (usr_ID user) (hr_PathValue r ''slug'')))"
    by (intro preserve_rules reads_keep)
  show "I (tables_of s)"
    by (rule assms(1))
qed

lemma reaches_with_repo_id:
  assumes "I (tables_of s)"
    and "\<And>form repoID. hr_Form r = Inr form \<Longrightarrow> ParseInt (TrimSpace (form ''repo_id'')) = Some repoID \<Longrightarrow> 0 < repoID \<Longrightarrow>
      reaches (\<lambda>s. I (tables_of s)) Q (k repoID) s"
  shows "reaches (\<lambda>s. I (tables_of s)) Q (with_repo_id a r k) s"
  using assms by (auto simp: with_repo_id_def reaches_def split: sum.splits option.splits if_splits)

lemma on_store_exec:
  assumes "on_store (wrap_err msg (exec st)) s = (r, s')"
  shows "tables_of s' = tables_of s \<or> (\<exists>x. st (tables_of s) = Inr (x, tables_of s'))"
  using exec_tables [of st "wd_db (wb_world s)"] on_store_store [OF assms] by (metis snd_conv wrap_err_snd)

lemma reaches_last_exec:
  assumes "P s" "\<And>e. keeps P (h e)"
    and "\<And>s'. tables_of s' = tables_of s \<Longrightarrow> P s'" "\<And>s'. tables_of (f s') = tables_of s'" "\<And>e s'. tables_of (h e s') = tables_of s'"
    and "\<And>s' x. st (tables_of s) = Inr (x, tables_of s') \<Longrightarrow> Q s'"
  shows "reaches P Q (try_op (on_store (wrap_err msg (exec st))) h (\<lambda>_. f)) s"
proof (cases "on_store (wrap_err msg (exec st)) s")
  case (Pair r s')
  let ?after = "try_op (on_store (wrap_err msg (exec st))) h (\<lambda>_. f) s"
  have e: "tables_of ?after = tables_of s'"
    using Pair assms(4,5) by (cases r) (simp_all add: try_op_def)
  from on_store_exec [OF Pair] show ?thesis
  proof
    assume "tables_of s' = tables_of s"
    with assms(3) e show ?thesis by (simp add: reaches_def)
  next
    assume "\<exists>x. st (tables_of s) = Inr (x, tables_of s')"
    with assms(6) e show ?thesis by (auto simp: reaches_def)
  qed
qed

section \<open>From the handler to the request\<close>

text \<open>The user that the session of a request gives.\<close>

definition request_user :: "instant \<Rightarrow> http_request \<Rightarrow> db \<Rightarrow> user \<Rightarrow> bool" where
  "request_user now r d user \<longleftrightarrow>
     (\<exists>token. ReadSessionToken r = Some token \<and> session_user now token d = Some user)"

lemma session_query:
  assumes "on_store (GetUserBySessionToken now token) s = (Inr u, s')"
  shows "tables_of s' = tables_of s \<and> wb_out s' = wb_out s \<and> (\<forall>user. u = Some user \<longrightarrow> session_user now token (tables_of s) = Some user)"
proof -
  have "session_user now token (tables_of s) = Some user" if "u = Some user" for user
    using on_store_store [OF assms] query_row_ok [of "session_user now token" "wd_db (wb_world s)" user] that
    by (auto simp: GetUserBySessionToken_def catch_op_def ret_def fail_def split: prod.splits sum.splits if_splits)
  then show ?thesis
    using read_tables [OF reads_keep(8) assms] on_store_out [OF assms] by blast
qed

text \<open>The session middleware ends a request without a change, or hands it to the router with the user of its session.\<close>

lemma Routes_session:
  "tables_of (Routes a now uuid r s) = tables_of s \<or>
   (\<exists>u s1. tables_of s1 = tables_of s \<and> net_of s1 = net_of s \<and> fresh_writer s1 \<and>
      (\<forall>user. u = Some user \<longrightarrow> request_user now r (tables_of s) user) \<and> Routes a now uuid r s = mux a now uuid r u s1)"
proof (cases "ReadSessionToken r")
  case None
  then show ?thesis
    by (intro disjI2 exI [of _ None] exI [of _ "s\<lparr>wb_out := new_writer\<rparr>"]) (simp add: Routes_def loadCurrentUser_def new_writer_def)
next
  case (Some token)
  let ?s = "s\<lparr>wb_out := new_writer\<rparr>"
  obtain res s2 where s2: "on_store (GetUserBySessionToken now token) ?s = (res, s2)"
    by (cases "on_store (GetUserBySessionToken now token) ?s")
  have t: "tables_of s2 = tables_of s \<and> net_of s2 = net_of s" and w: "fresh_writer s2"
    using read_tables [OF reads_keep(8) s2] on_store_net [OF s2] on_store_out [OF s2] by (simp_all add: new_writer_def)
  show ?thesis
  proof (cases res)
    case (Inl e)
    with Some s2 t show ?thesis
      by (simp add: Routes_def loadCurrentUser_def try_op_def)
  next
    case (Inr u)
    show ?thesis
    proof (cases u)
      case None
      with Some s2 t w Inr show ?thesis
        by (intro disjI2 exI [of _ None] exI [of _ "out (ClearSessionCookie (sv_secureCookies a)) s2"])
          (simp add: Routes_def loadCurrentUser_def try_op_def ClearSessionCookie_def)
    next
      case u: (Some user)
      with session_query [OF s2 [unfolded Inr]] Some have "request_user now r (tables_of s) user"
        by (simp add: request_user_def)
      with Some s2 t w Inr u show ?thesis
        by (intro disjI2 exI [of _ u] exI [of _ s2]) (simp add: Routes_def loadCurrentUser_def try_op_def)
    qed
  qed
qed

context page_invariant
begin

lemma Routes_reached:
  assumes "I (tables_of s)" "\<not> I (tables_of (Routes a now uuid r s))"
  shows "\<exists>rt u s1. find_route (hr_Method r) (hr_Segments r) = Some rt \<and>
    tables_of s1 = tables_of s \<and> net_of s1 = net_of s \<and> fresh_writer s1 \<and>
    (\<forall>user. u = Some user \<longrightarrow> request_user now r (tables_of s) user) \<and>
    Routes a now uuid r s = serve_route a now uuid rt (r\<lparr>hr_PathValue := path_values rt\<rparr>) u s1 \<and>
    \<not> kept (serve_route a now uuid rt (r\<lparr>hr_PathValue := path_values rt\<rparr>) u)"
proof -
  have mux: "\<exists>rt. find_route (hr_Method r) (hr_Segments r) = Some rt \<and>
      mux a now uuid r u s1 = serve_route a now uuid rt (r\<lparr>hr_PathValue := path_values rt\<rparr>) u s1"
    if "tables_of s1 = tables_of s" "Routes a now uuid r s = mux a now uuid r u s1" for u s1
    using assms that by (auto simp: mux_def split: option.splits if_splits)
  have "tables_of (Routes a now uuid r s) \<noteq> tables_of s"
    using assms by auto
  with Routes_session [of a now uuid r s] obtain u s1 where s1: "tables_of s1 = tables_of s" "net_of s1 = net_of s" "fresh_writer s1"
    and u: "\<forall>user. u = Some user \<longrightarrow> request_user now r (tables_of s) user"
    and r: "Routes a now uuid r s = mux a now uuid r u s1"
    by blast
  from mux [OF s1(1) r] obtain rt where rt: "find_route (hr_Method r) (hr_Segments r) = Some rt"
    and h: "Routes a now uuid r s = serve_route a now uuid rt (r\<lparr>hr_PathValue := path_values rt\<rparr>) u s1"
    using r by auto
  have "\<not> kept (serve_route a now uuid rt (r\<lparr>hr_PathValue := path_values rt\<rparr>) u)"
  proof
    assume k: "kept (serve_route a now uuid rt (r\<lparr>hr_PathValue := path_values rt\<rparr>) u)"
    have "I (tables_of (Routes a now uuid r s))"
      unfolding h by (rule keepsD [OF k]) (simp add: s1 assms(1))
    with assms(2) show False by contradiction
  qed
  with rt s1 u h show ?thesis by blast
qed

end

end
