(* ===== verification/Ingest_Properties.thy ===== *)
theory Ingest_Properties
  imports Web_Invariants
begin

text \<open>
  Properties of the upload endpoints: what an accepted upload has shown and stored, what a refused
  one leaves alone, and what an upload token can be used for.
\<close>

section \<open>Statuses\<close>

lemma status_allowIngestOwner:
  assumes "fresh_writer s" "status_of (allowIngestOwner now owner k s) = c" "c \<noteq> 429"
  shows "\<exists>l. allowIngestOwner now owner k s = k (s\<lparr>wb_ingestOwnerLimiter := l\<rparr>)"
  using assms by (auto simp: allowIngestOwner_def status_codes split: prod.splits if_splits)

lemma sent_write_json [simp]: "fresh_writer s \<Longrightarrow> status_of (write_json code body s) = code"
  by (simp add: write_json_def sent_status_def)

lemma write_json_world [simp]: "wb_world (write_json code body s) = wb_world s"
  by (simp add: write_json_def)

text \<open>A step that ends the request with another status than the one seen was passed.\<close>

lemma try_op_passed:
  assumes "status_of (try_op (on_store m) (\<lambda>_. plain_error msg code) f s) = c" "fresh_writer s" "c \<noteq> code"
  shows "\<exists>x s'. on_store m s = (Inr x, s') \<and> fresh_writer s' \<and> try_op (on_store m) (\<lambda>_. plain_error msg code) f s = f x s'"
proof (cases "on_store m s")
  case (Pair r s')
  with assms on_store_out [OF Pair] show ?thesis
    by (cases r) (auto simp: try_op_def)
qed

section \<open>Accepted uploads\<close>

text \<open>What an upload has shown when it is accepted, with its claims, body and times.\<close>

definition accepted_upload ::
  "('sk, 'pk) server \<Rightarrow> instant \<Rightarrow> http_request \<Rightarrow> uploadClaims \<Rightarrow> string \<Rightarrow> string \<Rightarrow> instant option \<Rightarrow> instant option \<Rightarrow> bool" where
  "accepted_upload a now r claims body sha cs ce \<longleftrightarrow>
     (\<exists>m bearer. sv_runsTokenManager a = Some m \<and> bearerToken (hr_Header r ''Authorization'') = Some bearer \<and>
        VerifyUploadToken (lb_upload_jwt (sv_lib a)) m bearer now = Inr claims) \<and>
     hr_Body r = Inr body \<and> length body \<le> 10485760 \<and> \<not> blank body \<and> lb_json_Valid (sv_lib a) body \<and>
     is_ok (validateRunSummaryPayload (lb_summary (sv_lib a)) body) \<and>
     normalizeSHA256Hex (u_PayloadSHA256 claims) = Some sha \<and> sha256Hex a body = sha \<and>
     parseOptionalRFC3339 a (u_CaptureStartedAt claims) = Inr cs \<and> parseOptionalRFC3339 a (u_CaptureEndedAt claims) = Inr ce"

lemma check_payload_ok:
  "check_payload a claims body = Inr sha \<longleftrightarrow>
     \<not> blank body \<and> lb_json_Valid (sv_lib a) body \<and> is_ok (validateRunSummaryPayload (lb_summary (sv_lib a)) body) \<and>
     normalizeSHA256Hex (u_PayloadSHA256 claims) = Some sha \<and> sha256Hex a body = sha"
  by (cases "validateRunSummaryPayload (lb_summary (sv_lib a)) body")
     (auto simp: check_payload_def ConstantTimeCompare_eq split: option.splits)

lemma check_payload_code: "check_payload a claims body = Inl (msg, code) \<Longrightarrow> code = 400 \<or> code = 401"
  by (auto simp: check_payload_def status_codes split: if_splits option.splits sum.splits)

lemma handleRunsIngest_reaches_store:
  assumes "fresh_writer s" "status_of (handleRunsIngest a now uuid r s) \<notin> {400, 401, 429, 503}"
  shows "\<exists>claims body sha cs ce l. accepted_upload a now r claims body sha cs ce \<and>
    handleRunsIngest a now uuid r s =
      store_upload a now uuid claims (claims_run claims sha cs ce body) (s\<lparr>wb_ingestOwnerLimiter := l\<rparr>)"
proof -
  obtain m where m: "sv_runsTokenManager a = Some m"
    using assms by (cases "sv_runsTokenManager a") (auto simp: handleRunsIngest_def status_codes)
  obtain bearer where b: "bearerToken (hr_Header r ''Authorization'') = Some bearer"
    using assms m by (cases "bearerToken (hr_Header r ''Authorization'')") (auto simp: handleRunsIngest_def status_codes)
  obtain claims where c: "VerifyUploadToken (lb_upload_jwt (sv_lib a)) m bearer now = Inr claims"
    using assms m b
    by (cases "VerifyUploadToken (lb_upload_jwt (sv_lib a)) m bearer now") (auto simp: handleRunsIngest_def status_codes)
  let ?k = "case ReadBody 10485760 r of
        Inl _ \<Rightarrow> plain_error ''invalid payload'' StatusBadRequest
      | Inr body \<Rightarrow>
     (case check_payload a claims body of
        Inl (msg, code) \<Rightarrow> plain_error msg code
      | Inr expectedSHA \<Rightarrow>
     (case parseOptionalRFC3339 a (u_CaptureStartedAt claims) of
        Inl _ \<Rightarrow> plain_error ''invalid capture_started_at'' StatusBadRequest
      | Inr captureStartedAt \<Rightarrow>
     (case parseOptionalRFC3339 a (u_CaptureEndedAt claims) of
        Inl _ \<Rightarrow> plain_error ''invalid capture_ended_at'' StatusBadRequest
      | Inr captureEndedAt \<Rightarrow>
          store_upload a now uuid claims (claims_run claims expectedSHA captureStartedAt captureEndedAt body))))"
  have h: "handleRunsIngest a now uuid r s = allowIngestOwner now (u_RepositoryOwnerID claims) ?k s"
    by (simp add: handleRunsIngest_def m b c)
  then obtain l where l: "handleRunsIngest a now uuid r s = ?k (s\<lparr>wb_ingestOwnerLimiter := l\<rparr>)"
    using status_allowIngestOwner [OF assms(1) refl, of now "u_RepositoryOwnerID claims" ?k] assms(2) by auto
  have fresh: "fresh_writer (s\<lparr>wb_ingestOwnerLimiter := l\<rparr>)"
    using assms(1) by simp
  obtain body where body: "ReadBody 10485760 r = Inr body"
    using assms(2) l fresh by (cases "ReadBody 10485760 r") (auto simp: status_codes)
  obtain sha where sha: "check_payload a claims body = Inr sha"
    using assms(2) l fresh body check_payload_code [of a claims body]
    by (cases "check_payload a claims body") (auto simp: status_codes split: prod.splits)
  obtain cs where cs: "parseOptionalRFC3339 a (u_CaptureStartedAt claims) = Inr cs"
    using assms(2) l fresh body sha by (cases "parseOptionalRFC3339 a (u_CaptureStartedAt claims)") (auto simp: status_codes)
  obtain ce where ce: "parseOptionalRFC3339 a (u_CaptureEndedAt claims) = Inr ce"
    using assms(2) l fresh body sha cs
    by (cases "parseOptionalRFC3339 a (u_CaptureEndedAt claims)") (auto simp: status_codes)
  have "hr_Body r = Inr body" "length body \<le> 10485760"
    using body by (auto simp: ReadBody_def bind_result_Inr split: if_splits)
  with m b c cs ce sha [unfolded check_payload_ok] have "accepted_upload a now r claims body sha cs ce"
    unfolding accepted_upload_def by blast
  moreover have "handleRunsIngest a now uuid r s =
      store_upload a now uuid claims (claims_run claims sha cs ce body) (s\<lparr>wb_ingestOwnerLimiter := l\<rparr>)"
    using l body sha cs ce by simp
  ultimately show ?thesis by blast
qed

lemma within_quota_passed:
  assumes "status_of (within_quota a now owner k s) = 202" "fresh_writer s"
  shows "\<exists>s'. fresh_writer s' \<and> tables_of s' = tables_of s \<and> within_quota a now owner k s = k s'"
proof (cases "0 < sv_ownerRunQuotaPerDay a")
  case True
  note w = assms(1) [unfolded within_quota_def, simplified True, simplified]
  from try_op_passed [OF w assms(2)] obtain count s' where
    c: "on_store (CountRunsByOwnerSince owner (time_Add now (- (24 * hour)))) s = (Inr count, s')" "fresh_writer s'"
    and k: "within_quota a now owner k s = (if sv_ownerRunQuotaPerDay a \<le> int count
       then plain_error ''repository owner daily run quota exceeded'' StatusTooManyRequests else k) s'"
    using True by (auto simp: within_quota_def status_codes)
  have "tables_of s' = tables_of s"
    using preservesE [OF preserves_on_store [OF reads_keep(10) [of "\<lambda>d. d = tables_of s"]] refl c(1)] by simp
  with assms(1) k c show ?thesis by (auto simp: status_codes split: if_splits)
qed (use assms in \<open>auto simp: within_quota_def\<close>)

lemma store_upload_accepted:
  assumes "status_of (store_upload a now uuid claims run s) = 202" "fresh_writer s"
  shows "\<exists>t. UpsertRun (lb_pg_types (sv_lib a)) now uuid run t =
      (Inr (), wd_db (wb_world (store_upload a now uuid claims run s))) \<and> db_runs (tables t) = db_runs (tables_of s)"
proof -
  note u = assms(1) [unfolded store_upload_def]
  from try_op_passed [OF u assms(2)] obtain x s1 where
    s1: "on_store (UpsertRepo now (claims_repo claims)) s = (Inr x, s1)" "fresh_writer s1" and
    k1: "store_upload a now uuid claims run s =
      within_quota a now (u_RepositoryOwnerID claims) (
        try_op (on_store (UpsertRun (lb_pg_types (sv_lib a)) now uuid run))
          (\<lambda>_. plain_error ''failed to persist run'' StatusInternalServerError) (\<lambda>_.
        write_json StatusAccepted (lb_ingest_response (sv_lib a) (u_Repository claims) (u_RunID claims)))) s1"
    by (auto simp: store_upload_def status_codes)
  from within_quota_passed [OF assms(1) [unfolded k1] s1(2)] obtain s2 where
    s2: "fresh_writer s2" "tables_of s2 = tables_of s1" and
    k2: "store_upload a now uuid claims run s =
      try_op (on_store (UpsertRun (lb_pg_types (sv_lib a)) now uuid run))
          (\<lambda>_. plain_error ''failed to persist run'' StatusInternalServerError) (\<lambda>_.
        write_json StatusAccepted (lb_ingest_response (sv_lib a) (u_Repository claims) (u_RunID claims))) s2"
    using k1 by auto
  from try_op_passed [OF assms(1) [unfolded k2] s2(1)] obtain y s3 where
    s3: "on_store (UpsertRun (lb_pg_types (sv_lib a)) now uuid run) s2 = (Inr y, s3)" and
    k3: "store_upload a now uuid claims run s =
      write_json StatusAccepted (lb_ingest_response (sv_lib a) (u_Repository claims) (u_RunID claims)) s3"
    using k2 by (auto simp: status_codes)
  have "db_runs (tables_of s1) = db_runs (tables_of s)"
    using preservesE [OF preserves_on_store [OF UpsertRepo_writes [of "\<lambda>d. db_runs d = db_runs (tables_of s)"]] refl s1(1)] by simp
  with on_store_store [OF s3] s2(2) k3 show ?thesis
    by (intro exI [of _ "wd_db (wb_world s2)"]) simp
qed

text \<open>
  The rows afterwards hold, under the repository and the execution, this payload, its hash, the
  commit and the run; and every other execution is as before.
\<close>

definition stored_upload ::
  "pg_types \<Rightarrow> int64 \<Rightarrow> string \<Rightarrow> string \<Rightarrow> string \<Rightarrow> string \<Rightarrow> int64 \<Rightarrow> runs_row list \<Rightarrow> runs_row list \<Rightarrow> bool" where
  "stored_upload pt repoID executionID body sha commit runID before after \<longleftrightarrow>
     (\<exists>execution row. uuid_in pt executionID = Some execution \<and>
        lookup_by execution_key (repoID, execution) after = Some row \<and>
        jsonb_in pt body = Some (rr_egress_json row) \<and> rr_payload_sha256 row = sha \<and>
        rr_commit_sha row = commit \<and> rr_github_run_id row = runID \<and>
        (\<forall>key. key \<noteq> (repoID, execution) \<longrightarrow>
           lookup_by execution_key key after = lookup_by execution_key key before))"

lemma upsert_run_stored:
  assumes "upsert_run_stmt pt now uuid run d = Inr (x, d')"
  shows "stored_upload pt (run_RepoID run) (run_ExecutionID run) (run_EgressJSON run) (run_PayloadSHA256 run)
    (run_CommitSHA run) (run_GitHubRunID run) (db_runs d) (db_runs d')"
proof -
  from assms obtain execution egress new where
    e: "uuid_in pt (run_ExecutionID run) = Some execution" "jsonb_in pt (run_EgressJSON run) = Some egress"
    and new: "new = new_run_row now uuid (db_next_run d) execution egress run"
    and d': "d' = with_run new d"
    by (auto simp: upsert_run_stmt_ok)
  have key: "execution_key new = (run_RepoID run, execution)"
    by (simp add: new new_run_row_def execution_key_def)
  define row where "row = (case lookup_by execution_key (run_RepoID run, execution) (db_runs d) of
      None \<Rightarrow> new | Some old \<Rightarrow> merge_run old new)"
  have "lookup_by execution_key (run_RepoID run, execution) (db_runs d') = Some row"
    using with_run_row [of new "d"] by (simp add: key d' row_def)
  moreover have "rr_egress_json row = egress" "rr_payload_sha256 row = run_PayloadSHA256 run"
    "rr_commit_sha row = run_CommitSHA run" "rr_github_run_id row = run_GitHubRunID run"
    by (simp_all add: row_def new new_run_row_def merge_run_def split: option.split)
  moreover have "lookup_by execution_key key (db_runs d') = lookup_by execution_key key (db_runs d)"
    if "key \<noteq> (run_RepoID run, execution)" for key
    using that run_table.frame_upsert [of key new "db_runs d"] by (simp add: d' with_run_def key)
  ultimately show ?thesis
    using e by (simp add: stored_upload_def)
qed

lemma UpsertRun_stored:
  assumes "UpsertRun pt now uuid run t = (Inr (), t')" "run_EgressJSON run \<noteq> []"
  shows "stored_upload pt (run_RepoID run) (run_ExecutionID run) (run_EgressJSON run) (run_PayloadSHA256 run)
    (run_CommitSHA run) (run_GitHubRunID run) (db_runs (tables t)) (db_runs (tables t'))"
proof (rule upsert_run_stored)
  show "upsert_run_stmt pt now uuid run (tables t) = Inr ((), tables t')"
    using assms exec_ok [of "upsert_run_stmt pt now uuid run" t "()" t'] by (simp add: UpsertRun_def wrap_err_ok)
qed

lemma claims_run_simps [simp]:
  "run_RepoID (claims_run c sha cs ce body) = u_RepositoryID c" "run_ExecutionID (claims_run c sha cs ce body) = u_ExecutionID c"
  "run_EgressJSON (claims_run c sha cs ce body) = body" "run_PayloadSHA256 (claims_run c sha cs ce body) = sha"
  "run_CommitSHA (claims_run c sha cs ce body) = u_CommitSHA c" "run_GitHubRunID (claims_run c sha cs ce body) = u_RunID c"
  by (simp_all add: claims_run_def Let_def)

lemma upload_stored:
  assumes "fresh_writer s" "status_of (handleRunsIngest a now uuid r s) = 202"
  shows "\<exists>claims body sha cs ce. accepted_upload a now r claims body sha cs ce \<and>
    normalizeSHA256Hex (u_PayloadSHA256 claims) = Some (sha256Hex a body) \<and>
    stored_upload (lb_pg_types (sv_lib a)) (u_RepositoryID claims) (u_ExecutionID claims) body (sha256Hex a body)
      (u_CommitSHA claims) (u_RunID claims) (db_runs (tables_of s)) (db_runs (tables_of (handleRunsIngest a now uuid r s)))"
proof -
  have "status_of (handleRunsIngest a now uuid r s) \<notin> {400, 401, 429, 503}"
    using assms(2) by simp
  from handleRunsIngest_reaches_store [OF assms(1) this] obtain claims body sha cs ce l where
    acc: "accepted_upload a now r claims body sha cs ce" and
    h: "handleRunsIngest a now uuid r s =
      store_upload a now uuid claims (claims_run claims sha cs ce body) (s\<lparr>wb_ingestOwnerLimiter := l\<rparr>)"
    by blast
  have sha: "body \<noteq> []" "normalizeSHA256Hex (u_PayloadSHA256 claims) = Some sha" "sha256Hex a body = sha"
    using acc by (auto simp: accepted_upload_def check_payload_ok)
  from store_upload_accepted [OF assms(2) [unfolded h]] assms(1) obtain t where
    t: "UpsertRun (lb_pg_types (sv_lib a)) now uuid (claims_run claims sha cs ce body) t =
      (Inr (), wd_db (wb_world (handleRunsIngest a now uuid r s)))" "db_runs (tables t) = db_runs (tables_of s)"
    unfolding h by auto
  from UpsertRun_stored [OF t(1)] sha have
    "stored_upload (lb_pg_types (sv_lib a)) (u_RepositoryID claims) (u_ExecutionID claims) body (sha256Hex a body)
      (u_CommitSHA claims) (u_RunID claims) (db_runs (tables_of s)) (db_runs (tables_of (handleRunsIngest a now uuid r s)))"
    by (simp add: t(2))
  with acc sha show ?thesis
    by (intro exI [of _ claims] exI [of _ body] exI [of _ sha] exI [of _ cs] exI [of _ ce]) simp
qed

text \<open>Only the last step touches the runs, and it ends with 202 or 500.\<close>

lemma within_quota_cases:
  assumes "fresh_writer s"
  shows "db_runs (tables_of (within_quota a now owner k s)) = db_runs (tables_of s) \<or>
    (\<exists>s'. fresh_writer s' \<and> within_quota a now owner k s = k s')"
proof (cases "0 < sv_ownerRunQuotaPerDay a")
  case True
  obtain r s' where c: "on_store (CountRunsByOwnerSince owner (time_Add now (- (24 * hour)))) s = (r, s')"
    by (cases "on_store (CountRunsByOwnerSince owner (time_Add now (- (24 * hour)))) s")
  have "tables_of s' = tables_of s"
    using preservesE [OF preserves_on_store [OF reads_keep(10) [of "\<lambda>d. d = tables_of s"]] refl c] by simp
  with True c on_store_out [OF c] assms show ?thesis
    by (cases r; cases "\<exists>n. r = Inr n \<and> \<not> sv_ownerRunQuotaPerDay a \<le> int n")
      (auto simp: within_quota_def try_op_def intro: exI [of _ s'])
qed (use assms in \<open>auto simp: within_quota_def\<close>)

lemma store_run_status:
  assumes "fresh_writer s"
  shows "status_of (try_op (on_store (UpsertRun pt now uuid run))
      (\<lambda>_. plain_error msg StatusInternalServerError) (\<lambda>_. write_json StatusAccepted body) s) \<in> {202, 500}"
proof (cases "on_store (UpsertRun pt now uuid run) s")
  case (Pair r s')
  with assms on_store_out [OF Pair] show ?thesis
    by (cases r) (auto simp: try_op_def status_codes)
qed

lemma store_upload_runs:
  assumes "fresh_writer s" "status_of (store_upload a now uuid claims run s) \<notin> {202, 500}"
  shows "db_runs (tables_of (store_upload a now uuid claims run s)) = db_runs (tables_of s)"
proof -
  let ?store = "try_op (on_store (UpsertRun (lb_pg_types (sv_lib a)) now uuid run))
      (\<lambda>_. plain_error ''failed to persist run'' StatusInternalServerError)
      (\<lambda>_. write_json StatusAccepted (lb_ingest_response (sv_lib a) (u_Repository claims) (u_RunID claims)))"
  obtain r s1 where s1: "on_store (UpsertRepo now (claims_repo claims)) s = (r, s1)"
    by (cases "on_store (UpsertRepo now (claims_repo claims)) s")
  have runs: "db_runs (tables_of s1) = db_runs (tables_of s)"
    using preservesE [OF preserves_on_store [OF UpsertRepo_writes [of "\<lambda>d. db_runs d = db_runs (tables_of s)"]] refl s1] by simp
  have fresh: "fresh_writer s1"
    using on_store_out [OF s1] assms(1) by simp
  show ?thesis
  proof (cases r)
    case (Inl e)
    with s1 runs show ?thesis by (simp add: store_upload_def try_op_def)
  next
    case (Inr x)
    then have "store_upload a now uuid claims run s = within_quota a now (u_RepositoryOwnerID claims) ?store s1"
      using s1 by (simp add: store_upload_def try_op_def)
    with within_quota_cases [OF fresh, of a now "u_RepositoryOwnerID claims" ?store] store_run_status assms(2) runs
    show ?thesis by metis
  qed
qed

text \<open>A handler that leaves the world alone or ends in storing.\<close>

definition stores_or_stays :: "('sk, 'pk) server \<Rightarrow> instant \<Rightarrow> string \<Rightarrow> (web \<Rightarrow> web) \<Rightarrow> bool" where
  "stores_or_stays a now uuid f \<longleftrightarrow>
     (\<forall>s. wb_world (f s) = wb_world s \<or> (\<exists>claims run. f s = store_upload a now uuid claims run s))"

lemma stores_or_stays_rules:
  "stores_or_stays a now uuid (plain_error msg code)"
  "stores_or_stays a now uuid (store_upload a now uuid claims run)"
  "(\<And>e. stores_or_stays a now uuid (f e)) \<Longrightarrow> (\<And>x. stores_or_stays a now uuid (g x)) \<Longrightarrow>
   stores_or_stays a now uuid (case v of Inl e \<Rightarrow> f e | Inr x \<Rightarrow> g x)"
  "(\<And>e c. stores_or_stays a now uuid (h e c)) \<Longrightarrow> stores_or_stays a now uuid (case p of (e, c) \<Rightarrow> h e c)"
  by (auto simp: stores_or_stays_def split: sum.split prod.split)

lemma ingest_world:
  "wb_world (handleRunsIngest a now uuid r s) = wb_world s \<or>
   (\<exists>claims run l. handleRunsIngest a now uuid r s = store_upload a now uuid claims run (s\<lparr>wb_ingestOwnerLimiter := l\<rparr>))"
proof -
  have limited: "wb_world (allowIngestOwner now owner k s) = wb_world s \<or>
      (\<exists>claims run l. allowIngestOwner now owner k s = store_upload a now uuid claims run (s\<lparr>wb_ingestOwnerLimiter := l\<rparr>))"
    if "stores_or_stays a now uuid k" for owner k
  proof -
    obtain ok l where l: "Allow (wb_ingestOwnerLimiter s) (FormatInt owner) ownerIngestRatePerMinute minute now = (ok, l)"
      by (cases "Allow (wb_ingestOwnerLimiter s) (FormatInt owner) ownerIngestRatePerMinute minute now")
    let ?s = "s\<lparr>wb_ingestOwnerLimiter := l\<rparr>"
    have "wb_world (k ?s) = wb_world ?s \<or> (\<exists>claims run. k ?s = store_upload a now uuid claims run ?s)"
      using that unfolding stores_or_stays_def by blast
    then show ?thesis
      by (auto simp: allowIngestOwner_def l)
  qed
  show ?thesis
  proof (cases "sv_runsTokenManager a")
    case (Some m)
    note m = Some
    show ?thesis
    proof (cases "bearerToken (hr_Header r ''Authorization'')")
      case (Some bearer)
      show ?thesis
      proof (cases "VerifyUploadToken (lb_upload_jwt (sv_lib a)) m bearer now")
        case (Inr claims)
        with m Some show ?thesis
          by (simp add: handleRunsIngest_def) (intro limited stores_or_stays_rules)
      qed (simp add: handleRunsIngest_def m Some)
    qed (simp add: handleRunsIngest_def m)
  qed (simp add: handleRunsIngest_def)
qed

lemma refused_upload:
  assumes "fresh_writer s" "status_of (handleRunsIngest a now uuid r s) \<notin> {202, 500}"
  shows "db_runs (tables_of (handleRunsIngest a now uuid r s)) = db_runs (tables_of s)"
proof (cases "wb_world (handleRunsIngest a now uuid r s) = wb_world s")
  case False
  then obtain claims run l where
    "handleRunsIngest a now uuid r s = store_upload a now uuid claims run (s\<lparr>wb_ingestOwnerLimiter := l\<rparr>)"
    using ingest_world [of a now uuid r s] by blast
  with assms store_upload_runs [of "s\<lparr>wb_ingestOwnerLimiter := l\<rparr>" a now uuid claims run] show ?thesis
    by simp
qed simp

text \<open>
  So the runs change only when everything about the upload was in order, and then the upload is
  stored, also when the answer is 500 because the reply of the database was lost.
\<close>

lemma keeps_write_json: "keeps (\<lambda>s. I (tables_of s)) (write_json code body)"
  by (simp add: keeps_def)

lemma store_upload_reaches:
  assumes "run_EgressJSON run \<noteq> []"
  shows "reaches (\<lambda>t. db_runs (tables_of t) = db_runs (tables_of s))
    (\<lambda>t. stored_upload (lb_pg_types (sv_lib a)) (run_RepoID run) (run_ExecutionID run) (run_EgressJSON run)
      (run_PayloadSHA256 run) (run_CommitSHA run) (run_GitHubRunID run) (db_runs (tables_of s)) (db_runs (tables_of t)))
    (store_upload a now uuid claims run) s"
  (is "reaches ?P ?Q _ s")
proof -
  let ?store = "try_op (on_store (UpsertRun (lb_pg_types (sv_lib a)) now uuid run))
      (\<lambda>_. plain_error ''failed to persist run'' StatusInternalServerError)
      (\<lambda>_. write_json StatusAccepted (lb_ingest_response (sv_lib a) (u_Repository claims) (u_RunID claims)))"
  have store: "reaches ?P ?Q ?store t" if "?P t" for t
  proof -
    have "?Q s'" if "upsert_run_stmt (lb_pg_types (sv_lib a)) now uuid run (tables_of t) = Inr (x, tables_of s')" for x s'
      using upsert_run_stored [OF that] \<open>?P t\<close> by simp
    then show ?thesis
      unfolding UpsertRun_def Let_def using assms that
      by (simp add: assms) (intro reaches_last_exec; auto intro: keep_rules)
  qed
  show ?thesis
    unfolding store_upload_def
  proof (rule reaches_try_op, goal_cases)
    case 1
    show ?case
      by (rule preserves_on_store [where I = "\<lambda>d. db_runs d = db_runs (tables_of s)"], rule UpsertRepo_writes) simp
  next
    case (4 x s1)
    show ?case
      unfolding within_quota_def
    proof (rule reaches_if, goal_cases)
      case 1
      show ?case
      proof (rule reaches_try_op, goal_cases)
        case 1
        show ?case
          by (rule preserves_on_store [where I = "\<lambda>d. db_runs d = db_runs (tables_of s)"], rule reads_keep)
      next
        case (4 n s2)
        then show ?case
          by (intro reaches_if store) (auto intro: reaches_keeps keep_rules)
      qed (use 4 in \<open>auto intro: keep_rules\<close>)
    qed (use 4 store in simp)
  qed (auto intro: keep_rules)
qed

lemma upload_changes_runs:
  assumes "fresh_writer s" "db_runs (tables_of (handleRunsIngest a now uuid r s)) \<noteq> db_runs (tables_of s)"
  shows "\<exists>claims body sha cs ce. accepted_upload a now r claims body sha cs ce \<and>
    stored_upload (lb_pg_types (sv_lib a)) (u_RepositoryID claims) (u_ExecutionID claims) body (sha256Hex a body)
      (u_CommitSHA claims) (u_RunID claims) (db_runs (tables_of s)) (db_runs (tables_of (handleRunsIngest a now uuid r s)))"
proof -
  have "status_of (handleRunsIngest a now uuid r s) \<in> {202, 500}"
    using refused_upload [OF assms(1)] assms(2) by blast
  then have "status_of (handleRunsIngest a now uuid r s) \<notin> {400, 401, 429, 503}"
    by auto
  from handleRunsIngest_reaches_store [OF assms(1) this] obtain claims body sha cs ce l where
    acc: "accepted_upload a now r claims body sha cs ce" and
    h: "handleRunsIngest a now uuid r s =
      store_upload a now uuid claims (claims_run claims sha cs ce body) (s\<lparr>wb_ingestOwnerLimiter := l\<rparr>)"
    by blast
  from acc have "body \<noteq> []" "sha256Hex a body = sha"
    by (auto simp: accepted_upload_def check_payload_ok)
  with store_upload_reaches [of "claims_run claims sha cs ce body" "s\<lparr>wb_ingestOwnerLimiter := l\<rparr>" a now uuid claims] assms(2)
  have "stored_upload (lb_pg_types (sv_lib a)) (u_RepositoryID claims) (u_ExecutionID claims) body (sha256Hex a body)
      (u_CommitSHA claims) (u_RunID claims) (db_runs (tables_of s)) (db_runs (tables_of (handleRunsIngest a now uuid r s)))"
    unfolding h by (simp add: reaches_def)
  with acc show ?thesis by blast
qed

section \<open>Issued tokens\<close>

text \<open>
  What an issued token is good for: any upload that is accepted with it happens within its
  lifetime, has the hash that was asked for, and is stored under the principal's repository.
\<close>

lemma issued_token_scope:
  assumes "signer_contract (lb_upload_jwt (sv_lib a))" "m_publicKey m = public_key (lb_upload_jwt (sv_lib a)) (m_privateKey m)"
    and "sv_runsTokenManager a = Some m" "IssueUploadToken (lb_upload_jwt (sv_lib a)) m p req issued = Inr (raw, expiresAt)"
    and "bearerToken (hr_Header r ''Authorization'') = Some raw" "fresh_writer s"
    and "status_of (handleRunsIngest a now uuid r s) = 202"
  shows "truncate_second issued \<le> now \<and> now < truncate_second expiresAt \<and>
    (\<exists>body. hr_Body r = Inr body \<and> normalizeSHA256Hex (q_PayloadSHA256 req) = Some (sha256Hex a body) \<and>
       stored_upload (lb_pg_types (sv_lib a)) (p_RepositoryID p) (q_ExecutionID req) body (sha256Hex a body)
         (p_CommitSHA p) (p_RunID p) (db_runs (tables_of s)) (db_runs (tables_of (handleRunsIngest a now uuid r s))))"
proof -
  let ?lib = "lb_upload_jwt (sv_lib a)"
  from assms(4) have s: "sign_claims ?lib (m_privateKey m) (upload_claims m p req issued) = Inr raw"
    and e: "expiresAt = time_Add issued (m_ttl m)"
    by (auto simp: IssueUploadToken_def Let_def split: sum.splits)
  note sd = signer_contractD(1,2) [OF assms(1) s]
    signer_contractD(3,4) [OF assms(1) s, of "m_issuer m" tokenAudience now]
  from upload_stored [OF assms(6,7)] obtain claims body where
    acc: "VerifyUploadToken ?lib m raw now = Inr claims" "hr_Body r = Inr body"
    "normalizeSHA256Hex (u_PayloadSHA256 claims) = Some (sha256Hex a body)"
    "stored_upload (lb_pg_types (sv_lib a)) (u_RepositoryID claims) (u_ExecutionID claims) body (sha256Hex a body)
      (u_CommitSHA claims) (u_RunID claims) (db_runs (tables_of s)) (db_runs (tables_of (handleRunsIngest a now uuid r s)))"
    using assms(3,5) by (auto simp: accepted_upload_def)
  have "claims = upload_claims m p req issued \<and> registered_ok (upload_claims m p req issued) (m_issuer m) tokenAudience now"
    using acc(1) sd assms(2)
    by (cases "registered_ok (upload_claims m p req issued) (m_issuer m) tokenAudience now") (auto simp: VerifyUploadToken_iff)
  with acc show ?thesis
    by (simp add: registered_ok_upload_claims e) (simp add: upload_claims_def)
qed

text \<open>What the token endpoint has seen when it answers 200.\<close>

definition token_issued ::
  "('sk, 'pk) server \<Rightarrow> instant \<Rightarrow> http_request \<Rightarrow> web \<Rightarrow> principal \<Rightarrow> runTokenRequest \<Rightarrow> string \<Rightarrow> string \<Rightarrow> instant \<Rightarrow> bool" where
  "token_issued a now r s p req sha raw expiresAt \<longleftrightarrow>
     (\<exists>v m bearer body. wb_oidcVerifier s = Some v \<and> sv_runsTokenManager a = Some m \<and>
        bearerToken (hr_Header r ''Authorization'') = Some bearer \<and> fst (oidc_Verify a v now bearer s) = Inr p \<and>
        hr_Body r = Inr body \<and> length body \<le> 1048576 \<and> lb_token_request (sv_lib a) body = Inr req \<and>
        normalizeSHA256Hex (rt_PayloadSHA256 req) = Some sha \<and> TrimSpace (rt_ExecutionID req) \<noteq> [] \<and>
        IssueUploadToken (lb_upload_jwt (sv_lib a)) m p (upload_request p req sha (TrimSpace (rt_ExecutionID req))) now
          = Inr (raw, expiresAt))"

lemma oidc_Verify_out: "wb_out (snd (oidc_Verify a v now bearer s)) = wb_out s"
  by (simp add: oidc_Verify_def split: prod.split)

lemma sent_plain_error: "fresh_writer s \<Longrightarrow> status_of (plain_error msg code s) = code"
  by simp

text \<open>The endpoint once the token is verified and the owner is within the rate.\<close>

definition token_answer :: "('sk, 'pk) server \<Rightarrow> ('sk, 'pk) tokenManager \<Rightarrow> principal \<Rightarrow> http_request \<Rightarrow> instant \<Rightarrow> web \<Rightarrow> web" where
  "token_answer a m p r now =
     (case ReadBody 1048576 r of
        Inl _ \<Rightarrow> plain_error ''invalid payload'' StatusBadRequest
      | Inr body \<Rightarrow>
     (case lb_token_request (sv_lib a) body of
        Inl _ \<Rightarrow> plain_error ''invalid json payload'' StatusBadRequest
      | Inr req \<Rightarrow>
     (case normalizeSHA256Hex (rt_PayloadSHA256 req) of
        None \<Rightarrow> plain_error ''payload_sha256 must be a 64-char lowercase hex sha256'' StatusBadRequest
      | Some payloadSHA \<Rightarrow>
     (let executionID = TrimSpace (rt_ExecutionID req) in
      if executionID = [] then plain_error ''execution_id is required'' StatusBadRequest
      else
     (case IssueUploadToken (lb_upload_jwt (sv_lib a)) m p (upload_request p req payloadSHA executionID) now of
        Inl _ \<Rightarrow> plain_error ''failed to issue upload token'' StatusInternalServerError
      | Inr (uploadToken, expiresAt) \<Rightarrow>
          write_json StatusOK
            (lb_token_response (sv_lib a) uploadToken (lb_format_RFC3339 (sv_lib a) expiresAt)))))))"

lemma token_answer_ok:
  assumes "fresh_writer s" "status_of (token_answer a m p r now s) = 200"
  obtains body req sha raw expiresAt where "ReadBody 1048576 r = Inr body" "lb_token_request (sv_lib a) body = Inr req"
    "normalizeSHA256Hex (rt_PayloadSHA256 req) = Some sha" "TrimSpace (rt_ExecutionID req) \<noteq> []"
    "IssueUploadToken (lb_upload_jwt (sv_lib a)) m p (upload_request p req sha (TrimSpace (rt_ExecutionID req))) now = Inr (raw, expiresAt)"
    "wr_body (wb_out (token_answer a m p r now s)) =
       wr_body (wb_out s) @ lb_token_response (sv_lib a) raw (lb_format_RFC3339 (sv_lib a) expiresAt)"
proof -
  note [simp] = token_answer_def status_codes
  obtain body where body: "ReadBody 1048576 r = Inr body"
    using assms by (cases "ReadBody 1048576 r") auto
  obtain req where req: "lb_token_request (sv_lib a) body = Inr req"
    using assms body by (cases "lb_token_request (sv_lib a) body") auto
  obtain sha where sha: "normalizeSHA256Hex (rt_PayloadSHA256 req) = Some sha"
    using assms body req by (cases "normalizeSHA256Hex (rt_PayloadSHA256 req)") auto
  have e: "TrimSpace (rt_ExecutionID req) \<noteq> []"
    using assms body req sha by (cases "TrimSpace (rt_ExecutionID req) = []") auto
  obtain raw expiresAt where i: "IssueUploadToken (lb_upload_jwt (sv_lib a)) m p
      (upload_request p req sha (TrimSpace (rt_ExecutionID req))) now = Inr (raw, expiresAt)"
    using assms body req sha e
    by (cases "IssueUploadToken (lb_upload_jwt (sv_lib a)) m p (upload_request p req sha (TrimSpace (rt_ExecutionID req))) now") auto
  have "wr_body (wb_out (token_answer a m p r now s)) =
      wr_body (wb_out s) @ lb_token_response (sv_lib a) raw (lb_format_RFC3339 (sv_lib a) expiresAt)"
    using assms(1) body req sha e i
    by (simp add: write_json_def Write_def WriteHeader_def header_Set_def Let_def)
  with body req sha e i show ?thesis
    by (rule that)
qed

lemma token_endpoint_ok:
  assumes "fresh_writer s" "status_of (handleRunsToken a now r s) = 200"
  shows "\<exists>p req sha raw expiresAt. token_issued a now r s p req sha raw expiresAt \<and>
    wr_body (wb_out (handleRunsToken a now r s)) =
      wr_body (wb_out s) @ lb_token_response (sv_lib a) raw (lb_format_RFC3339 (sv_lib a) expiresAt)"
proof -
  obtain v where v: "wb_oidcVerifier s = Some v"
    using assms by (cases "wb_oidcVerifier s") (auto simp: handleRunsToken_def status_codes)
  obtain m where m: "sv_runsTokenManager a = Some m"
    using assms v by (cases "sv_runsTokenManager a") (auto simp: handleRunsToken_def status_codes)
  obtain bearer where b: "bearerToken (hr_Header r ''Authorization'') = Some bearer"
    using assms v m by (cases "bearerToken (hr_Header r ''Authorization'')") (auto simp: handleRunsToken_def status_codes)
  obtain res s1 where s1: "oidc_Verify a v now bearer s = (res, s1)"
    by (cases "oidc_Verify a v now bearer s")
  have w1: "wb_out s1 = wb_out s"
    using oidc_Verify_out [of a v now bearer s] s1 by simp
  obtain p where p: "res = Inr p"
    using assms v m b s1 w1 by (cases res) (auto simp: handleRunsToken_def try_op_def status_codes)
  have h: "handleRunsToken a now r s = allowIngestOwner now (p_RepositoryOwnerID p) (token_answer a m p r now) s1"
    by (simp add: handleRunsToken_def v m b s1 p try_op_def token_answer_def)
  have f1: "fresh_writer s1"
    using assms(1) w1 by simp
  from status_allowIngestOwner [OF f1 refl, of now "p_RepositoryOwnerID p" "token_answer a m p r now"] assms(2) h obtain l where
    l: "handleRunsToken a now r s = token_answer a m p r now (s1\<lparr>wb_ingestOwnerLimiter := l\<rparr>)"
    by auto
  have "fresh_writer (s1\<lparr>wb_ingestOwnerLimiter := l\<rparr>)" "status_of (token_answer a m p r now (s1\<lparr>wb_ingestOwnerLimiter := l\<rparr>)) = 200"
    using f1 assms(2) l by simp_all
  then obtain body req sha raw expiresAt where ok: "ReadBody 1048576 r = Inr body" "lb_token_request (sv_lib a) body = Inr req"
    "normalizeSHA256Hex (rt_PayloadSHA256 req) = Some sha" "TrimSpace (rt_ExecutionID req) \<noteq> []"
    "IssueUploadToken (lb_upload_jwt (sv_lib a)) m p (upload_request p req sha (TrimSpace (rt_ExecutionID req))) now = Inr (raw, expiresAt)"
    and answer: "wr_body (wb_out (handleRunsToken a now r s)) =
      wr_body (wb_out s) @ lb_token_response (sv_lib a) raw (lb_format_RFC3339 (sv_lib a) expiresAt)"
    unfolding l by (rule token_answer_ok) (simp_all add: w1)
  have "hr_Body r = Inr body" "length body \<le> 1048576"
    using ok(1) by (auto simp: ReadBody_def bind_result_Inr split: if_splits)
  with v m b s1 p ok have "token_issued a now r s p req sha raw expiresAt"
    unfolding token_issued_def by (intro exI [of _ v] exI [of _ m] exI [of _ bearer] exI [of _ body]) simp
  with answer show ?thesis by blast
qed

section \<open>An example\<close>

text \<open>A server with one known token, and a runner that uploads with it.\<close>

definition demo_templates :: templates where
  "demo_templates = \<lparr>tp_parse = (\<lambda>_ _. Inr ()), tp_execute = (\<lambda>_ _. (''page'', Inr ())),
     tp_tailwindSource = [], tp_Format = (\<lambda>_ _ _. [])\<rparr>"

definition empty_payload :: runSummaryPayload where
  "empty_payload = \<lparr>SchemaVersion = ''v2'', CaptureBackend = [], TotalEvents = 0, DroppedEvents = 0, DroppedLines = 0,
     Errors = [], Events = [], LineageTree = Some []\<rparr>"

definition ingest_request :: uploadRequest where
  "ingest_request = \<lparr>q_PayloadSHA256 = replicate 64 (CHR ''0''), q_ExecutionID = ''e9'', q_JobName = ''build'', q_JobKey = ''build'',
     q_RunnerName = ''r'', q_RunnerOS = ''Linux'', q_CaptureStartedAt = [], q_CaptureEndedAt = []\<rparr>"

definition ingest_claims :: uploadClaims where
  "ingest_claims = upload_claims demo_manager demo_principal ingest_request (Instant 1500000000)"

definition demo_token_request :: runTokenRequest where
  "demo_token_request = \<lparr>rt_PayloadSHA256 = replicate 64 (CHR ''0''), rt_JobName = [], rt_JobKey = ''build'', rt_ExecutionID = '' e9'',
     rt_RunnerName = [], rt_RunnerOS = [], rt_CaptureStartedAt = [], rt_CaptureEndedAt = []\<rparr>"

definition demo_libraries :: "(unit, unit) libraries" where
  "demo_libraries = \<lparr>lb_templates = demo_templates, lb_github_json = demo_json, lb_app_signer = (\<lambda>_ _ _ _. Inr ''jwt''),
     lb_users_get = (\<lambda>_. Inr (11, ''octo'', [])), lb_jwt = demo_jwt, lb_float_range = (\<lambda>_ _. 0), lb_jwks = demo_decode,
     lb_upload_jwt = signer_of ingest_claims, lb_pg_types = demo_types, lb_json_Valid = (\<lambda>_. True),
     lb_token_request = (\<lambda>_. Inr demo_token_request), lb_summary = (\<lambda>_. Inr empty_payload),
     lb_Sum256 = (\<lambda>_. replicate 32 0), lb_parse_RFC3339 = (\<lambda>_. Inl (External ''time'')), lb_format_RFC3339 = (\<lambda>_. []),
     lb_token_response = (\<lambda>t _. t), lb_ingest_response = (\<lambda>r _. r), lb_static = (\<lambda>_ w. w)\<rparr>"

definition demo_server :: "(unit, unit) server" where
  "demo_server = NewServer demo_libraries
     \<lparr>hc_BaseURL = ''https://h'', hc_GitHubClientID = [], hc_GitHubClientSecret = [], hc_GitHubAppInstallURL = [],
      hc_GitHubAppSettingsURL = []\<rparr> (Some demo_client) (Some demo_manager)"

definition demo_web :: "db \<Rightarrow> web" where
  "demo_web d = first_state demo_verifier \<lparr>wd_db = healthy d, wd_gh = \<lparr>gs_net = \<lparr>nt_sent = [], nt_answers = []\<rparr>, gs_tokens = []\<rparr>\<rparr>
     [] [Inr [1, 2], Inr [3, 4]]"

definition demo_http :: http_request where
  "demo_http = \<lparr>hr_Method = ''POST'', hr_Segments = [''runs''], hr_PathValue = (\<lambda>_. []), hr_Query = (\<lambda>_. []),
     hr_Header = (\<lambda>h. if h = ''Authorization'' then ''Bearer h.p.s'' else []), hr_Cookies = [], hr_Form = Inr (\<lambda>_. []),
     hr_Body = Inr ''{}'', hr_RemoteAddr = ''10.0.0.1:80''\<rparr>"

lemma demo_upload_accepted:
  "status_of (handleRunsIngest demo_server (Instant 2000000000) ''u1'' demo_http (demo_web empty_db)) = 202"
  "status_of (handleRunsIngest demo_server (Instant 900000000000) ''u1'' demo_http (demo_web empty_db)) = 401"
  by code_simp+

section \<open>Properties\<close>

text \<open>
  An upload that is answered with 202 was presented with a token that this server's manager
  accepts at this time; its body is valid JSON within the size limit, a valid run summary, and its
  SHA-256 is the one that the token names; and the run is stored: the row of the token's
  repository and execution holds exactly this body, its hash and the token's commit and run,
  and the rows of all other executions are unchanged.
\<close>

theorem accepted_upload_is_stored:
  assumes "fresh_writer s" "status_of (handleRunsIngest a now uuid r s) = 202"
  shows "\<exists>claims body sha cs ce. accepted_upload a now r claims body sha cs ce \<and>
    normalizeSHA256Hex (u_PayloadSHA256 claims) = Some (sha256Hex a body) \<and>
    stored_upload (lb_pg_types (sv_lib a)) (u_RepositoryID claims) (u_ExecutionID claims) body (sha256Hex a body)
      (u_CommitSHA claims) (u_RunID claims) (db_runs (tables_of s)) (db_runs (tables_of (handleRunsIngest a now uuid r s)))"
  using assms by (rule upload_stored)

theorem accepted_upload_is_stored_witness:
  "\<exists>row. lookup_by execution_key (5, ''e9'')
      (db_runs (tables_of (handleRunsIngest demo_server (Instant 2000000000) ''u1'' demo_http (demo_web empty_db)))) = Some row
    \<and> rr_egress_json row = ''{}'' \<and> rr_commit_sha row = ''abc''"
proof -
  have fresh: "fresh_writer (demo_web empty_db)"
    by code_simp
  have known: "u_RepositoryID ingest_claims = 5" "u_ExecutionID ingest_claims = ''e9''" "u_CommitSHA ingest_claims = ''abc''"
    by code_simp+
  have parse: "parse_claims (lb_upload_jwt (sv_lib demo_server)) raw k i au t = Inr (c, b) \<Longrightarrow> c = ingest_claims" for raw k i au t c b
    by (auto simp: demo_server_def NewServer_def demo_libraries_def signer_of_def split: if_splits)
  have types: "uuid_in (lb_pg_types (sv_lib demo_server)) ''e9'' = Some ''e9''"
    "jsonb_in (lb_pg_types (sv_lib demo_server)) ''{}'' = Some ''{}''"
    by code_simp+
  from accepted_upload_is_stored [OF fresh demo_upload_accepted(1)] obtain claims body sha cs ce where
    acc: "accepted_upload demo_server (Instant 2000000000) demo_http claims body sha cs ce" and
    st: "stored_upload (lb_pg_types (sv_lib demo_server)) (u_RepositoryID claims) (u_ExecutionID claims) body
      (sha256Hex demo_server body) (u_CommitSHA claims) (u_RunID claims) (db_runs (tables_of (demo_web empty_db)))
      (db_runs (tables_of (handleRunsIngest demo_server (Instant 2000000000) ''u1'' demo_http (demo_web empty_db))))"
    by blast
  from acc have "body = ''{}''" "claims = ingest_claims"
    using parse by (auto simp: accepted_upload_def demo_http_def VerifyUploadToken_iff)
  with st known types show ?thesis
    by (auto simp: stored_upload_def)
qed

text \<open>
  C12: The two-step upload: when the token endpoint answers 200, the caller's OIDC token was
  verified and gave a principal, the request names a hash and an execution, and the answer carries an
  upload token with which an upload is accepted only within its lifetime, only with a body of that
  hash, and stored only under the principal's repository, commit and run and that execution; whoever
  uses it, whenever, and whatever the state of the server.
\<close>

theorem token_exchange_binds_upload:
  assumes "signer_contract (lb_upload_jwt (sv_lib a))" "sv_runsTokenManager a = Some m"
    and "m_publicKey m = public_key (lb_upload_jwt (sv_lib a)) (m_privateKey m)"
    and "fresh_writer s1" "status_of (handleRunsToken a issued r1 s1) = 200"
  shows "\<exists>p req sha raw expiresAt. token_issued a issued r1 s1 p req sha raw expiresAt \<and>
    wr_body (wb_out (handleRunsToken a issued r1 s1)) =
      wr_body (wb_out s1) @ lb_token_response (sv_lib a) raw (lb_format_RFC3339 (sv_lib a) expiresAt) \<and>
    (\<forall>now uuid r s. bearerToken (hr_Header r ''Authorization'') = Some raw \<and> fresh_writer s \<and>
       status_of (handleRunsIngest a now uuid r s) = 202 \<longrightarrow>
       truncate_second issued \<le> now \<and> now < truncate_second expiresAt \<and>
       (\<exists>body. hr_Body r = Inr body \<and> sha256Hex a body = sha \<and>
          stored_upload (lb_pg_types (sv_lib a)) (p_RepositoryID p) (TrimSpace (rt_ExecutionID req)) body sha
            (p_CommitSHA p) (p_RunID p) (db_runs (tables_of s)) (db_runs (tables_of (handleRunsIngest a now uuid r s)))))"
proof -
  from token_endpoint_ok [OF assms(4,5)] obtain p req sha raw expiresAt where
    t: "token_issued a issued r1 s1 p req sha raw expiresAt"
    "wr_body (wb_out (handleRunsToken a issued r1 s1)) =
      wr_body (wb_out s1) @ lb_token_response (sv_lib a) raw (lb_format_RFC3339 (sv_lib a) expiresAt)"
    by blast
  then have i: "IssueUploadToken (lb_upload_jwt (sv_lib a)) m p (upload_request p req sha (TrimSpace (rt_ExecutionID req))) issued
      = Inr (raw, expiresAt)" and n: "normalizeSHA256Hex (rt_PayloadSHA256 req) = Some sha"
    using assms(2) by (auto simp: token_issued_def)
  have q: "normalizeSHA256Hex (q_PayloadSHA256 (upload_request p req sha e)) = Some sha" "q_ExecutionID (upload_request p req sha e) = e" for e
    using normalize_again [OF n] by (simp_all add: upload_request_def Let_def)
  have "\<forall>now uuid r s. bearerToken (hr_Header r ''Authorization'') = Some raw \<and> fresh_writer s \<and>
       status_of (handleRunsIngest a now uuid r s) = 202 \<longrightarrow>
       truncate_second issued \<le> now \<and> now < truncate_second expiresAt \<and>
       (\<exists>body. hr_Body r = Inr body \<and> sha256Hex a body = sha \<and>
          stored_upload (lb_pg_types (sv_lib a)) (p_RepositoryID p) (TrimSpace (rt_ExecutionID req)) body sha
            (p_CommitSHA p) (p_RunID p) (db_runs (tables_of s)) (db_runs (tables_of (handleRunsIngest a now uuid r s))))"
  proof (intro allI impI, elim conjE)
    fix now uuid r s
    assume use: "bearerToken (hr_Header r ''Authorization'') = Some raw" "fresh_writer s"
      "status_of (handleRunsIngest a now uuid r s) = 202"
    note scope = issued_token_scope [OF assms(1,3,2) i use, unfolded q option.inject]
    then obtain body where "hr_Body r = Inr body" and sha: "sha = sha256Hex a body" and
      "stored_upload (lb_pg_types (sv_lib a)) (p_RepositoryID p) (TrimSpace (rt_ExecutionID req)) body (sha256Hex a body)
         (p_CommitSHA p) (p_RunID p) (db_runs (tables_of s)) (db_runs (tables_of (handleRunsIngest a now uuid r s)))"
      by blast
    then show "truncate_second issued \<le> now \<and> now < truncate_second expiresAt \<and>
       (\<exists>body. hr_Body r = Inr body \<and> sha256Hex a body = sha \<and>
          stored_upload (lb_pg_types (sv_lib a)) (p_RepositoryID p) (TrimSpace (rt_ExecutionID req)) body sha
            (p_CommitSHA p) (p_RunID p) (db_runs (tables_of s)) (db_runs (tables_of (handleRunsIngest a now uuid r s))))"
      using scope unfolding sha by blast
  qed
  with t show ?thesis by blast
qed

text \<open>The same example with the runner's OIDC token: the principal that the verifier finds, and its claims.\<close>

definition oidc_web :: web where
  "oidc_web = (demo_web empty_db)\<lparr>wb_oidcVerifier := Some (NewVerifier demo_config), wb_replies := [Response 200 []]\<rparr>"

definition runner_principal :: principal where
  "runner_principal =
     (case fst (Verify demo_jwt (\<lambda>_ _. 0) demo_decode (NewVerifier demo_config) (Response 200 []) (Instant 1500000000)
        (Instant 1500000000) (Instant 1500000000) ''t'') of Inl _ \<Rightarrow> demo_principal | Inr p \<Rightarrow> p)"

definition exchange_server :: "(unit, unit) server" where
  "exchange_server = demo_server\<lparr>sv_lib := demo_libraries\<lparr>lb_upload_jwt := signer_of
     (upload_claims demo_manager runner_principal
       (upload_request runner_principal demo_token_request (replicate 64 (CHR ''0'')) ''e9'') (Instant 1500000000))\<rparr>\<rparr>"

definition token_http :: http_request where
  "token_http = demo_http\<lparr>hr_Segments := [''runs'', ''token''],
     hr_Header := (\<lambda>h. if h = ''Authorization'' then ''Bearer t'' else [])\<rparr>"

lemma demo_exchange:
  "status_of (handleRunsToken exchange_server (Instant 1500000000) token_http oidc_web) = 200"
  "wr_body (wb_out (handleRunsToken exchange_server (Instant 1500000000) token_http oidc_web)) = ''h.p.s''"
  "status_of (handleRunsIngest exchange_server (Instant 2000000000) ''u1'' demo_http (demo_web empty_db)) = 202"
  by code_simp+

theorem token_exchange_binds_upload_witness:
  "\<exists>(p :: principal) (req :: runTokenRequest) sha. stored_upload demo_types (p_RepositoryID p) (TrimSpace (rt_ExecutionID req)) ''{}'' sha (p_CommitSHA p) (p_RunID p) []
     (db_runs (tables_of (handleRunsIngest exchange_server (Instant 2000000000) ''u1'' demo_http (demo_web empty_db))))"
proof -
  have lib: "signer_contract (lb_upload_jwt (sv_lib exchange_server))"
    by (simp add: exchange_server_def signer_of_contract)
  have key: "sv_runsTokenManager exchange_server = Some demo_manager"
    "m_publicKey demo_manager = public_key (lb_upload_jwt (sv_lib exchange_server)) (m_privateKey demo_manager)"
    by (simp_all add: exchange_server_def demo_server_def NewServer_def demo_manager_def)
  have fresh: "fresh_writer oidc_web" "wr_body (wb_out oidc_web) = []" "fresh_writer (demo_web empty_db)"
    "db_runs (tables_of (demo_web empty_db)) = []" "hr_Body demo_http = Inr ''{}''"
    by code_simp+
  have demo: "lb_token_response (sv_lib exchange_server) = (\<lambda>t _. t)" "lb_pg_types (sv_lib exchange_server) = demo_types"
    by (simp_all add: exchange_server_def demo_libraries_def)
  have bearer: "bearerToken (hr_Header demo_http ''Authorization'') = Some ''h.p.s''"
    by code_simp
  from token_exchange_binds_upload [OF lib key fresh(1) demo_exchange(1)] obtain p :: principal and req :: runTokenRequest and sha raw expiresAt where
    raw: "''h.p.s'' = [] @ raw" and
    upload: "\<forall>now uuid r s. bearerToken (hr_Header r ''Authorization'') = Some raw \<and> fresh_writer s \<and>
       status_of (handleRunsIngest exchange_server now uuid r s) = 202 \<longrightarrow>
       truncate_second (Instant 1500000000) \<le> now \<and> now < truncate_second expiresAt \<and>
       (\<exists>body. hr_Body r = Inr body \<and> sha256Hex exchange_server body = sha \<and>
          stored_upload demo_types (p_RepositoryID p) (TrimSpace (rt_ExecutionID req)) body sha
            (p_CommitSHA p) (p_RunID p) (db_runs (tables_of s)) (db_runs (tables_of (handleRunsIngest exchange_server now uuid r s))))"
    unfolding demo demo_exchange(2) fresh(2)
    by (elim exE conjE) (rule that)
  from upload bearer fresh(3) demo_exchange(3) raw have "\<exists>body. hr_Body demo_http = Inr body \<and>
      stored_upload demo_types (p_RepositoryID p) (TrimSpace (rt_ExecutionID req)) body sha (p_CommitSHA p) (p_RunID p)
        (db_runs (tables_of (demo_web empty_db)))
        (db_runs (tables_of (handleRunsIngest exchange_server (Instant 2000000000) ''u1'' demo_http (demo_web empty_db))))"
    unfolding append_Nil by blast
  then show ?thesis
    unfolding fresh(4,5) by auto
qed

end
