(* ===== verification/Access_Properties.thy ===== *)
theory Access_Properties
  imports Ingest_Properties
begin

text \<open>
  Properties of binding and of uploading through any request: how old the list of repositories may be
  that a binding relies on, which requests change the bindings between projects and repositories, and
  which change the stored runs.
\<close>

section \<open>The age of a user's access list\<close>

definition synced_at :: "db \<Rightarrow> int64 \<Rightarrow> instant option" where
  "synced_at d userID = Option.bind (lookup_by sy_user_id userID (db_syncs d)) sy_synced_at"

definition access_synced :: "db \<Rightarrow> int64 \<Rightarrow> instant \<Rightarrow> duration \<Rightarrow> bool" where
  "access_synced d userID now age \<longleftrightarrow> (\<exists>t. synced_at d userID = Some t \<and> time_Sub now t \<le> age)"

lemma load_sync_ok:
  assumes "load_sync userID s = (Inr st, s')"
  shows "tables_of s' = tables_of s \<and> (\<forall>t. uas_SyncedAt st = Some t \<longrightarrow> synced_at (tables_of s) userID = Some t)"
proof (cases "on_store (GetUserAccessSync userID) s")
  case (Pair r s1)
  show ?thesis
  proof (cases r)
    case (Inl e)
    have "tables_of s1 = tables_of s"
      using preservesE [OF preserves_on_store [OF reads_keep(9) [of "\<lambda>d. d = tables_of s"]] refl Pair] by simp
    with assms Pair Inl show ?thesis
      by (auto simp: load_sync_def catch_op_def ret_def fail_def zero_sync_def split: if_splits)
  next
    case (Inr x)
    with assms Pair have x: "st = x" "s1 = s'"
      by (auto simp: load_sync_def catch_op_def ret_def)
    from on_store_store [OF Pair [unfolded Inr]]
    have "query_row (\<lambda>d. map_option (\<lambda>r. \<lparr>uas_SyncedAt = sy_synced_at r, uas_AttemptedAt = sy_attempted_at r,
        uas_LastError = sy_last_error r, uas_ETag = sy_etag r\<rparr>) (lookup_by sy_user_id userID (db_syncs d)))
      (wd_db (wb_world s)) = (Inr x, wd_db (wb_world s1))"
      by (simp add: GetUserAccessSync_def or_not_found_ok)
    from query_row_ok [OF this] x show ?thesis
      by (auto simp: synced_at_def)
  qed
qed

lemma synced_within_load:
  assumes "load_sync userID s = (Inr st, s')" "synced_within now age st"
  shows "access_synced (tables_of s) userID now age"
  using assms load_sync_ok [OF assms(1)]
  by (auto simp: synced_within_def access_synced_def split: option.splits)

lemma sync_keeps_syncs: "preserves (\<lambda>s. db_syncs (tables_of s) = rows) (syncUserRepoAccess a c now userID)"
  by (rule preserves_syncUserRepoAccess [where I = "\<lambda>d. db_syncs d = rows"])
    (rule UpsertRepo_writes UpsertUserGitHubTokens_writes ReplaceUserRepoAccess_writes; simp)+

lemma upsert_sync_synced:
  assumes "upsert_sync_stmt userID synced attempted err etag d = Inr (x, d')"
  shows "synced_at d' userID = synced"
  using assms sync_table.lookup_upsert [of "\<lparr>sy_user_id = userID, sy_synced_at = synced, sy_attempted_at = Some attempted,
    sy_last_error = err, sy_etag = etag\<rparr>" "db_syncs d"]
  by (auto simp: upsert_sync_stmt_def synced_at_def split: if_splits option.splits)

lemma UpsertUserAccessSync_synced:
  assumes "on_store (UpsertUserAccessSync userID synced attempted err etag) s = (r, s')"
  shows "r = Inr x \<Longrightarrow> synced_at (tables_of s') userID = synced"
    and "synced_at (tables_of s) userID = synced \<Longrightarrow> synced_at (tables_of s') userID = synced"
proof -
  let ?st = "upsert_sync_stmt userID synced attempted err etag"
  note u = on_store_store [OF assms]
  have s': "tables (wd_db (wb_world s')) = tables (snd (exec ?st (wd_db (wb_world s))))"
    using arg_cong [OF u, of snd] by (simp add: UpsertUserAccessSync_def)
  from exec_tables [of ?st "wd_db (wb_world s)"]
  show "synced_at (tables_of s) userID = synced \<Longrightarrow> synced_at (tables_of s') userID = synced"
    using upsert_sync_synced by (auto simp: s')
  assume "r = Inr x"
  with u have "exec ?st (wd_db (wb_world s)) = (Inr x, wd_db (wb_world s'))"
    by (simp add: UpsertUserAccessSync_def wrap_err_ok)
  from exec_ok [OF this] show "synced_at (tables_of s') userID = synced"
    by (rule upsert_sync_synced)
qed

lemma sync_locked_synced:
  assumes "sync_locked a c now userID s = (Inr stale, s')" "0 \<le> sv_accessCacheTTL a"
  shows "access_synced (tables_of s') userID now (if stale then sv_accessMaxStaleness a else sv_accessCacheTTL a)"
proof -
  obtain st s1 where st: "load_sync userID s = (Inr st, s1)"
    using assms(1) by (auto simp: sync_locked_def bind_op_ok)
  show ?thesis
  proof (cases "synced_within now (sv_accessCacheTTL a) st")
    case True
    with assms st load_sync_ok [OF st] synced_within_load [OF st True] show ?thesis
      by (auto simp: sync_locked_def bind_op_def ret_def)
  next
    case False
    obtain r s2 where r: "syncUserRepoAccess a c now userID s1 = (r, s2)"
      by (cases "syncUserRepoAccess a c now userID s1")
    have syncs: "db_syncs (tables_of s2) = db_syncs (tables_of s1)"
      by (rule preservesE [OF sync_keeps_syncs refl r])
    show ?thesis
    proof (cases r)
      case (Inl err)
      obtain r3 s3 where s3: "on_store (UpsertUserAccessSync userID (uas_SyncedAt st) now (Some (error_text err)) (uas_ETag st)) s2 = (r3, s3)"
        by (cases "on_store (UpsertUserAccessSync userID (uas_SyncedAt st) now (Some (error_text err)) (uas_ETag st)) s2")
      with assms(1) st False r Inl have w: "synced_within now (sv_accessMaxStaleness a) st" and stale: "stale \<and> s' = s3"
        by (auto simp: sync_locked_def bind_op_def catch_op_def ret_def fail_def split: sum.splits if_splits)
      from w obtain t where t: "uas_SyncedAt st = Some t" "time_Sub now t \<le> sv_accessMaxStaleness a"
        by (auto simp: synced_within_def split: option.splits)
      with load_sync_ok [OF st] syncs have "synced_at (tables_of s2) userID = uas_SyncedAt st"
        by (simp add: synced_at_def)
      from UpsertUserAccessSync_synced(2) [OF s3 this] t stale show ?thesis
        by (simp add: access_synced_def)
    next
      case (Inr x)
      with assms(1) st False r obtain s3 y where
        s3: "on_store (UpsertUserAccessSync userID (Some now) now None None) s2 = (Inr y, s3)" and "\<not> stale \<and> s' = s3"
        by (auto simp: sync_locked_def bind_op_def catch_op_def ret_def split: prod.splits sum.splits)
      with UpsertUserAccessSync_synced(1) [OF s3 refl] assms(2) show ?thesis
        by (simp add: access_synced_def time_Sub_def)
    qed
  qed
qed

lemma ensure_synced:
  assumes "ensureUserRepoAccess a now userID s = (Inr stale, s')" "0 \<le> sv_accessCacheTTL a"
  shows "access_synced (tables_of s') userID now (if stale then sv_accessMaxStaleness a else sv_accessCacheTTL a)"
proof -
  obtain c st s1 where c: "sv_githubAppClient a = Some c" and st: "load_sync userID s = (Inr st, s1)"
    using assms(1) by (auto simp: ensureUserRepoAccess_def fail_def bind_op_ok split: option.splits)
  show ?thesis
  proof (cases "synced_within now (sv_accessCacheTTL a) st")
    case True
    with assms(1) c st load_sync_ok [OF st] synced_within_load [OF st True] show ?thesis
      by (auto simp: ensureUserRepoAccess_def bind_op_def ret_def)
  next
    case False
    with assms c st have "sync_locked a c now userID s1 = (Inr stale, s')"
      by (simp add: ensureUserRepoAccess_def bind_op_def)
    then show ?thesis
      using assms(2) by (rule sync_locked_synced)
  qed
qed

section \<open>Managing a project\<close>

definition manages :: "db \<Rightarrow> int64 \<Rightarrow> string \<Rightarrow> int64 \<Rightarrow> bool" where
  "manages d userID slug projectID \<longleftrightarrow>
     (\<exists>p \<in> set (db_projects d). \<exists>m \<in> set (db_members d). pj_slug p = slug \<and> pj_id p = projectID \<and>
        me_project_id m = projectID \<and> me_user_id m = userID \<and>
        ToLower (TrimSpace (me_role m)) \<in> {''owner'', ''admin''})"

lemma project_by_slug_manages:
  assumes "project_by_slug userID slug d = Some prj" "canManageProject (prj_Role prj)"
  shows "manages d userID slug (prj_ID prj)"
proof -
  from assms(1) have prj: "prj_Slug prj = slug"
    "prj \<in> set (List.map_filter (member_project d) (filter (\<lambda>m. me_user_id m = userID) (db_members d)))"
    by (auto simp: project_by_slug_def find_Some_iff)
  then obtain m where m: "m \<in> set (db_members d)" "me_user_id m = userID" "member_project d m = Some prj"
    by (auto simp: List.map_filter_def)
  then obtain p where p: "lookup_by pj_id (me_project_id m) (db_projects d) = Some p" "prj = project_view (me_role m) p"
    by (auto simp: member_project_def)
  with lookup_by_Some [OF p(1)] m prj assms(2) show ?thesis
    by (auto simp: manages_def project_view_def canManageProject_def Let_def)
qed

lemma bind_stmt_ok:
  "bind_stmt now projectID repoID userID d = Inr (x, d') \<Longrightarrow>
   d' = d\<lparr>db_bindings := upsert_by binding_key (\<lambda>old new. new)
     \<lparr>bi_project_id = projectID, bi_repo_id = repoID, bi_bound_by = Some userID, bi_bound_at = now, bi_revoked_at = None\<rparr>
     (db_bindings d)\<rparr>"
  by (auto simp: bind_stmt_def split: if_splits)

lemma unbind_stmt_ok:
  "unbind_stmt now projectID repoID d = Inr (x, d') \<longleftrightarrow>
   d' = d\<lparr>db_bindings := update_where (\<lambda>b. binding_key b = (projectID, repoID) \<and> live b)
     (\<lambda>b. b\<lparr>bi_revoked_at := Some now\<rparr>) (db_bindings d)\<rparr>"
  by (auto simp: unbind_stmt_def)

text \<open>The repository that the form of a request names.\<close>

definition form_repo :: "http_request \<Rightarrow> int64 \<Rightarrow> bool" where
  "form_repo r repoID \<longleftrightarrow>
     0 < repoID \<and> (\<exists>form. hr_Form r = Inr form \<and> ParseInt (TrimSpace (form ''repo_id'')) = Some repoID)"

text \<open>What a request has shown when it has changed the bindings.\<close>

definition bound_by_request :: "('sk, 'pk) server \<Rightarrow> instant \<Rightarrow> user \<Rightarrow> string \<Rightarrow> http_request \<Rightarrow> db \<Rightarrow> db \<Rightarrow> bool" where
  "bound_by_request a now user slug r d d' \<longleftrightarrow>
     (\<exists>projectID repoID. manages d (usr_ID user) slug projectID \<and> form_repo r repoID \<and>
        can_bind d' (usr_ID user) repoID \<and>
        access_synced d' (usr_ID user) now (max (sv_accessCacheTTL a) (sv_accessMaxStaleness a)) \<and>
        db_bindings d' = upsert_by binding_key (\<lambda>old new. new)
          \<lparr>bi_project_id = projectID, bi_repo_id = repoID, bi_bound_by = Some (usr_ID user), bi_bound_at = now,
           bi_revoked_at = None\<rparr> (db_bindings d))"

definition unbound_by_request :: "instant \<Rightarrow> user \<Rightarrow> string \<Rightarrow> http_request \<Rightarrow> db \<Rightarrow> db \<Rightarrow> bool" where
  "unbound_by_request now user slug r d d' \<longleftrightarrow>
     (\<exists>projectID repoID. manages d (usr_ID user) slug projectID \<and> form_repo r repoID \<and>
        db_bindings d' = update_where (\<lambda>b. binding_key b = (projectID, repoID) \<and> live b)
          (\<lambda>b. b\<lparr>bi_revoked_at := Some now\<rparr>) (db_bindings d))"

lemma can_bind_ok:
  assumes "on_store (UserCanAccessRepoForBinding userID repoID) s = (Inr b, s')"
  shows "tables_of s' = tables_of s \<and> b = can_bind (tables_of s) userID repoID"
  using query_row_ok [of "\<lambda>d. Some (can_bind d userID repoID)" "wd_db (wb_world s)" b "wd_db (wb_world s')"] on_store_store [OF assms]
  by (simp add: UserCanAccessRepoForBinding_def wrap_err_ok)

lemma handleBindRepo_reaches:
  assumes "0 \<le> sv_accessCacheTTL a"
  shows "reaches (\<lambda>t. db_bindings (tables_of t) = db_bindings (tables_of s))
    (\<lambda>t. \<exists>user. u = Some user \<and> bound_by_request a now user (hr_PathValue r ''slug'') r (tables_of s) (tables_of t)) (handleBindRepo a now u r) s"
  (is "reaches (\<lambda>t. ?I (tables_of t)) ?Q _ s" is "reaches ?P _ _ _")
  unfolding handleBindRepo_def
proof (rule reaches_with_user, goal_cases)
  case (3 user)
  show ?case
  proof (rule reaches_with_project [where I = ?I], goal_cases)
    case (2 p s1)
    show ?case
    proof (rule reaches_if, goal_cases)
      case 2
      then have m: "manages (tables_of s) (usr_ID user) (hr_PathValue r ''slug'') (prj_ID p)"
        using project_by_slug_manages \<open>project_by_slug _ _ _ = Some p\<close> by simp
      show ?case
      proof (rule reaches_with_repo_id [where I = ?I], goal_cases)
        case (2 form repoID)
        then have f: "form_repo r repoID"
          by (auto simp: form_repo_def)
        show ?case
        proof (rule reaches_try_op, goal_cases)
          case (4 stale s2)
          note fresh = ensure_synced [OF 4(1) assms]
          show ?case
          proof (rule reaches_try_op, goal_cases)
            case (4 canBind s3)
            note can = can_bind_ok [OF 4(1)]
            show ?case
            proof (rule reaches_if, goal_cases)
              case 2
              then have cb: "can_bind (tables_of s3) (usr_ID user) repoID"
                using can by simp
              have sy: "access_synced (tables_of s3) (usr_ID user) now (max (sv_accessCacheTTL a) (sv_accessMaxStaleness a))"
                using fresh can by (auto simp: access_synced_def split: if_splits)
              have "?Q s'" if "bind_stmt now (prj_ID p) repoID (usr_ID user) (tables_of s3) = Inr (x, tables_of s')" for s' x
                using bind_stmt_ok [OF that] m f \<open>u = Some user\<close> 4(2) cb sy
                by (auto simp: bound_by_request_def can_bind_def access_synced_def synced_at_def)
              then show ?case
                unfolding BindRepoToProject_def by (intro reaches_last_exec) (use 4(2) in \<open>auto intro: keep_rules\<close>)
            qed (auto intro: reaches_keeps keep_rules simp: 4)
          qed (auto intro: keep_rules preserve_rules reads_keep simp: 4)
        qed (auto intro: keep_rules bindings_kept.preserves_ensure simp: \<open>tables_of s1 = tables_of s\<close>)
      qed (simp add: \<open>tables_of s1 = tables_of s\<close>)
    qed (auto intro: reaches_keeps keep_rules simp: \<open>tables_of s1 = tables_of s\<close>)
  qed simp
qed (auto intro: keep_rules)


lemma handleUnbindRepo_reaches:
  "reaches (\<lambda>t. db_bindings (tables_of t) = db_bindings (tables_of s))
    (\<lambda>t. \<exists>user. u = Some user \<and> unbound_by_request now user (hr_PathValue r ''slug'') r (tables_of s) (tables_of t)) (handleUnbindRepo a now u r) s"
  (is "reaches (\<lambda>t. ?I (tables_of t)) ?Q _ s" is "reaches ?P _ _ _")
  unfolding handleUnbindRepo_def
proof (rule reaches_with_user, goal_cases)
  case (3 user)
  show ?case
  proof (rule reaches_with_project [where I = ?I], goal_cases)
    case (2 p s1)
    show ?case
    proof (rule reaches_if, goal_cases)
      case 2
      then have m: "manages (tables_of s) (usr_ID user) (hr_PathValue r ''slug'') (prj_ID p)"
        using project_by_slug_manages \<open>project_by_slug _ _ _ = Some p\<close> by simp
      show ?case
      proof (rule reaches_with_repo_id [where I = ?I], goal_cases)
        case (2 form repoID)
        then have "form_repo r repoID"
          by (auto simp: form_repo_def)
        then have "?Q s'" if "unbind_stmt now (prj_ID p) repoID (tables_of s1) = Inr (x, tables_of s')" for s' x
          using that m \<open>u = Some user\<close> \<open>tables_of s1 = tables_of s\<close> by (auto simp: unbind_stmt_ok unbound_by_request_def)
        then show ?case
          unfolding UnbindRepoFromProject_def
          by (intro reaches_last_exec) (use \<open>tables_of s1 = tables_of s\<close> in \<open>auto intro: keep_rules\<close>)
      qed (simp add: \<open>tables_of s1 = tables_of s\<close>)
    qed (auto intro: reaches_keeps keep_rules simp: \<open>tables_of s1 = tables_of s\<close>)
  qed simp
qed (auto intro: keep_rules)

section \<open>Requests that write bindings\<close>

lemma get_route_pages:
  "get_route segs = Some rt \<Longrightarrow> rt \<noteq> BindRepo slug \<and> rt \<noteq> UnbindRepo slug \<and> rt \<noteq> RunsIngest \<and> rt \<noteq> LogoutRoute"
  unfolding get_route_def by (simp split: list.splits if_splits; blast)

lemma post_route_segments:
  "post_route segs = Some (BindRepo slug) \<Longrightarrow> segs = [''projects'', slug, ''repos'', ''bind'']"
  "post_route segs = Some (UnbindRepo slug) \<Longrightarrow> segs = [''projects'', slug, ''repos'', ''unbind'']"
  "post_route segs = Some RunsIngest \<Longrightarrow> segs = [''runs'']"
  "post_route segs = Some LogoutRoute \<Longrightarrow> segs = [''auth'', ''logout'']"
  unfolding post_route_def by (simp del: list.inject char.inject split: list.splits if_splits)+

lemma posted:
  "find_route meth segs = Some rt \<Longrightarrow> rt = BindRepo slug \<or> rt = UnbindRepo slug \<or> rt = RunsIngest \<or> rt = LogoutRoute \<Longrightarrow>
   meth = ''POST'' \<and> post_route segs = Some rt"
  using get_route_pages [of segs rt slug] by (simp add: find_route_def split: if_splits; blast)

lemma form_repo_path [simp]: "form_repo (r\<lparr>hr_PathValue := f\<rparr>) = form_repo r"
  by (simp add: form_repo_def fun_eq_iff)

lemma bound_path [simp]:
  "bound_by_request a now user slug (r\<lparr>hr_PathValue := f\<rparr>) = bound_by_request a now user slug r"
  "unbound_by_request now user slug (r\<lparr>hr_PathValue := f\<rparr>) = unbound_by_request now user slug r"
  by (simp_all add: bound_by_request_def unbound_by_request_def fun_eq_iff)

lemma other_operations_keep_bindings:
  "preserves (\<lambda>s. db_bindings (tables s) = rows) (UpsertUserFromGitHub now gid login avatar)"
  "preserves (\<lambda>s. db_bindings (tables s) = rows) (CreateSession uid token expires)"
  "preserves (\<lambda>s. db_bindings (tables s) = rows) (DeleteSession token)"
  "preserves (\<lambda>s. db_bindings (tables s) = rows) (CreateProject now uid name)"
  "preserves (\<lambda>s. db_bindings (tables s) = rows) (UpsertRun pt now uuid run)"
  subgoal by (rule UpsertUserFromGitHub_writes [where I = "\<lambda>d. db_bindings d = rows"]) simp_all
  subgoal by (rule CreateSession_writes [where I = "\<lambda>d. db_bindings d = rows"]) simp_all
  subgoal by (rule DeleteSession_writes [where I = "\<lambda>d. db_bindings d = rows"]) simp_all
  subgoal by (rule CreateProject_writes [where I = "\<lambda>d. db_bindings d = rows"]) simp_all
  subgoal by (rule UpsertRun_writes [where I = "\<lambda>d. db_bindings d = rows"]) simp_all
  done

lemmas keeping_bindings = bindings_kept.kept_handleGitHubCallback bindings_kept.kept_handleLogout
  bindings_kept.kept_handleCreateProject bindings_kept.kept_handleRunsIngest

lemma bindings_reached:
  assumes "db_bindings (tables_of (Routes a now uuid r s)) \<noteq> db_bindings (tables_of s)"
  shows "\<exists>slug user s1. tables_of s1 = tables_of s \<and> request_user now r (tables_of s) user \<and>
    (find_route (hr_Method r) (hr_Segments r) = Some (BindRepo slug) \<and> Routes a now uuid r s =
       handleBindRepo a now (Some user) (r\<lparr>hr_PathValue := path_values (BindRepo slug)\<rparr>) s1 \<or>
     find_route (hr_Method r) (hr_Segments r) = Some (UnbindRepo slug) \<and> Routes a now uuid r s =
       handleUnbindRepo a now (Some user) (r\<lparr>hr_PathValue := path_values (UnbindRepo slug)\<rparr>) s1)"
proof -
  let ?I = "\<lambda>d. db_bindings d = db_bindings (tables_of s)"
  from bindings_kept.Routes_reached [OF refl assms] obtain rt u s1 where
    rt: "find_route (hr_Method r) (hr_Segments r) = Some rt" and s1: "tables_of s1 = tables_of s" and
    u: "\<And>user. u = Some user \<Longrightarrow> request_user now r (tables_of s) user" and
    h: "Routes a now uuid r s = serve_route a now uuid rt (r\<lparr>hr_PathValue := path_values rt\<rparr>) u s1" and
    changed: "\<not> keeps (\<lambda>s'. ?I (tables_of s')) (serve_route a now uuid rt (r\<lparr>hr_PathValue := path_values rt\<rparr>) u)"
    by blast
  have "keeps (\<lambda>s'. ?I (tables_of s')) (serve_route a now uuid rt (r\<lparr>hr_PathValue := path_values rt\<rparr>) u)"
    if "\<And>slug. u \<noteq> None \<Longrightarrow> rt \<noteq> BindRepo slug \<and> rt \<noteq> UnbindRepo slug"
    by (rule bindings_kept.kept_serve_route) (use that in \<open>auto intro!: keeping_bindings other_operations_keep_bindings\<close>)
  with changed obtain slug where "u \<noteq> None" "rt = BindRepo slug \<or> rt = UnbindRepo slug"
    by blast
  then obtain user where user: "u = Some user"
    by blast
  from \<open>rt = BindRepo slug \<or> rt = UnbindRepo slug\<close> show ?thesis
  proof
    assume "rt = BindRepo slug"
    with rt s1 u [OF user] h user show ?thesis
      by (intro exI [of _ slug] exI [of _ user] exI [of _ s1]) (simp add: serve_route_def requireUser_def)
  next
    assume "rt = UnbindRepo slug"
    with rt s1 u [OF user] h user show ?thesis
      by (intro exI [of _ slug] exI [of _ user] exI [of _ s1]) (simp add: serve_route_def requireUser_def)
  qed
qed


lemma path_slug [simp]: "path_values (BindRepo slug) ''slug'' = slug" "path_values (UnbindRepo slug) ''slug'' = slug"
  by (simp_all add: path_values_def)

text \<open>Through any request: bindings change only by binding or unbinding, by a manager of the project.\<close>

lemma Routes_bindings:
  assumes "0 \<le> sv_accessCacheTTL a"
    and "db_bindings (tables_of (Routes a now uuid r s)) \<noteq> db_bindings (tables_of s)"
  shows "\<exists>slug user. hr_Method r = ''POST'' \<and> request_user now r (tables_of s) user \<and>
    (hr_Segments r = [''projects'', slug, ''repos'', ''bind''] \<and>
       bound_by_request a now user slug r (tables_of s) (tables_of (Routes a now uuid r s)) \<or>
     hr_Segments r = [''projects'', slug, ''repos'', ''unbind''] \<and>
       unbound_by_request now user slug r (tables_of s) (tables_of (Routes a now uuid r s)))"
proof -
  from bindings_reached [OF assms(2)] obtain slug user s1 where
    s1: "tables_of s1 = tables_of s" and user: "request_user now r (tables_of s) user" and
    cases: "find_route (hr_Method r) (hr_Segments r) = Some (BindRepo slug) \<and> Routes a now uuid r s =
        handleBindRepo a now (Some user) (r\<lparr>hr_PathValue := path_values (BindRepo slug)\<rparr>) s1 \<or>
      find_route (hr_Method r) (hr_Segments r) = Some (UnbindRepo slug) \<and> Routes a now uuid r s =
        handleUnbindRepo a now (Some user) (r\<lparr>hr_PathValue := path_values (UnbindRepo slug)\<rparr>) s1"
    by blast
  from cases show ?thesis
  proof (elim disjE conjE)
    assume f: "find_route (hr_Method r) (hr_Segments r) = Some (BindRepo slug)"
      and h: "Routes a now uuid r s = handleBindRepo a now (Some user) (r\<lparr>hr_PathValue := path_values (BindRepo slug)\<rparr>) s1"
    have "bound_by_request a now user slug r (tables_of s) (tables_of (Routes a now uuid r s))"
      using handleBindRepo_reaches [OF assms(1), of s1 "Some user" now "r\<lparr>hr_PathValue := path_values (BindRepo slug)\<rparr>"]
        assms(2) unfolding h by (simp add: reaches_def s1)
    with posted [OF f, of slug] post_route_segments(1) user show ?thesis
      by blast
  next
    assume f: "find_route (hr_Method r) (hr_Segments r) = Some (UnbindRepo slug)"
      and h: "Routes a now uuid r s = handleUnbindRepo a now (Some user) (r\<lparr>hr_PathValue := path_values (UnbindRepo slug)\<rparr>) s1"
    have "unbound_by_request now user slug r (tables_of s) (tables_of (Routes a now uuid r s))"
      using handleUnbindRepo_reaches [of s1 "Some user" now "r\<lparr>hr_PathValue := path_values (UnbindRepo slug)\<rparr>" a]
        assms(2) unfolding h by (simp add: reaches_def s1)
    with posted [OF f, of slug] post_route_segments(2) user show ?thesis
      by blast
  qed
qed

section \<open>Requests that write runs\<close>

lemma other_operations_keep_runs:
  "preserves (\<lambda>s. db_runs (tables s) = rows) (UpsertUserFromGitHub now gid login avatar)"
  "preserves (\<lambda>s. db_runs (tables s) = rows) (CreateSession uid token expires)"
  "preserves (\<lambda>s. db_runs (tables s) = rows) (DeleteSession token)"
  "preserves (\<lambda>s. db_runs (tables s) = rows) (CreateProject now uid name)"
  "preserves (\<lambda>s. db_runs (tables s) = rows) (BindRepoToProject now pid rid uid)"
  "preserves (\<lambda>s. db_runs (tables s) = rows) (UnbindRepoFromProject now pid rid)"
  subgoal by (rule UpsertUserFromGitHub_writes [where I = "\<lambda>d. db_runs d = rows"]) simp_all
  subgoal by (rule CreateSession_writes [where I = "\<lambda>d. db_runs d = rows"]) simp_all
  subgoal by (rule DeleteSession_writes [where I = "\<lambda>d. db_runs d = rows"]) simp_all
  subgoal by (rule CreateProject_writes [where I = "\<lambda>d. db_runs d = rows"]) simp_all
  subgoal by (rule binding_writes(1) [where I = "\<lambda>d. db_runs d = rows"]) simp_all
  subgoal by (rule binding_writes(2) [where I = "\<lambda>d. db_runs d = rows"]) simp_all
  done

lemmas keeping_runs = runs_kept.kept_handleGitHubCallback runs_kept.kept_handleLogout
  runs_kept.kept_handleCreateProject runs_kept.kept_handleBindRepo runs_kept.kept_handleUnbindRepo

lemma accepted_upload_path [simp]: "accepted_upload a now (r\<lparr>hr_PathValue := f\<rparr>) = accepted_upload a now r"
  by (simp add: accepted_upload_def fun_eq_iff)

lemma Routes_runs:
  assumes "db_runs (tables_of (Routes a now uuid r s)) \<noteq> db_runs (tables_of s)"
  shows "hr_Method r = ''POST'' \<and> hr_Segments r = [''runs''] \<and>
    (\<exists>claims body sha cs ce. accepted_upload a now r claims body sha cs ce \<and>
       stored_upload (lb_pg_types (sv_lib a)) (u_RepositoryID claims) (u_ExecutionID claims) body (sha256Hex a body)
         (u_CommitSHA claims) (u_RunID claims) (db_runs (tables_of s)) (db_runs (tables_of (Routes a now uuid r s))))"
proof -
  let ?I = "\<lambda>d. db_runs d = db_runs (tables_of s)"
  from runs_kept.Routes_reached [OF refl assms] obtain rt u s1 where
    rt: "find_route (hr_Method r) (hr_Segments r) = Some rt" and s1: "tables_of s1 = tables_of s" "fresh_writer s1" and
    h: "Routes a now uuid r s = serve_route a now uuid rt (r\<lparr>hr_PathValue := path_values rt\<rparr>) u s1" and
    changed: "\<not> keeps (\<lambda>s'. ?I (tables_of s')) (serve_route a now uuid rt (r\<lparr>hr_PathValue := path_values rt\<rparr>) u)"
    by blast
  have "keeps (\<lambda>s'. ?I (tables_of s')) (serve_route a now uuid rt (r\<lparr>hr_PathValue := path_values rt\<rparr>) u)"
    if "rt \<noteq> RunsIngest"
    by (rule runs_kept.kept_serve_route) (use that in \<open>auto intro!: keeping_runs other_operations_keep_runs\<close>)
  with changed have ingest: "rt = RunsIngest"
    by blast
  have "\<exists>claims body sha cs ce. accepted_upload a now (r\<lparr>hr_PathValue := path_values rt\<rparr>) claims body sha cs ce \<and>
       stored_upload (lb_pg_types (sv_lib a)) (u_RepositoryID claims) (u_ExecutionID claims) body (sha256Hex a body)
         (u_CommitSHA claims) (u_RunID claims) (db_runs (tables_of s1)) (db_runs (tables_of (Routes a now uuid r s)))"
    unfolding h ingest serve_route_def route.case
    by (rule upload_changes_runs) (use assms s1 in \<open>simp_all add: h ingest serve_route_def\<close>)
  with posted [OF rt] post_route_segments(3) ingest s1(1) show ?thesis
    by simp
qed

section \<open>An example\<close>

definition demo_site :: db where
  "demo_site = demo_db\<lparr>
     db_sessions := [\<lparr>se_token = ''t'', se_user_id = 1, se_expires_at = Instant 900\<rparr>],
     db_access := [\<lparr>ac_user_id = 1, ac_repo_id = 7, ac_installation_id = 2\<rparr>],
     db_syncs := [\<lparr>sy_user_id = 1, sy_synced_at = Some (Instant 50), sy_attempted_at = Some (Instant 50),
       sy_last_error = None, sy_etag = None\<rparr>]\<rparr>"

definition bind_request :: http_request where
  "bind_request = demo_http\<lparr>hr_Segments := [''projects'', ''p'', ''repos'', ''bind''],
     hr_Cookies := [(SessionCookieName, ''t'')], hr_Form := Inr (\<lambda>k. if k = ''repo_id'' then '' 7'' else [])\<rparr>"

lemma demo_bind:
  "map bi_bound_at (db_bindings (tables_of (Routes demo_server (Instant 60) ''u'' bind_request (demo_web demo_site)))) = [Instant 60]"
  by code_simp

section \<open>Properties\<close>

text \<open>
  C2: Whatever request arrives, whatever fails, the bindings between projects and repositories
  change in two ways only. The request is a POST to the bind route of a project, its session
  belongs to a user who is owner or admin of that project, the form names the repository, the
  user's access list holds that repository and was synchronised with GitHub within the tolerated
  age, and the one binding of this project and repository is written as live, bound by this user
  now; or it is a POST to the unbind route by such a user, and exactly the live binding of the
  project and the repository of the form is revoked.
\<close>

theorem bindings_changed_by_managers:
  assumes "0 \<le> sv_accessCacheTTL a"
    and "db_bindings (tables_of (Routes a now uuid r s)) \<noteq> db_bindings (tables_of s)"
  shows "\<exists>slug user. hr_Method r = ''POST'' \<and> request_user now r (tables_of s) user \<and>
    (hr_Segments r = [''projects'', slug, ''repos'', ''bind''] \<and>
       bound_by_request a now user slug r (tables_of s) (tables_of (Routes a now uuid r s)) \<or>
     hr_Segments r = [''projects'', slug, ''repos'', ''unbind''] \<and>
       unbound_by_request now user slug r (tables_of s) (tables_of (Routes a now uuid r s)))"
  using assms by (rule Routes_bindings)

theorem bindings_changed_by_managers_witness:
  "\<exists>user. bound_by_request demo_server (Instant 60) user ''p'' bind_request demo_site
     (tables_of (Routes demo_server (Instant 60) ''u'' bind_request (demo_web demo_site)))"
proof -
  have ttl: "0 \<le> sv_accessCacheTTL demo_server"
    by code_simp
  have before: "tables_of (demo_web demo_site) = demo_site"
    by (simp add: demo_web_def first_state_def healthy_def)
  have "map bi_bound_at (db_bindings demo_site) = [Instant 2]"
    by code_simp
  with demo_bind have "db_bindings (tables_of (Routes demo_server (Instant 60) ''u'' bind_request (demo_web demo_site))) \<noteq>
      db_bindings (tables_of (demo_web demo_site))"
    by (auto simp: before)
  from bindings_changed_by_managers [OF ttl this] show ?thesis
    by (auto simp: before bind_request_def)
qed

text \<open>
  C7: Whatever request arrives, whatever fails, the stored runs change only when the request is a
  POST to the ingest route with an upload token that this server's manager accepts now, a body
  within the limit that is valid JSON and a valid summary and has the hash that the token names;
  and then exactly the run of the token's repository and execution is written, with that body.
\<close>

theorem runs_changed_by_uploads:
  assumes "db_runs (tables_of (Routes a now uuid r s)) \<noteq> db_runs (tables_of s)"
  shows "hr_Method r = ''POST'' \<and> hr_Segments r = [''runs''] \<and>
    (\<exists>claims body sha cs ce. accepted_upload a now r claims body sha cs ce \<and>
       stored_upload (lb_pg_types (sv_lib a)) (u_RepositoryID claims) (u_ExecutionID claims) body (sha256Hex a body)
         (u_CommitSHA claims) (u_RunID claims) (db_runs (tables_of s)) (db_runs (tables_of (Routes a now uuid r s))))"
  using assms by (rule Routes_runs)

theorem runs_changed_by_uploads_witness:
  "\<exists>claims body sha cs ce. accepted_upload demo_server (Instant 2000000000) demo_http claims body sha cs ce"
proof -
  have "length (db_runs (tables_of (Routes demo_server (Instant 2000000000) ''u1'' demo_http (demo_web empty_db)))) = 1"
    by code_simp
  moreover have "db_runs (tables_of (demo_web empty_db)) = []"
    by code_simp
  ultimately have "db_runs (tables_of (Routes demo_server (Instant 2000000000) ''u1'' demo_http (demo_web empty_db))) \<noteq>
      db_runs (tables_of (demo_web empty_db))"
    by auto
  from runs_changed_by_uploads [OF this] show ?thesis by blast
qed

end
