(* ===== verification/Login_Properties.thy ===== *)
theory Login_Properties
  imports Access_Properties
begin

text \<open>
  Properties of logging in and out: for whom a session is made, that the state cookie guards the
  login, and that a login is recognised afterwards.
\<close>

section \<open>The user of a GitHub identity\<close>

definition identity_user :: "db \<Rightarrow> int64 \<Rightarrow> int64 option" where
  "identity_user d githubID =
     map_option id_user_id (lookup_by identity_key (''github'', FormatInt githubID) (db_identities d))"

lemma update_identity_user:
  "identity_user (d\<lparr>db_identities := update_where (\<lambda>i. identity_key i = k) (\<lambda>i. i\<lparr>id_provider_login := login\<rparr>) (db_identities d)\<rparr>) gid
    = identity_user d gid"
proof -
  have "map_option id_user_id (lookup_by identity_key k' (update_where (\<lambda>i. identity_key i = k)
      (\<lambda>i. i\<lparr>id_provider_login := login\<rparr>) rows)) = map_option id_user_id (lookup_by identity_key k' rows)" for k' rows
    by (subst lookup_by_update_where) (auto simp: identity_key_def option.map_comp intro: option.map_cong)
  then show ?thesis
    by (simp add: identity_user_def)
qed

lemma github_identity_ok:
  assumes "github_identity now (FormatInt gid) login avatar x = (Inr uid, x')"
  shows "identity_user (work x') gid = Some uid"
proof -
  let ?q = "\<lambda>d. map_option id_user_id (lookup_by identity_key (''github'', FormatInt gid) (db_identities d))"
  obtain r x1 where q: "tx_query_row ?q x = (r, x1)"
    by (cases "tx_query_row ?q x")
  show ?thesis
  proof (cases r)
    case (Inr u)
    from tx_query_row_ok [OF q [unfolded Inr]] have u: "identity_user (work x1) gid = Some u"
      by (auto simp: identity_user_def)
    from assms q Inr obtain x2 where "tx_exec (update_identity_stmt (FormatInt gid) login) x1 = (Inr (), x2)" "uid = u" "x' = x2"
      by (auto simp: github_identity_def catch_op_def bind_op_ok wrap_err_ok ret_def)
    with tx_exec_ok [OF this(1)] have "work x' = (work x1)\<lparr>db_identities :=
        update_where (\<lambda>i. identity_key i = (''github'', FormatInt gid)) (\<lambda>i. i\<lparr>id_provider_login := login\<rparr>)
          (db_identities (work x1))\<rparr>"
      by (simp add: update_identity_stmt_def)
    with u \<open>uid = u\<close> show ?thesis
      by (simp add: update_identity_user)
  next
    case (Inl e)
    with assms q obtain u x2 where "tx_exec (insert_identity_stmt (FormatInt gid) login u) x2 = (Inr (), x')" "uid = u"
      by (auto simp: github_identity_def catch_op_def bind_op_ok wrap_err_ok ret_def fail_def split: if_splits)
    with tx_exec_ok [OF this(1)] have new: "\<not> has_key identity_key (''github'', FormatInt gid) (db_identities (work x2))"
      "work x' = (work x2)\<lparr>db_identities := db_identities (work x2) @
         [\<lparr>id_provider = ''github'', id_provider_user_id = FormatInt gid, id_provider_login = login, id_user_id = uid\<rparr>]\<rparr>"
      by (auto simp: insert_identity_stmt_def split: if_splits)
    then have "lookup_by identity_key (''github'', FormatInt gid) (db_identities (work x2)) = None"
      by (simp add: lookup_by_None)
    with new show ?thesis
      by (simp add: identity_user_def lookup_by_append identity_key_def)
  qed
qed

lemma UpsertUserFromGitHub_identity:
  assumes "UpsertUserFromGitHub now gid login avatar s = (Inr user, s')"
  shows "identity_user (tables s') gid = Some (usr_ID user)"
proof -
  from transaction_ok [OF assms [unfolded UpsertUserFromGitHub_def]] obtain x1 uid x2 x3 where
    "github_identity now (FormatInt gid) login avatar x1 = (Inr uid, x2)"
    "tx_exec (update_profile_stmt uid login avatar) x2 = (Inr (), x3)"
    "\<exists>x4. tx_query_row (\<lambda>d. map_option (user_view d) (lookup_by us_id uid (db_users d))) x3 = (Inr user, x4) \<and> tables s' = work x4"
    by (auto simp: body_result_def bind_op_ok wrap_err_ok getUserByIDTx_def)
  note steps = this
  from tx_exec_ok [OF steps(2)] have "identity_user (work x3) gid = identity_user (work x2) gid"
    by (auto simp: update_profile_stmt_def identity_user_def dest!: sym [of _ "work x3"])
  moreover from steps(3) obtain x4 where
    x4: "tx_query_row (\<lambda>d. map_option (user_view d) (lookup_by us_id uid (db_users d))) x3 = (Inr user, x4)" "tables s' = work x4"
    by blast
  from tx_query_row_ok [OF x4(1)] have "work x4 = work x3" "usr_ID user = uid"
    by (auto simp: user_view_def dest: lookup_by_Some)
  ultimately show ?thesis
    using github_identity_ok [OF steps(1)] x4(2) by simp
qed

section \<open>The login\<close>

text \<open>What a request has shown and done when it has made a session.\<close>

definition login_by_request ::
  "('sk, 'pk) server \<Rightarrow> instant \<Rightarrow> http_request \<Rightarrow> db \<Rightarrow> db \<Rightarrow> bool" where
  "login_by_request a now r d d' \<longleftrightarrow>
     hr_Query r ''state'' \<noteq> [] \<and> ReadOAuthStateCookie r = Some (hr_Query r ''state'') \<and> hr_Query r ''code'' \<noteq> [] \<and>
     (\<exists>accessToken githubID login avatar userID buf. length buf = 32 \<and>
        GitHubUser (lb_users_get (sv_lib a)) accessToken = Inr (githubID, login, avatar) \<and>
        identity_user d' githubID = Some userID \<and>
        db_sessions d' = db_sessions d @ [\<lparr>se_token = RawURLEncode buf, se_user_id = userID,
          se_expires_at = time_Add now (30 * 24 * hour)\<rparr>])"

lemma create_session_stmt_ok:
  "create_session_stmt userID token expires d = Inr (x, d') \<Longrightarrow>
   d' = d\<lparr>db_sessions := db_sessions d @ [\<lparr>se_token = token, se_user_id = userID, se_expires_at = expires\<rparr>]\<rparr>"
  by (auto simp: create_session_stmt_def split: if_splits)

lemma reaches_mono:
  "reaches P' Q' f s \<Longrightarrow> (\<And>t. P' t \<Longrightarrow> P t) \<Longrightarrow> (\<And>t. Q' t \<Longrightarrow> Q t) \<Longrightarrow> reaches P Q f s"
  by (auto simp: reaches_def)

text \<open>The part after the user is known touches neither identities nor other sessions.\<close>

lemma session_end_reaches:
  fixes c :: "'sk client" and a :: "('sk, 'pk) server"
  assumes "hr_Query r ''state'' \<noteq> []" "ReadOAuthStateCookie r = Some (hr_Query r ''state'')" "hr_Query r ''code'' \<noteq> []"
    and "GitHubUser (lb_users_get (sv_lib a)) accessToken = Inr (githubID, login, avatar)"
    and "identity_user (tables_of s) githubID = Some (usr_ID user)"
  shows "reaches (\<lambda>t. db_sessions (tables_of t) = db_sessions (tables_of s))
    (\<lambda>t. login_by_request a now r (tables_of s) (tables_of t))
    (try_op (encrypt_fresh c t1)
          (\<lambda>_. renderError a StatusInternalServerError ''failed to encrypt access token'') (\<lambda>accessEnc.
        try_op (encrypt_refresh c t2)
          (\<lambda>_. renderError a StatusInternalServerError ''failed to encrypt refresh token'') (\<lambda>refreshEnc.
        try_op (on_store (UpsertUserGitHubTokens (usr_ID user) accessEnc e1 refreshEnc e2))
          (\<lambda>_. renderError a StatusInternalServerError ''failed to persist github tokens'') (\<lambda>_.
        try_op NewToken
          (\<lambda>_. renderError a StatusInternalServerError ''failed to create session'') (\<lambda>sessionToken.
        try_op (on_store (CreateSession (usr_ID user) sessionToken (time_Add now (30 * 24 * hour))))
          (\<lambda>_. renderError a StatusInternalServerError ''failed to store session'') (\<lambda>_ s.
        redirect ''/dashboard''
          (out (SetSessionCookie sessionToken (time_Add now (30 * 24 * hour)) (sv_secureCookies a)) s))))))) s"
  (is "reaches _ ?Q ?finish s")
proof (rule reaches_mono)
  let ?I = "\<lambda>d. db_sessions d = db_sessions (tables_of s) \<and> db_identities d = db_identities (tables_of s)"
  have token: "\<exists>buf. length buf = 32 \<and> sessionToken = RawURLEncode buf" if "NewToken t = (Inr sessionToken, t')" for sessionToken t t'
    using NewToken_ok [OF that] by blast
  have session: "?Q t'" if "?I d" "create_session_stmt (usr_ID user) sessionToken (time_Add now (30 * 24 * hour)) d = Inr (x, tables_of t')"
    "\<exists>buf. length buf = 32 \<and> sessionToken = RawURLEncode buf" for t' d x sessionToken
  proof -
    from that(3) obtain buf where "length buf = 32" "sessionToken = RawURLEncode buf"
      by blast
    moreover have "identity_user (tables_of t') githubID = Some (usr_ID user)"
      using create_session_stmt_ok [OF that(2)] that(1) assms(5) by (simp add: identity_user_def)
    moreover have "db_sessions (tables_of t') = db_sessions (tables_of s) @
        [\<lparr>se_token = sessionToken, se_user_id = usr_ID user, se_expires_at = time_Add now (30 * 24 * hour)\<rparr>]"
      using create_session_stmt_ok [OF that(2)] that(1) by simp
    ultimately show ?thesis
      unfolding login_by_request_def using assms(1-4) by blast
  qed
  show "reaches (\<lambda>t. ?I (tables_of t)) ?Q ?finish s"
  proof (rule reaches_try_op, goal_cases)
    case (4 accessEnc s1)
    show ?case
    proof (rule reaches_try_op, goal_cases)
      case (4 refreshEnc s2)
      show ?case
      proof (rule reaches_try_op, goal_cases)
        case 1
        show ?case
          by (rule preserves_on_store [where I = ?I], rule UpsertUserGitHubTokens_writes) simp
      next
        case (4 x s3)
        show ?case
        proof (rule reaches_try_op, goal_cases)
          case (4 sessionToken s4)
          note t = token [OF 4(1)]
          show ?case
            unfolding CreateSession_def
            by (rule reaches_last_exec) (use 4(2) session t in \<open>auto intro: keep_rules\<close>)
        qed (use 4 in \<open>auto intro: keep_rules preserve_rules\<close>)
      qed (use 4 in \<open>auto intro: keep_rules\<close>)
    qed (use 4 in \<open>auto simp: encrypt_refresh_def intro: keep_rules preserve_rules\<close>)
  qed (auto intro: keep_rules preserve_rules)
qed simp_all

lemma reaches_after_out:
  "reaches P Q f (out g s) \<Longrightarrow> reaches P Q (\<lambda>s. f (out g s)) s"
  by (simp add: reaches_def)

lemma reaches_case_prod: "(\<And>x y. p = (x, y) \<Longrightarrow> reaches P Q (f x y) s) \<Longrightarrow> reaches P Q (case p of (x, y) \<Rightarrow> f x y) s"
  by (cases p) simp

lemma preserves_user_upsert:
  "preserves (\<lambda>t. db_sessions (tables_of t) = rows) (on_store (UpsertUserFromGitHub now gid login avatar))"
  by (rule preserves_on_store [where I = "\<lambda>d. db_sessions d = rows"], rule UpsertUserFromGitHub_writes) simp_all

lemma login_by_request_sessions:
  "login_by_request a now r d d'' \<Longrightarrow> db_sessions d = db_sessions d' \<Longrightarrow> login_by_request a now r d' d''"
  by (simp add: login_by_request_def)

lemma handleGitHubCallback_reaches:
  "reaches (\<lambda>t. db_sessions (tables_of t) = db_sessions (tables_of s))
     (\<lambda>t. login_by_request a now r (tables_of s) (tables_of t)) (handleGitHubCallback a now r) s"
  (is "reaches ?P ?Q _ s")
proof (cases "sv_githubAppClient a")
  case None
  then show ?thesis
    by (simp add: handleGitHubCallback_def) (auto intro: reaches_keeps keep_rules)
next
  case (Some c)
  show ?thesis
    unfolding handleGitHubCallback_def Some option.case Let_def
  proof (rule reaches_if, goal_cases)
    case 1
    show ?case
      by (rule reaches_keeps) (auto intro: keep_rules)
  next
    case 2
    then have asked: "hr_Query r ''state'' \<noteq> []" "hr_Query r ''code'' \<noteq> []"
      by simp_all
    show ?case
    proof (rule reaches_if, goal_cases)
      case 1
      show ?case
        by (simp add: reaches_def)
    next
      case 2
      then have cookie: "ReadOAuthStateCookie r = Some (hr_Query r ''state'')"
        by simp
      show ?case
      proof (rule reaches_after_out, rule reaches_try_op, goal_cases)
        case (4 userToken s1)
        show ?case
        proof (rule reaches_try_op, goal_cases)
          case (4 profile s2)
          obtain githubID login avatar where profile: "profile = (githubID, login, avatar)"
            by (cases profile)
          from 4 have gh: "GitHubUser (lb_users_get (sv_lib a)) (ut_AccessToken userToken) = Inr (githubID, login, avatar)"
            by (simp add: lift_result_def profile)
          show ?case
            unfolding profile prod.case
          proof (rule reaches_try_op, goal_cases)
            case 1
            show ?case by (rule preserves_user_upsert)
          next
            case (4 user s3)
            have id: "identity_user (tables_of s3) githubID = Some (usr_ID user)"
              using UpsertUserFromGitHub_identity [OF on_store_store [OF 4(1)]] .
            have "db_sessions (tables_of s3) = db_sessions (tables_of s)"
              using 4(2) by simp
            then show ?case
              by (intro reaches_mono [OF session_end_reaches [OF asked(1) cookie asked(2) gh id]])
                (auto elim: login_by_request_sessions)
          qed (use 4 in \<open>auto intro: keep_rules\<close>)
        qed (use 4 in \<open>auto intro: keep_rules preserve_rules\<close>)
      qed (auto intro: keep_rules preserve_rules)
    qed
  qed
qed

section \<open>Requests that write sessions\<close>

definition logout_by_request :: "http_request \<Rightarrow> db \<Rightarrow> db \<Rightarrow> bool" where
  "logout_by_request r d d' \<longleftrightarrow>
     (\<exists>token. ReadSessionToken r = Some token \<and> db_sessions d' = delete_where (\<lambda>x. se_token x = token) (db_sessions d))"

lemma handleLogout_reaches:
  "db_sessions (tables_of (handleLogout a r s)) = db_sessions (tables_of s) \<or>
   logout_by_request r (tables_of s) (tables_of (handleLogout a r s))"
proof (cases "ReadSessionToken r")
  case (Some token)
  obtain res s' where s': "on_store (DeleteSession token) s = (res, s')"
    by (cases "on_store (DeleteSession token) s")
  from on_store_exec [OF s' [unfolded DeleteSession_def]] Some s' show ?thesis
    by (auto simp: handleLogout_def logout_by_request_def delete_session_stmt_def dest!: sym [of _ "tables_of s'"])
qed (simp add: handleLogout_def)

lemma other_operations_keep_sessions:
  "preserves (\<lambda>s. db_sessions (tables s) = rows) (CreateProject now uid name)"
  "preserves (\<lambda>s. db_sessions (tables s) = rows) (UpsertRun pt now uuid run)"
  "preserves (\<lambda>s. db_sessions (tables s) = rows) (BindRepoToProject now pid rid uid)"
  "preserves (\<lambda>s. db_sessions (tables s) = rows) (UnbindRepoFromProject now pid rid)"
  subgoal by (rule CreateProject_writes [where I = "\<lambda>d. db_sessions d = rows"]) simp_all
  subgoal by (rule UpsertRun_writes [where I = "\<lambda>d. db_sessions d = rows"]) simp_all
  subgoal by (rule binding_writes(1) [where I = "\<lambda>d. db_sessions d = rows"]) simp_all
  subgoal by (rule binding_writes(2) [where I = "\<lambda>d. db_sessions d = rows"]) simp_all
  done

lemmas keeping_sessions = sessions_kept.kept_handleCreateProject sessions_kept.kept_handleRunsIngest
  sessions_kept.kept_handleBindRepo sessions_kept.kept_handleUnbindRepo

lemma request_parts_path [simp]:
  "login_by_request a now (r\<lparr>hr_PathValue := f\<rparr>) = login_by_request a now r"
  "logout_by_request (r\<lparr>hr_PathValue := f\<rparr>) = logout_by_request r"
  by (simp_all add: login_by_request_def logout_by_request_def ReadOAuthStateCookie_def ReadSessionToken_def
      request_Cookie_def fun_eq_iff)

lemma callback_route:
  "find_route meth segs = Some GitHubCallback \<Longrightarrow> segs = [''auth'', ''github'', ''callback'']"
proof -
  have "get_route segs = Some GitHubCallback \<Longrightarrow> segs = [''auth'', ''github'', ''callback'']"
    unfolding get_route_def by (simp del: list.inject char.inject split: list.splits if_splits)
  moreover have "post_route segs \<noteq> Some GitHubCallback"
    unfolding post_route_def by (simp split: list.splits)
  ultimately show "find_route meth segs = Some GitHubCallback \<Longrightarrow> segs = [''auth'', ''github'', ''callback'']"
    by (simp add: find_route_def split: if_splits)
qed

lemma Routes_sessions:
  assumes "db_sessions (tables_of (Routes a now uuid r s)) \<noteq> db_sessions (tables_of s)"
  shows "hr_Segments r = [''auth'', ''github'', ''callback''] \<and>
      login_by_request a now r (tables_of s) (tables_of (Routes a now uuid r s)) \<or>
    hr_Method r = ''POST'' \<and> hr_Segments r = [''auth'', ''logout''] \<and>
      logout_by_request r (tables_of s) (tables_of (Routes a now uuid r s))"
proof -
  let ?I = "\<lambda>d. db_sessions d = db_sessions (tables_of s)"
  from sessions_kept.Routes_reached [OF refl assms] obtain rt u s1 where
    rt: "find_route (hr_Method r) (hr_Segments r) = Some rt" and s1: "tables_of s1 = tables_of s" and
    h: "Routes a now uuid r s = serve_route a now uuid rt (r\<lparr>hr_PathValue := path_values rt\<rparr>) u s1" and
    changed: "\<not> keeps (\<lambda>s'. ?I (tables_of s')) (serve_route a now uuid rt (r\<lparr>hr_PathValue := path_values rt\<rparr>) u)"
    by blast
  have "keeps (\<lambda>s'. ?I (tables_of s')) (serve_route a now uuid rt (r\<lparr>hr_PathValue := path_values rt\<rparr>) u)"
    if "rt \<noteq> GitHubCallback" "rt \<noteq> LogoutRoute"
    by (rule sessions_kept.kept_serve_route) (use that in \<open>auto intro!: keeping_sessions other_operations_keep_sessions\<close>)
  with changed consider "rt = GitHubCallback" | "rt = LogoutRoute"
    by blast
  then show ?thesis
  proof cases
    case 1
    have "login_by_request a now (r\<lparr>hr_PathValue := path_values rt\<rparr>) (tables_of s) (tables_of (Routes a now uuid r s))"
      using handleGitHubCallback_reaches [of s1 a now "r\<lparr>hr_PathValue := path_values rt\<rparr>"] assms s1
      by (simp add: h 1 serve_route_def reaches_def)
    with callback_route [OF rt [unfolded 1]] show ?thesis by simp
  next
    case 2
    have "logout_by_request (r\<lparr>hr_PathValue := path_values rt\<rparr>) (tables_of s) (tables_of (Routes a now uuid r s))"
      using handleLogout_reaches [of a "r\<lparr>hr_PathValue := path_values rt\<rparr>" s1] assms s1
      by (simp add: h 2 serve_route_def)
    with posted [OF rt] post_route_segments(4) 2 show ?thesis by simp
  qed
qed

section \<open>What the browser gets\<close>

text \<open>Operations that write nothing to the response.\<close>

lemma untouched_world:
  "preserves (\<lambda>s. wb_out s = w) (on_store m)" "preserves (\<lambda>s. wb_out s = w) (on_network n)"
  by (auto simp: preserves_def on_store_def on_network_def on_world_def split: prod.split)

lemma untouched_random:
  "preserves (\<lambda>s. wb_out s = w) (encrypt_fresh c token)" "preserves (\<lambda>s. wb_out s = w) NewToken"
  by (auto simp: preserves_def encrypt_fresh_def NewToken_def rand_Read_def bind_op_def ret_def split: prod.split list.split sum.split)

lemma untouched_Verify: "preserves (\<lambda>s. wb_out s = w) (oidc_Verify a v now bearer)"
  by (auto simp: preserves_def oidc_Verify_def split: prod.split list.split)

lemmas untouched_rules = untouched_world untouched_random untouched_Verify preserves_lift_result preserves_userFromRequest

text \<open>Before the redirect at its end, a login has another status than 303.\<close>

abbreviation not_redirected :: "web \<Rightarrow> bool" where
  "not_redirected s \<equiv> status_of s \<noteq> 303"

lemma keeps_error_page: "0 < code \<Longrightarrow> code \<noteq> 303 \<Longrightarrow> keeps not_redirected (renderError a code msg)"
proof -
  assume code: "0 < code" "code \<noteq> 303"
  have "not_redirected (renderError a code msg s)" if "not_redirected s" for s
  proof (cases "wr_status (wb_out s)")
    case None
    with code show ?thesis by simp
  next
    case (Some st)
    obtain res w' where w': "RenderWithStatus (lb_templates (sv_lib a)) code (LoginPage msg msg) (wb_out s) = (res, w')"
      by (cases "RenderWithStatus (lb_templates (sv_lib a)) code (LoginPage msg msg) (wb_out s)")
    with status_render [OF Some, of "lb_templates (sv_lib a)" "LoginPage msg msg" code] have "wr_status w' = Some st"
      by (simp add: RenderWithStatus_def)
    with w' have "wr_status (wb_out (renderError a code msg s)) = Some st"
      by (cases res) (simp_all add: renderError_def)
    with Some that show ?thesis by (simp add: sent_status_def)
  qed
  then show ?thesis by (simp add: keeps_def)
qed

text \<open>One operation of the login: it writes no response, and its error page is no redirect.\<close>

lemma login_step:
  assumes "preserves (\<lambda>s. wb_out s = w) m" "wb_out s = w" "sent_status w \<noteq> 303" "0 < code" "code \<noteq> 303"
    and "\<And>x t. m s = (Inr x, t) \<Longrightarrow> wb_out t = w \<Longrightarrow> reaches not_redirected Q (f x) t"
  shows "reaches not_redirected Q (try_op m (\<lambda>_. renderError a code msg) f) s"
proof (cases "m s")
  case (Pair r t)
  with preservesE [OF assms(1,2)] have t: "wb_out t = w"
    by blast
  with assms(3) keepsD [OF keeps_error_page [OF assms(4,5)], of t] have "not_redirected (renderError a code msg t)"
    by simp
  with Pair t assms(6) show ?thesis
    by (cases r) (auto simp: try_op_def reaches_def)
qed

definition session_cookie :: "('sk, 'pk) server \<Rightarrow> instant \<Rightarrow> string \<Rightarrow> cookie" where
  "session_cookie a now token =
     \<lparr>ck_Name = SessionCookieName, ck_Value = token, ck_Path = ''/'', ck_HttpOnly = True,
       ck_Secure = sv_secureCookies a, ck_SameSite = ''Lax'', ck_MaxAge = 0,
       ck_Expires = Some (time_Add now (30 * 24 * hour))\<rparr>"

text \<open>The session is stored, for an existing user, and the response ends with its cookie.\<close>

definition session_given :: "('sk, 'pk) server \<Rightarrow> instant \<Rightarrow> web \<Rightarrow> bool" where
  "session_given a now t \<longleftrightarrow>
     (\<exists>buf cs userID. length buf = 32 \<and> wr_cookies (wb_out t) = cs @ [session_cookie a now (RawURLEncode buf)] \<and>
        lookup_by se_token (RawURLEncode buf) (db_sessions (tables_of t)) =
          Some \<lparr>se_token = RawURLEncode buf, se_user_id = userID, se_expires_at = time_Add now (30 * 24 * hour)\<rparr> \<and>
        filter (\<lambda>x. se_token x = RawURLEncode buf) (db_sessions (tables_of t)) =
          [\<lparr>se_token = RawURLEncode buf, se_user_id = userID, se_expires_at = time_Add now (30 * 24 * hour)\<rparr>] \<and>
        has_key us_id userID (db_users (tables_of t)))"

lemma create_session_given:
  assumes "on_store (CreateSession userID (RawURLEncode buf) (time_Add now (30 * 24 * hour))) s = (Inr x, s')"
    and "length buf = 32" "fresh_writer s"
  shows "session_given a now (redirect ''/dashboard''
     (out (SetSessionCookie (RawURLEncode buf) (time_Add now (30 * 24 * hour)) (sv_secureCookies a)) s'))"
proof -
  from on_store_store [OF assms(1)] have "create_session_stmt userID (RawURLEncode buf) (time_Add now (30 * 24 * hour)) (tables_of s)
      = Inr (x, tables_of s')"
    using exec_ok by (simp add: CreateSession_def wrap_err_ok)
  then have new: "\<not> has_key se_token (RawURLEncode buf) (db_sessions (tables_of s))" "has_key us_id userID (db_users (tables_of s'))"
    "db_sessions (tables_of s') = db_sessions (tables_of s) @
       [\<lparr>se_token = RawURLEncode buf, se_user_id = userID, se_expires_at = time_Add now (30 * 24 * hour)\<rparr>]"
    by (auto simp: create_session_stmt_def split: if_splits dest!: sym [of _ "tables_of s'"])
  then have "filter (\<lambda>x. se_token x = RawURLEncode buf) (db_sessions (tables_of s)) = []"
    by (auto simp: filter_empty_conv has_key_set) (metis image_eqI)
  moreover have "wr_cookies (wb_out s' \<lparr>wr_cookies := cs\<rparr>) = cs" for cs
    by simp
  moreover have "fresh_writer s'"
    using assms(3) on_store_out [OF assms(1)] by simp
  moreover from new have "lookup_by se_token (RawURLEncode buf) (db_sessions (tables_of s)) = None"
    by (simp add: lookup_by_None)
  ultimately show ?thesis
    using new assms(2) unfolding session_given_def
    by (intro exI [of _ buf] exI [of _ "wr_cookies (wb_out s')"] exI [of _ userID])
      (simp add: session_cookie_def SetSessionCookie_def SetCookie_def http_Redirect_def header_Set_def
        WriteHeader_def lookup_by_append)
qed

lemma callback_session_given:
  assumes "status_of (handleGitHubCallback a now r s) = 303" "fresh_writer s"
  shows "session_given a now (handleGitHubCallback a now r s)"
proof -
  obtain c where c: "sv_githubAppClient a = Some c"
    using assms by (cases "sv_githubAppClient a") (auto simp: handleGitHubCallback_def status_codes)
  have q1: "\<not> (hr_Query r ''state'' = [] \<or> hr_Query r ''code'' = [])"
  proof
    assume "hr_Query r ''state'' = [] \<or> hr_Query r ''code'' = []"
    then have "handleGitHubCallback a now r s = renderError a StatusBadRequest ''missing oauth state or code'' s"
      by (simp add: handleGitHubCallback_def c)
    with assms show False by (simp add: status_codes)
  qed
  have q2: "ReadOAuthStateCookie r = Some (hr_Query r ''state'')"
  proof (rule ccontr)
    assume "ReadOAuthStateCookie r \<noteq> Some (hr_Query r ''state'')"
    with q1 have "handleGitHubCallback a now r s = renderError a StatusUnauthorized ''invalid oauth state''
        (out (ClearOAuthStateCookie (sv_secureCookies a)) s)"
      by (simp add: handleGitHubCallback_def c)
    with assms show False by (simp add: status_codes ClearOAuthStateCookie_def)
  qed
  let ?w = "wb_out (out (ClearOAuthStateCookie (sv_secureCookies a)) s)"
  have w: "wr_status ?w = None" "sent_status ?w \<noteq> 303"
    using assms(2) by (simp_all add: ClearOAuthStateCookie_def sent_status_def)
  have given: "reaches not_redirected (session_given a now) (\<lambda>s. redirect ''/dashboard''
      (out (SetSessionCookie sessionToken (time_Add now (30 * 24 * hour)) (sv_secureCookies a)) s)) s2"
    if "NewToken s0 = (Inr sessionToken, s1)" "wb_out s1 = ?w"
      "on_store (CreateSession userID sessionToken (time_Add now (30 * 24 * hour))) s1 = (Inr x, s2)" for userID sessionToken s0 s1 s2 x
  proof -
    from NewToken_ok [OF that(1)] obtain buf where "length buf = 32" "sessionToken = RawURLEncode buf"
      by blast
    with create_session_given [of userID buf now s1 x s2 a] that w(1) show ?thesis
      unfolding reaches_def by simp
  qed
  have "reaches not_redirected (session_given a now) (handleGitHubCallback a now r) s"
    unfolding handleGitHubCallback_def c option.case Let_def if_not_P [OF q1] q2 not_not simp_thms if_False encrypt_refresh_def
    by (rule reaches_after_out)
      (intro reaches_case_prod login_step [where w = ?w] w(2) untouched_rules preserve_rules; (erule (2) given)?; simp add: status_codes)
  with assms(1) show ?thesis by (simp add: reaches_def)
qed

lemma last_cookie_read:
  assumes "hr_Cookies r = fold browser_accepts (cs @ [c]) jar" "ck_Name c = SessionCookieName" "0 \<le> ck_MaxAge c" "ck_Value c \<noteq> []"
  shows "ReadSessionToken r = Some (ck_Value c)"
  using browser_has_cookie [OF assms(3), of "fold browser_accepts cs jar"] assms
  by (simp add: ReadSessionToken_def request_Cookie_def)

lemma given_session_user:
  assumes "session_given a now t"
    and "hr_Cookies r = fold browser_accepts (wr_cookies (wb_out t)) jar"
  shows "\<exists>token user. ReadSessionToken r = Some token \<and> usr_ID user \<in> us_id ` set (db_users (tables_of t)) \<and>
    (\<forall>later. session_user later token (tables_of t) = (if later < time_Add now (30 * 24 * hour) then Some user else None))"
proof -
  from assms(1) obtain buf cs uid where b: "length buf = 32"
    and cs: "wr_cookies (wb_out t) = cs @ [session_cookie a now (RawURLEncode buf)]"
    and f: "filter (\<lambda>x. se_token x = RawURLEncode buf) (db_sessions (tables_of t)) =
          [\<lparr>se_token = RawURLEncode buf, se_user_id = uid, se_expires_at = time_Add now (30 * 24 * hour)\<rparr>]"
    and u: "has_key us_id uid (db_users (tables_of t))"
    unfolding session_given_def by blast
  have "RawURLEncode buf \<noteq> []"
    using b length_RawURLEncode [of buf] by auto
  with assms(2) cs have r: "ReadSessionToken r = Some (RawURLEncode buf)"
    using last_cookie_read [of r cs "session_cookie a now (RawURLEncode buf)" jar] by (simp add: session_cookie_def)
  from u obtain row where row: "lookup_by us_id uid (db_users (tables_of t)) = Some row"
    by (cases "lookup_by us_id uid (db_users (tables_of t))") (simp_all add: lookup_by_None)
  have "find (\<lambda>x. se_token x = RawURLEncode buf \<and> later < se_expires_at x) (db_sessions (tables_of t)) =
      find (\<lambda>x. se_token x = RawURLEncode buf \<and> later < se_expires_at x)
        (filter (\<lambda>x. se_token x = RawURLEncode buf) (db_sessions (tables_of t)))" for later
    by (rule find_filter [symmetric]) simp
  then have "session_user later (RawURLEncode buf) (tables_of t) =
      (if later < time_Add now (30 * 24 * hour) then Some (user_view (tables_of t) row) else None)" for later
    by (simp add: session_user_def f row)
  with r lookup_by_Some [OF row] show ?thesis
    by (intro exI [of _ "RawURLEncode buf"] exI [of _ "user_view (tables_of t) row"]) (auto simp: user_view_def)
qed

section \<open>An example\<close>

definition login_server :: "(unit, unit) server" where
  "login_server = demo_server\<lparr>sv_lib := demo_libraries\<lparr>lb_github_json := demo_json\<lparr>js_token :=
     (\<lambda>_. Inr \<lparr>tr_AccessToken = ''ghu'', tr_RefreshToken = [], tr_ExpiresIn = 0, tr_RefreshTokenExpiresIn = 0\<rparr>)\<rparr>\<rparr>\<rparr>"

definition login_request :: http_request where
  "login_request = demo_http\<lparr>hr_Method := ''GET'', hr_Segments := [''auth'', ''github'', ''callback''],
     hr_Query := (\<lambda>k. if k = ''state'' then ''st'' else if k = ''code'' then ''c'' else []),
     hr_Cookies := [(OAuthStateCookieName, ''st'')]\<rparr>"

definition login_web :: web where
  "login_web = (demo_web empty_db)\<lparr>wb_world := \<lparr>wd_db = healthy empty_db,
     wd_gh = \<lparr>gs_net = \<lparr>nt_sent = [], nt_answers = [Answer demo_answer]\<rparr>, gs_tokens = []\<rparr>\<rparr>\<rparr>"

lemma demo_login:
  "map (length \<circ> se_token) (db_sessions (tables_of (Routes login_server (Instant 60) ''u'' login_request login_web))) = [43]"
  "status_of (handleGitHubCallback login_server (Instant 60) login_request login_web) = 303"
  by code_simp+

section \<open>Properties\<close>

text \<open>
  C8: Whatever request arrives, whatever fails, the sessions change in two ways only. Either a
  login: the request is to the callback, it has a code and a state, the state is the one of the
  request's state cookie, GitHub named the identity of an access token, and exactly one session is
  added, with a random token, for the user of that identity, for thirty days. Or a logout: the
  session of the request's cookie is removed, and no other.
\<close>

theorem sessions_changed_by_login_or_logout:
  assumes "db_sessions (tables_of (Routes a now uuid r s)) \<noteq> db_sessions (tables_of s)"
  shows "hr_Segments r = [''auth'', ''github'', ''callback''] \<and>
      login_by_request a now r (tables_of s) (tables_of (Routes a now uuid r s)) \<or>
    hr_Method r = ''POST'' \<and> hr_Segments r = [''auth'', ''logout''] \<and>
      logout_by_request r (tables_of s) (tables_of (Routes a now uuid r s))"
  using assms by (rule Routes_sessions)

theorem sessions_changed_by_login_or_logout_witness:
  "login_by_request login_server (Instant 60) login_request empty_db
     (tables_of (Routes login_server (Instant 60) ''u'' login_request login_web))"
proof -
  have before: "tables_of login_web = empty_db"
    by (simp add: login_web_def healthy_def)
  with demo_login(1) have "db_sessions (tables_of (Routes login_server (Instant 60) ''u'' login_request login_web)) \<noteq>
      db_sessions (tables_of login_web)"
    by (auto simp: empty_db_def)
  from sessions_changed_by_login_or_logout [OF this] show ?thesis
    by (auto simp: before login_request_def)
qed

text \<open>
  C13: Login round trip: when the callback has answered with its redirect, the cookies that a
  browser then holds, whatever it held before, carry the token of a session of one stored user:
  requests with them are this user's for thirty days, and nobody's from then on.
\<close>

theorem login_recognised:
  assumes "status_of (handleGitHubCallback a now r s) = 303" "fresh_writer s"
    and "hr_Cookies r' = fold browser_accepts (wr_cookies (wb_out (handleGitHubCallback a now r s))) jar"
  shows "\<exists>token user. ReadSessionToken r' = Some token \<and>
    usr_ID user \<in> us_id ` set (db_users (tables_of (handleGitHubCallback a now r s))) \<and>
    (\<forall>later. session_user later token (tables_of (handleGitHubCallback a now r s)) =
       (if later < time_Add now (30 * 24 * hour) then Some user else None))"
  using callback_session_given [OF assms(1,2)] assms(3) by (rule given_session_user)

theorem login_recognised_witness:
  "\<exists>token user. ReadSessionToken (demo_http\<lparr>hr_Cookies := fold browser_accepts
        (wr_cookies (wb_out (handleGitHubCallback login_server (Instant 60) login_request login_web))) []\<rparr>) = Some token \<and>
     session_user (Instant 70) token (tables_of (handleGitHubCallback login_server (Instant 60) login_request login_web)) = Some user"
proof -
  let ?r = "demo_http\<lparr>hr_Cookies := fold browser_accepts
        (wr_cookies (wb_out (handleGitHubCallback login_server (Instant 60) login_request login_web))) []\<rparr>"
  have fresh: "fresh_writer login_web"
    and time: "Instant 70 < time_Add (Instant 60) (30 * 24 * hour)"
    by code_simp+
  have "hr_Cookies ?r = fold browser_accepts
      (wr_cookies (wb_out (handleGitHubCallback login_server (Instant 60) login_request login_web))) []"
    by simp
  from login_recognised [OF demo_login(2) fresh this] time show ?thesis
    by metis
qed

end
