(* ===== verification/Worker_Frames.thy ===== *)
theory Worker_Frames
  imports Web_Frames
begin

text \<open>
  What a pass of the workers keeps: a predicate of the tables that each of their statements keeps
  holds after \<open>RunAll\<close>, whatever fails on the way. A predicate that only looks at tables which the
  workers never write meets the contract at once, and so does a predicate of every single run that the
  enrichment marks do not break.
\<close>

section \<open>The contract\<close>

locale worker_invariant =
  fixes I :: "db \<Rightarrow> bool"
  assumes installations: "I d \<Longrightarrow> I (d\<lparr>db_installations := is\<rparr>)"
    and installation_repos: "I d \<Longrightarrow> I (d\<lparr>db_inst_repos := irs\<rparr>)"
    and repos: "I d \<Longrightarrow> I (d\<lparr>db_repos := upsert_by rp_repo_id (\<lambda>old new. new) rp (db_repos d)\<rparr>)"
    and revoked: "I d \<Longrightarrow> I (d\<lparr>db_bindings := update_where (\<lambda>b. live b \<and> uncovered d (bi_repo_id b))
          (\<lambda>b. b\<lparr>bi_revoked_at := Some t\<rparr>) (db_bindings d)\<rparr>)"
    and purged: "I d \<Longrightarrow> I (d\<lparr>db_runs := delete_where (unretained d cutoff) (db_runs d)\<rparr>)"
    and unavailable: "I d \<Longrightarrow> I (d\<lparr>db_runs := update_where rc mark_unavailable (db_runs d)\<rparr>)"
    and ambiguous: "I d \<Longrightarrow> I (d\<lparr>db_runs := update_where rc mark_ambiguous (db_runs d)\<rparr>)"
    and matched: "I d \<Longrightarrow> I (d\<lparr>db_runs := update_where rc (mark_matched j n cc st en) (db_runs d)\<rparr>)"
begin

lemma worker_statements:
  "preserves (\<lambda>s. I (tables s)) (exec (upsert_installation_stmt now i acc ttype tlogin sel del))"
  "preserves (\<lambda>s. I (tables s)) (exec (mark_all_deleted_stmt now))"
  "preserves (\<lambda>s. I (tables s)) (exec (mark_missing_deleted_stmt now keep))"
  "preserves (\<lambda>s. I (tables s)) (exec (upsert_repo_stmt now rep vis src))"
  "preserves (\<lambda>s. I (tables s)) (exec (upsert_coverage_stmt now rid inst))"
  "preserves (\<lambda>s. I (tables s)) (exec (revoke_uncovered_stmt now))"
  "preserves (\<lambda>s. I (tables s)) (exec (purge_stmt now secs))"
  "preserves (\<lambda>s. I (tables s)) (exec (update_run_stmt rid mark_unavailable))"
  "preserves (\<lambda>s. I (tables s)) (exec (update_run_stmt rid mark_ambiguous))"
  "preserves (\<lambda>s. I (tables s)) (exec (update_run_stmt rid (mark_matched j n cc st en)))"
  "preserves (\<lambda>x. I (work x)) (tx_exec (clear_inst_repos_stmt i))"
  "preserves (\<lambda>x. I (work x)) (tx_exec (insert_inst_repo_stmt now i rid))"
  by (rule exec_writes tx_exec_writes; auto simp: upsert_installation_stmt_def mark_all_deleted_stmt_def
      mark_missing_deleted_stmt_def upsert_repo_stmt_def upsert_coverage_refused revoke_uncovered_stmt_def purge_stmt_def
      update_run_stmt_def clear_inst_repos_stmt_def insert_inst_repo_stmt_def Let_def
      intro: installations installation_repos repos revoked purged unavailable ambiguous matched split: if_splits)+

lemma worker_reads:
  "preserves (\<lambda>s. I (tables s)) (GetAnyInstallationIDForRepo rid)"
  "preserves (\<lambda>s. I (tables s)) ListReposForSync"
  "preserves (\<lambda>s. I (tables s)) ListRepoCoverageCandidates"
  "preserves (\<lambda>s. I (tables s)) (ListRunsForEnrichmentGroup x y z)"
  "preserves (\<lambda>s. I (tables s)) (ListPendingEnrichmentGroups m)"
  unfolding GetAnyInstallationIDForRepo_def ListReposForSync_def ListRepoCoverageCandidates_def
    ListRunsForEnrichmentGroup_def ListPendingEnrichmentGroups_def
  by (intro preserve_rules)+

lemma worker_operations:
  "preserves (\<lambda>s. I (tables s)) (UpsertInstallationFromPull now i acc ttype tlogin sel del)"
  "preserves (\<lambda>s. I (tables s)) (MarkInstallationsMissingFromPullDeleted now keep)"
  "preserves (\<lambda>s. I (tables s)) (ReplaceInstallationRepos now i rids)"
  "preserves (\<lambda>s. I (tables s)) (UpsertRepo now repo)"
  "preserves (\<lambda>s. I (tables s)) (UpsertRepoCoverage now rid inst)"
  "preserves (\<lambda>s. I (tables s)) (RevokeUncoveredProjectBindings now)"
  "preserves (\<lambda>s. I (tables s)) (PurgeUnretainedRuns now age)"
  "preserves (\<lambda>s. I (tables s)) (MarkRunEnrichmentUnavailable rid)"
  "preserves (\<lambda>s. I (tables s)) (MarkRunEnrichmentAmbiguous rid)"
  "preserves (\<lambda>s. I (tables s)) (MarkRunEnrichmentMatched rid job nm concl st en)"
  unfolding UpsertInstallationFromPull_def MarkInstallationsMissingFromPullDeleted_def ReplaceInstallationRepos_def
    UpsertRepo_def UpsertRepoCoverage_def RevokeUncoveredProjectBindings_def PurgeUnretainedRuns_def
    MarkRunEnrichmentUnavailable_def MarkRunEnrichmentAmbiguous_def MarkRunEnrichmentMatched_def Let_def
  by (intro preserve_rules worker_statements)+

lemma kept_by_installation: "preserves (\<lambda>w. I (tables (wd_db w))) (sync_installation r now inst)"
  unfolding sync_installation_def by (intro preserve_rules worker_operations)

lemma kept_by_workers: "preserves (\<lambda>w. I (tables (wd_db w))) (RunAll r now)"
  unfolding RunAll_def runCoverageSync_def runVisibilitySync_def runBindingRevalidation_def runRetentionPurge_def
    runJobEnrichment_def enrich_group_def mark_all_unavailable_def check_coverage_def sync_installation_def
    sync_visibility_of_def
  by (intro preserve_rules worker_operations worker_reads)

end

section \<open>Predicates of the single runs\<close>

locale run_rows =
  fixes P :: "runs_row \<Rightarrow> bool"
  assumes row_unavailable: "P r \<Longrightarrow> P (mark_unavailable r)"
    and row_ambiguous: "P r \<Longrightarrow> P (mark_ambiguous r)"
    and row_matched: "P r \<Longrightarrow> P (mark_matched j n c st en r)"

sublocale run_rows \<subseteq> rows: worker_invariant "\<lambda>d. list_all P (db_runs d)"
  by unfold_locales (simp_all add: list_all_update_where list_all_delete_where row_unavailable row_ambiguous row_matched)

section \<open>What the failing coverage statement means for a pass\<close>

text \<open>Without coverage rows nothing is revoked and nothing is purged.\<close>

interpretation nothing_uncovered: worker_invariant
  "\<lambda>d. db_coverage d = [] \<and> db_bindings d = bindings \<and> map rr_id (db_runs d) = ids" for bindings ids
  by unfold_locales
     (auto simp: uncovered_def unretained_def update_where_def delete_where_def mark_unavailable_def mark_ambiguous_def mark_matched_def)

lemma RunAll_without_coverage:
  assumes "db_coverage (tables (wd_db w)) = []"
  shows "db_coverage (tables (wd_db (snd (RunAll r now w)))) = [] \<and>
    db_bindings (tables (wd_db (snd (RunAll r now w)))) = db_bindings (tables (wd_db w)) \<and>
    map rr_id (db_runs (tables (wd_db (snd (RunAll r now w))))) = map rr_id (db_runs (tables (wd_db w)))"
  using preservesD [OF nothing_uncovered.kept_by_workers [where r = r and now = now], of w] assms by simp

interpretation some_repository: worker_invariant "\<lambda>d. db_repos d \<noteq> []"
  by unfold_locales simp_all

lemma check_coverage_fails: "fst (check_coverage now repoID w) \<noteq> Inr ()"
proof
  assume "fst (check_coverage now repoID w) = Inr ()"
  then obtain w' where "check_coverage now repoID w = (Inr (), w')"
    by (cases "check_coverage now repoID w") simp
  then obtain i v where "on_db (UpsertRepoCoverage now repoID i) v = (Inr (), w')"
    by (auto simp: check_coverage_def bind_op_ok)
  then have "fst (UpsertRepoCoverage now repoID i (wd_db v)) = Inr ()"
    by (auto simp: on_db_def split: prod.splits)
  then show False
    by (auto simp: UpsertRepoCoverage_def fst_wrap_err_Inr dest!: exec_fst_ok) (simp add: upsert_coverage_refused)
qed

lemma coverage_sync_fails:
  assumes "db_repos (tables (wd_db w)) \<noteq> []"
    and "fst (ListAppInstallations (wk_json r) (wk_signer r) (wk_client r) now [] (gs_net (wd_gh w))) = Inr (items, etag, False)"
  shows "fst (runCoverageSync r now w) \<noteq> Inr ()"
proof
  let ?q = "\<lambda>w. db_repos (tables (wd_db w)) \<noteq> []"
  assume "fst (runCoverageSync r now w) = Inr ()"
  then obtain w' where "runCoverageSync r now w = (Inr (), w')"
    by (cases "runCoverageSync r now w") simp
  moreover obtain w1 where w1: "on_gh (on_net (ListAppInstallations (wk_json r) (wk_signer r) (wk_client r) now [])) w = (Inr (items, etag, False), w1)"
    using assms(2)
    by (cases "ListAppInstallations (wk_json r) (wk_signer r) (wk_client r) now [] (gs_net (wd_gh w))")
       (simp add: on_gh_def on_net_def)
  ultimately obtain w2 w3 w4 ids where steps:
    "for_each (sync_installation r now) items w1 = (Inr (), w2)"
    "on_db (MarkInstallationsMissingFromPullDeleted now (map il_ID items)) w2 = (Inr (), w3)"
    "on_db ListRepoCoverageCandidates w3 = (Inr ids, w4)"
    "for_each (check_coverage now) ids w4 = (Inr (), w')"
    unfolding runCoverageSync_def by (simp add: bind_op_ok) blast
  from w1 assms(1) have "?q w1"
    by (auto simp: on_gh_def split: prod.splits)
  then have "?q w2"
    by (rule preservesE [OF preserves_for_each [OF some_repository.kept_by_installation] _ steps(1)])
  then have "?q w3"
    by (rule preservesE [OF preserves_on_db [OF some_repository.worker_operations(2)] _ steps(2)])
  with steps(3) have "ids \<noteq> []"
    by (auto simp: on_db_def ListRepoCoverageCandidates_def wrap_err_ok split: prod.splits dest!: query_ok)
  with steps(4) show False
    using check_coverage_fails [of now "hd ids" w4] by (cases ids) (auto split: prod.splits sum.splits)
qed

text \<open>
  C28: A pass of the workers ends at its first part: when the store knows a repository and GitHub
  lists the app's installations (its answer is not a 304), \<open>RunAll\<close> fails in the coverage
  synchronisation and leaves everything as that part left it: no visibility is refreshed, no
  binding revalidated, no run purged or enriched.
\<close>

theorem RunAll_stops_at_coverage:
  assumes "db_repos (tables (wd_db w)) \<noteq> []"
    and "fst (ListAppInstallations (wk_json r) (wk_signer r) (wk_client r) now [] (gs_net (wd_gh w))) = Inr (items, etag, False)"
  shows "\<exists>err. RunAll r now w = (Inl (Wrap ''coverage sync'' err), snd (runCoverageSync r now w))"
  using coverage_sync_fails [OF assms]
  by (cases "runCoverageSync r now w"; cases "fst (runCoverageSync r now w)")
     (auto simp: RunAll_def bind_op_def wrap_err_def)

definition demo_worker :: "unit worker" where
  "demo_worker = \<lparr>wk_json = demo_json, wk_signer = (\<lambda>_ _ _ _. Inr ''jwt''), wk_client = demo_client,
     wk_RetentionWindow = 0, wk_EnrichmentBatch = 0\<rparr>"

definition demo_world :: world where
  "demo_world = \<lparr>wd_db = healthy demo_db,
     wd_gh = \<lparr>gs_net = \<lparr>nt_sent = [], nt_answers = [Answer demo_answer]\<rparr>, gs_tokens = []\<rparr>\<rparr>"

theorem RunAll_stops_at_coverage_witness:
  "\<exists>err. fst (RunAll demo_worker (Instant 9) demo_world) = Inl (Wrap ''coverage sync'' err)"
proof -
  have "fst (ListAppInstallations (wk_json demo_worker) (wk_signer demo_worker) (wk_client demo_worker) (Instant 9) []
      (gs_net (wd_gh demo_world))) = Inr ([], [], False)"
    by (simp add: ListAppInstallations_def list_pages_etag.simps getJSONWithETag_def http_Do_def demo_world_def
        demo_worker_def demo_json_def demo_answer_def)
  moreover have "db_repos (tables (wd_db demo_world)) \<noteq> []"
    by (simp add: demo_world_def demo_db_def)
  ultimately show ?thesis
    using RunAll_stops_at_coverage by (metis fst_conv)
qed

end
