(* ===== verification/Access_Listing.thy ===== *)
theory Access_Listing
  imports Access_Properties
begin

text \<open>
  What the list of repositories that a user may bind consists of. The reference is a pure function of
  the network: with the user's own token, list the installations, then the repositories of each, in
  order. A synchronisation either leaves the stored list alone or replaces the rows of this user by
  exactly that listing; and through any request the lists change in no other way.
\<close>

section \<open>What GitHub lists for a user\<close>

text \<open>The user's token: the stored one, or a new one for the stored refresh token when it has expired.\<close>

definition user_token :: "github_json \<Rightarrow> 'sk client \<Rightarrow> instant \<Rightarrow> tokens_row \<Rightarrow> net \<Rightarrow> string result \<times> net" where
  "user_token js c now t =
     bind_op (\<lambda>n. (DecryptToken c (tk_access_enc t), n)) (\<lambda>stored.
     if \<not> token_expired now (tk_access_expires_at t) then ret stored
     else (case tk_refresh_enc t of
             None \<Rightarrow> fail (NewError ''expired'')
           | Some enc \<Rightarrow>
               bind_op (\<lambda>n. (DecryptToken c enc, n)) (\<lambda>refresh.
               bind_op (RefreshUserToken js c now refresh) (\<lambda>tokens. ret (ut_AccessToken tokens)))))"

fun installation_rows ::
  "github_json \<Rightarrow> string \<Rightarrow> installationLite list \<Rightarrow> net \<Rightarrow> userRepoAccessRow list result \<times> net" where
  "installation_rows js token [] = ret []"
| "installation_rows js token (inst # insts) =
     bind_op (ListUserInstallationRepositories js token (il_ID inst)) (\<lambda>repos.
     bind_op (installation_rows js token insts) (\<lambda>rows.
     ret (map (\<lambda>repo. \<lparr>ura_RepoID = rl_RepoID repo, ura_InstallationID = il_ID inst\<rparr>) repos @ rows)))"

definition github_listing ::
  "github_json \<Rightarrow> 'sk client \<Rightarrow> instant \<Rightarrow> tokens_row \<Rightarrow> net \<Rightarrow> userRepoAccessRow list result \<times> net" where
  "github_listing js c now t =
     bind_op (user_token js c now t) (\<lambda>token.
     bind_op (ListUserInstallations js token) (\<lambda>(insts, _).
     installation_rows js token insts))"

text \<open>GitHub, asked now with the stored token of the user, lists these rows.\<close>

definition listed_by_github :: "('sk, 'pk) server \<Rightarrow> instant \<Rightarrow> int64 \<Rightarrow> db \<Rightarrow> net \<Rightarrow> userRepoAccessRow list \<Rightarrow> bool" where
  "listed_by_github a now userID d n rows \<longleftrightarrow>
     (\<exists>c t. sv_githubAppClient a = Some c \<and> lookup_by tk_user_id userID (db_tokens d) = Some t \<and>
        fst (github_listing (lb_github_json (sv_lib a)) c now t n) = Inr rows)"

text \<open>The rows of one user replaced, those of every other user kept.\<close>

definition list_replaced :: "int64 \<Rightarrow> userRepoAccessRow list \<Rightarrow> db \<Rightarrow> db \<Rightarrow> bool" where
  "list_replaced userID rows d d' \<longleftrightarrow>
     db_access d' = filter (\<lambda>r. ac_user_id r \<noteq> userID) (db_access d) @ access_rows userID rows"

section \<open>A synchronisation takes that list\<close>

lemma bind_op_assoc: "bind_op (bind_op m f) g = bind_op m (\<lambda>x. bind_op (f x) g)"
  by (auto simp: bind_op_def fun_eq_iff split: prod.split sum.split)

lemma on_network_ok:
  "on_network m s = (r, s') \<Longrightarrow> m (net_of s) = (r, net_of s') \<and> tables_of s' = tables_of s"
  by (auto simp: on_network_def on_world_def on_gh_def on_net_def split: prod.splits)

lemma upsert_listed_ok:
  "upsert_listed now i repos rows s = (Inr rows', s') \<Longrightarrow>
   rows' = rows @ map (\<lambda>repo. \<lparr>ura_RepoID = rl_RepoID repo, ura_InstallationID = i\<rparr>) repos \<and> net_of s' = net_of s"
proof (induction repos arbitrary: rows s)
  case (Cons repo repos)
  then obtain s1 where "on_store (UpsertRepo now (repo_of_lite repo)) s = (Inr (), s1)"
    "upsert_listed now i repos (rows @ [\<lparr>ura_RepoID = rl_RepoID repo, ura_InstallationID = i\<rparr>]) s1 = (Inr rows', s')"
    by (auto simp: bind_op_ok)
  with Cons.IH [OF this(2)] on_store_net [OF this(1)] show ?case by simp
qed (simp add: ret_def)

lemma listed_access_rows_ok:
  "listed_access_rows a now token insts rows s = (Inr rows', s') \<Longrightarrow>
   \<exists>more. installation_rows (lb_github_json (sv_lib a)) token insts (net_of s) = (Inr more, net_of s') \<and> rows' = rows @ more"
proof (induction insts arbitrary: rows s)
  case (Cons inst insts)
  then obtain repos s1 rows1 s2 where
    s1: "on_network (ListUserInstallationRepositories (lb_github_json (sv_lib a)) token (il_ID inst)) s = (Inr repos, s1)" and
    s2: "upsert_listed now (il_ID inst) repos rows s1 = (Inr rows1, s2)" and
    rest: "listed_access_rows a now token insts rows1 s2 = (Inr rows', s')"
    by (auto simp: bind_op_ok)
  from Cons.IH [OF rest] obtain more where
    "installation_rows (lb_github_json (sv_lib a)) token insts (net_of s2) = (Inr more, net_of s')" "rows' = rows1 @ more"
    by blast
  with on_network_ok [OF s1] upsert_listed_ok [OF s2] show ?case
    by (simp add: bind_op_def ret_def)
qed (simp add: ret_def)

lemma encrypt_fresh_net: "encrypt_fresh c token s = (r, s') \<Longrightarrow> net_of s' = net_of s"
  by (auto simp: encrypt_fresh_def rand_Read_def split: prod.splits list.splits)

lemma refresh_access_ok:
  assumes "refresh_access a c now userID refreshEnc s = (Inr token, s')"
  shows "\<exists>enc refresh tokens. refreshEnc = Some enc \<and> DecryptToken c enc = Inr refresh \<and>
    RefreshUserToken (lb_github_json (sv_lib a)) c now refresh (net_of s) = (Inr tokens, net_of s') \<and>
    token = ut_AccessToken tokens"
  using assms
  by (auto simp: refresh_access_def bind_op_ok Let_def lift_result_def ret_def fail_def split: if_splits option.splits
      dest!: on_network_ok encrypt_fresh_net on_store_net)

text \<open>The synchronisation up to the replacement of the list.\<close>

definition sync_rows :: "('sk, 'pk) server \<Rightarrow> 'sk client \<Rightarrow> instant \<Rightarrow> int64 \<Rightarrow> userRepoAccessRow list webop" where
  "sync_rows a c now userID =
     bind_op (on_store (GetUserGitHubTokens userID)) (\<lambda>(accessEnc, accessExp, refreshEnc, _).
     bind_op (lift_result (DecryptToken c accessEnc)) (\<lambda>storedToken.
     bind_op (if token_expired now accessExp then refresh_access a c now userID refreshEnc
              else ret storedToken) (\<lambda>accessToken.
     bind_op (on_network (ListUserInstallations (lb_github_json (sv_lib a)) accessToken)) (\<lambda>(installations, _).
     listed_access_rows a now accessToken installations []))))"

lemma sync_is_rows: "syncUserRepoAccess a c now userID =
    bind_op (sync_rows a c now userID) (\<lambda>rows. on_store (ReplaceUserRepoAccess userID rows))"
  by (simp add: syncUserRepoAccess_def sync_rows_def bind_op_assoc case_prod_unfold)

lemma sync_rows_keeps: "preserves (\<lambda>s. db_access (tables_of s) = rows) (sync_rows a c now userID)"
  unfolding sync_rows_def refresh_access_def GetUserGitHubTokens_def Let_def
  by (intro preserve_rules preserves_access_rows [where I = "\<lambda>d. db_access d = rows"]
      UpsertRepo_writes [where I = "\<lambda>d. db_access d = rows"]
      UpsertUserGitHubTokens_writes [where I = "\<lambda>d. db_access d = rows"]) simp_all

lemma stored_tokens_ok:
  assumes "on_store (GetUserGitHubTokens userID) s = (Inr (accessEnc, accessExp, refreshEnc, refreshExp), s')"
  shows "\<exists>t. lookup_by tk_user_id userID (db_tokens (tables_of s)) = Some t \<and> tk_access_enc t = accessEnc \<and>
    tk_access_expires_at t = accessExp \<and> tk_refresh_enc t = refreshEnc"
  using on_store_store [OF assms] by (auto simp: GetUserGitHubTokens_def or_not_found_ok dest!: query_row_ok)

lemma sync_rows_listed:
  assumes "sync_rows a c now userID s = (Inr rows, s')" "sv_githubAppClient a = Some c"
  shows "listed_by_github a now userID (tables_of s) (net_of s) rows"
proof -
  from assms obtain accessEnc accessExp refreshEnc refreshExp s1 stored token s2 insts etag s3 where
    s1: "on_store (GetUserGitHubTokens userID) s = (Inr (accessEnc, accessExp, refreshEnc, refreshExp), s1)" and
    stored: "DecryptToken c accessEnc = Inr stored" and
    s2: "(if token_expired now accessExp then refresh_access a c now userID refreshEnc else ret stored) s1 = (Inr token, s2)" and
    s3: "on_network (ListUserInstallations (lb_github_json (sv_lib a)) token) s2 = (Inr (insts, etag), s3)" and
    rest: "listed_access_rows a now token insts [] s3 = (Inr rows, s')"
    by (auto simp: sync_rows_def bind_op_ok lift_result_def)
  from stored_tokens_ok [OF s1] obtain t where t: "lookup_by tk_user_id userID (db_tokens (tables_of s)) = Some t"
    "tk_access_enc t = accessEnc" "tk_access_expires_at t = accessExp" "tk_refresh_enc t = refreshEnc"
    by blast
  have "user_token (lb_github_json (sv_lib a)) c now t (net_of s1) = (Inr token, net_of s2)"
    using s2 stored t refresh_access_ok [of a c now userID refreshEnc s1 token s2]
    by (auto simp: user_token_def bind_op_def ret_def split: if_splits)
  moreover from listed_access_rows_ok [OF rest]
  have "installation_rows (lb_github_json (sv_lib a)) token insts (net_of s3) = (Inr rows, net_of s')"
    by simp
  ultimately have "github_listing (lb_github_json (sv_lib a)) c now t (net_of s) = (Inr rows, net_of s')"
    using on_network_ok [OF s3] on_store_net [OF s1] by (simp add: github_listing_def bind_op_def)
  with t assms(2) show ?thesis
    by (auto simp: listed_by_github_def)
qed

lemma sync_replaces:
  assumes "syncUserRepoAccess a c now userID s = (res, s')" "sv_githubAppClient a = Some c"
  shows "\<not> is_ok res \<and> db_access (tables_of s') = db_access (tables_of s) \<or>
    (\<exists>rows. listed_by_github a now userID (tables_of s) (net_of s) rows \<and>
       list_replaced userID rows (tables_of s) (tables_of s'))"
proof -
  obtain r s1 where s1: "sync_rows a c now userID s = (r, s1)"
    by (cases "sync_rows a c now userID s")
  have same: "db_access (tables_of s1) = db_access (tables_of s)"
    by (rule preservesE [OF sync_rows_keeps refl s1])
  show ?thesis
  proof (cases r)
    case (Inl e)
    with assms(1) s1 same show ?thesis
      by (auto simp: sync_is_rows bind_op_def)
  next
    case (Inr rows)
    with assms(1) s1 have s': "on_store (ReplaceUserRepoAccess userID rows) s1 = (res, s')"
      by (simp add: sync_is_rows bind_op_def)
    let ?new = "(tables_of s1)\<lparr>db_access := filter (\<lambda>r. ac_user_id r \<noteq> userID) (db_access (tables_of s1)) @ access_rows userID rows\<rparr>"
    have "tables_of s' = tables_of s1 \<or> tables_of s' = ?new" "is_ok res \<Longrightarrow> tables_of s' = ?new"
      using ReplaceUserRepoAccess_atomic [of "wd_db (wb_world s1)" userID rows] on_store_store [OF s']
      by (simp_all add: Let_def)
    moreover have "list_replaced userID rows (tables_of s1) ?new"
      by (simp add: list_replaced_def)
    ultimately have "tables_of s' = tables_of s1 \<and> \<not> is_ok res \<or> list_replaced userID rows (tables_of s1) (tables_of s')"
      by metis
    with same sync_rows_listed [OF s1 [unfolded Inr] assms(2)] show ?thesis
      by (auto simp: list_replaced_def)
  qed
qed

section \<open>The list that a request relies on\<close>

lemma load_sync_net: "load_sync userID s = (r, s') \<Longrightarrow> net_of s' = net_of s \<and> tables_of s' = tables_of s"
proof -
  assume l: "load_sync userID s = (r, s')"
  obtain r1 s1 where s1: "on_store (GetUserAccessSync userID) s = (r1, s1)"
    by (cases "on_store (GetUserAccessSync userID) s")
  have "s' = s1"
    using l s1 by (auto simp: load_sync_def catch_op_def ret_def fail_def split: sum.splits if_splits)
  with on_store_net [OF s1] read_tables [OF reads_keep(9) s1] show ?thesis
    by simp
qed

lemma upsert_sync_access:
  "on_store (UpsertUserAccessSync userID synced attempted err etag) s = (r, s') \<Longrightarrow>
   db_access (tables_of s') = db_access (tables_of s)"
  by (rule preservesE [OF preserves_on_store [OF UpsertUserAccessSync_writes [where I = "\<lambda>d. db_access d = db_access (tables_of s)"]] refl])
    simp_all

text \<open>The stored list is as it was, or it is what GitHub lists now.\<close>

definition list_kept_or_listed :: "('sk, 'pk) server \<Rightarrow> instant \<Rightarrow> int64 \<Rightarrow> db \<Rightarrow> net \<Rightarrow> db \<Rightarrow> bool" where
  "list_kept_or_listed a now userID d n d' \<longleftrightarrow>
     db_access d' = db_access d \<or> (\<exists>rows. listed_by_github a now userID d n rows \<and> list_replaced userID rows d d')"

text \<open>Usable without a synchronisation: recent enough, and nothing was asked or changed.\<close>

definition list_cached :: "('sk, 'pk) server \<Rightarrow> instant \<Rightarrow> int64 \<Rightarrow> web \<Rightarrow> web \<Rightarrow> bool" where
  "list_cached a now userID s s' \<longleftrightarrow>
     tables_of s' = tables_of s \<and> net_of s' = net_of s \<and> access_synced (tables_of s) userID now (sv_accessCacheTTL a)"

text \<open>What the part under the lock does when the list is not recent: synchronise, then note the outcome.\<close>

lemma sync_locked_synchronises:
  assumes "sync_locked a c now userID s = (res, s')" "load_sync userID s = (Inr st, s1)"
    and "\<not> synced_within now (sv_accessCacheTTL a) st" "syncUserRepoAccess a c now userID s1 = (r2, s2)"
  shows "db_access (tables_of s') = db_access (tables_of s2) \<and> (res = Inr False \<longrightarrow> is_ok r2)"
proof (cases r2)
  case (Inl e)
  obtain r3 s3 where s3: "on_store (UpsertUserAccessSync userID (uas_SyncedAt st) now (Some (error_text e)) (uas_ETag st)) s2 = (r3, s3)"
    by (cases "on_store (UpsertUserAccessSync userID (uas_SyncedAt st) now (Some (error_text e)) (uas_ETag st)) s2")
  with assms Inl have "s' = s3" "res \<noteq> Inr False"
    by (cases r3; auto simp: sync_locked_def bind_op_def catch_op_def ret_def fail_def split: if_splits)+
  with upsert_sync_access [OF s3] show ?thesis by simp
next
  case (Inr x)
  obtain r3 s3 where s3: "on_store (UpsertUserAccessSync userID (Some now) now None None) s2 = (r3, s3)"
    by (cases "on_store (UpsertUserAccessSync userID (Some now) now None None) s2")
  with assms Inr have "s' = s3"
    by (cases r3) (auto simp: sync_locked_def bind_op_def catch_op_def ret_def)
  with upsert_sync_access [OF s3] Inr show ?thesis by simp
qed

lemma sync_locked_listing:
  assumes "sync_locked a c now userID s = (res, s')" "sv_githubAppClient a = Some c"
  shows "list_kept_or_listed a now userID (tables_of s) (net_of s) (tables_of s') \<and>
    (res = Inr False \<longrightarrow> list_cached a now userID s s' \<or>
       (\<exists>rows. listed_by_github a now userID (tables_of s) (net_of s) rows \<and>
          list_replaced userID rows (tables_of s) (tables_of s')))"
proof -
  obtain r1 s1 where s1: "load_sync userID s = (r1, s1)"
    by (cases "load_sync userID s")
  note same = load_sync_net [OF s1]
  show ?thesis
  proof (cases r1)
    case (Inl e)
    with assms(1) s1 same show ?thesis
      by (auto simp: sync_locked_def bind_op_def list_kept_or_listed_def)
  next
    case (Inr st)
    show ?thesis
    proof (cases "synced_within now (sv_accessCacheTTL a) st")
      case True
      with assms(1) s1 same Inr synced_within_load [OF s1 [unfolded Inr] True] show ?thesis
        by (auto simp: sync_locked_def bind_op_def ret_def list_kept_or_listed_def list_cached_def)
    next
      case False
      obtain r2 s2 where s2: "syncUserRepoAccess a c now userID s1 = (r2, s2)"
        by (cases "syncUserRepoAccess a c now userID s1")
      note after = sync_locked_synchronises [OF assms(1) s1 [unfolded Inr] False s2]
      have "list_replaced userID rows (tables_of s) (tables_of s') \<longleftrightarrow> list_replaced userID rows (tables_of s1) (tables_of s2)" for rows
        using same after by (simp add: list_replaced_def)
      with sync_replaces [OF s2 assms(2)] same after show ?thesis
        unfolding list_kept_or_listed_def by auto
    qed
  qed
qed

lemma ensure_listing:
  assumes "ensureUserRepoAccess a now userID s = (res, s')"
  shows "list_kept_or_listed a now userID (tables_of s) (net_of s) (tables_of s') \<and>
    (res = Inr False \<longrightarrow> list_cached a now userID s s' \<or>
       (\<exists>rows. listed_by_github a now userID (tables_of s) (net_of s) rows \<and>
          list_replaced userID rows (tables_of s) (tables_of s')))"
proof (cases "sv_githubAppClient a")
  case None
  with assms show ?thesis
    by (auto simp: ensureUserRepoAccess_def fail_def list_kept_or_listed_def)
next
  case (Some c)
  obtain r1 s1 where s1: "load_sync userID s = (r1, s1)"
    by (cases "load_sync userID s")
  note same = load_sync_net [OF s1]
  show ?thesis
  proof (cases r1)
    case (Inl e)
    with assms Some s1 same show ?thesis
      by (auto simp: ensureUserRepoAccess_def bind_op_def list_kept_or_listed_def)
  next
    case (Inr st)
    show ?thesis
    proof (cases "synced_within now (sv_accessCacheTTL a) st")
      case True
      with assms Some s1 same Inr synced_within_load [OF s1 [unfolded Inr] True] show ?thesis
        by (auto simp: ensureUserRepoAccess_def bind_op_def ret_def list_kept_or_listed_def list_cached_def)
    next
      case False
      with assms Some s1 Inr have "sync_locked a c now userID s1 = (res, s')"
        by (simp add: ensureUserRepoAccess_def bind_op_def)
      from sync_locked_listing [OF this Some] same show ?thesis
        by (simp add: list_cached_def)
    qed
  qed
qed

section \<open>Requests that change the lists\<close>

interpretation access_kept: page_invariant "\<lambda>d. db_access d = rows" for rows
  by unfold_locales (rule UpsertRepo_writes UpsertUserGitHubTokens_writes; simp)+

lemma other_operations_keep_access:
  "preserves (\<lambda>s. db_access (tables s) = rows) (UpsertUserFromGitHub now gid login avatar)"
  "preserves (\<lambda>s. db_access (tables s) = rows) (CreateSession uid token expires)"
  "preserves (\<lambda>s. db_access (tables s) = rows) (DeleteSession token)"
  "preserves (\<lambda>s. db_access (tables s) = rows) (CreateProject now uid name)"
  "preserves (\<lambda>s. db_access (tables s) = rows) (UpsertRun pt now uuid run)"
  "preserves (\<lambda>s. db_access (tables s) = rows) (BindRepoToProject now pid rid uid)"
  "preserves (\<lambda>s. db_access (tables s) = rows) (UnbindRepoFromProject now pid rid)"
  subgoal by (rule UpsertUserFromGitHub_writes [where I = "\<lambda>d. db_access d = rows"]) simp_all
  subgoal by (rule CreateSession_writes [where I = "\<lambda>d. db_access d = rows"]) simp_all
  subgoal by (rule DeleteSession_writes [where I = "\<lambda>d. db_access d = rows"]) simp_all
  subgoal by (rule CreateProject_writes [where I = "\<lambda>d. db_access d = rows"]) simp_all
  subgoal by (rule UpsertRun_writes [where I = "\<lambda>d. db_access d = rows"]) simp_all
  subgoal by (rule binding_writes(1) [where I = "\<lambda>d. db_access d = rows"]) simp_all
  subgoal by (rule binding_writes(2) [where I = "\<lambda>d. db_access d = rows"]) simp_all
  done

lemmas keeping_access = access_kept.kept_handleGitHubCallback access_kept.kept_handleLogout
  access_kept.kept_handleCreateProject access_kept.kept_handleUnbindRepo access_kept.kept_handleRunsIngest

text \<open>A handler that asks for the list and then leaves the table alone.\<close>

lemma after_ensure:
  assumes "\<And>rows. keeping (\<lambda>d. db_access d = rows) h" "\<And>stale rows. keeping (\<lambda>d. db_access d = rows) (k stale)"
    and "tables_of s1 = tables_of s" "net_of s1 = net_of s"
  shows "list_kept_or_listed a now userID (tables_of s) (net_of s)
    (tables_of (try_op (ensureUserRepoAccess a now userID) (\<lambda>_. h) k s1))"
proof -
  obtain res s2 where s2: "ensureUserRepoAccess a now userID s1 = (res, s2)"
    by (cases "ensureUserRepoAccess a now userID s1")
  have "db_access (tables_of (try_op (ensureUserRepoAccess a now userID) (\<lambda>_. h) k s1)) = db_access (tables_of s2)"
    using s2 keepsD [OF assms(1) refl, of s2] keepsD [OF assms(2) refl, of _ s2] by (cases res) (simp_all add: try_op_def)
  with ensure_listing [OF s2] assms(3,4) show ?thesis
    by (auto simp: list_kept_or_listed_def list_replaced_def)
qed

lemma with_user_Some: "with_user a (Some user) k = k user"
  by (simp add: with_user_def userFromRequest_def try_op_def ret_def fun_eq_iff)

lemma listing_handlers:
  "reaches (\<lambda>t. db_access (tables_of t) = db_access (tables_of s))
     (\<lambda>t. list_kept_or_listed a now (usr_ID user) (tables_of s) (net_of s) (tables_of t))
     (handleConnectReposPage a now (Some user) r) s"
  "reaches (\<lambda>t. db_access (tables_of t) = db_access (tables_of s))
     (\<lambda>t. list_kept_or_listed a now (usr_ID user) (tables_of s) (net_of s) (tables_of t))
     (handleBindRepo a now (Some user) r) s"
proof -
  let ?I = "\<lambda>d. db_access d = db_access (tables_of s)"
    and ?Q = "\<lambda>t. list_kept_or_listed a now (usr_ID user) (tables_of s) (net_of s) (tables_of t)"
  have asks: "reaches (\<lambda>t. ?I (tables_of t)) ?Q (try_op (ensureUserRepoAccess a now (usr_ID user)) (\<lambda>_. h) k) s1"
    if "\<And>rows. keeping (\<lambda>d. db_access d = rows) h" "\<And>stale rows. keeping (\<lambda>d. db_access d = rows) (k stale)"
      "tables_of s1 = tables_of s" "net_of s1 = net_of s" for h k s1
    unfolding reaches_def by (rule disjI2) (rule after_ensure [where k = k, OF that])
  have rest: "keeping (\<lambda>d. db_access d = rows)
      (try_op (on_store (UserCanAccessRepoForBinding (usr_ID user) repoID))
         (\<lambda>_. renderError a StatusInternalServerError ''failed to verify repo access'') (\<lambda>canBind.
       if \<not> canBind then renderError a StatusForbidden ''you do not have github access to this repository''
       else try_op (on_store (BindRepoToProject now pid repoID (usr_ID user)))
         (\<lambda>_. renderError a StatusInternalServerError ''failed to bind repository'') (\<lambda>_. redirect url)))"
    for rows repoID pid url
    by (intro keep_rules preserve_rules reads_keep other_operations_keep_access)
  have page: "keeping (\<lambda>d. db_access d = rows)
      (try_op (on_store (ListReposForProjectBinding pid (usr_ID user)))
         (\<lambda>_. renderError a StatusInternalServerError ''failed to list repositories'') (\<lambda>repos. renderPage a (p repos)))"
    for rows pid and p :: "repo list \<Rightarrow> page"
    by (intro keep_rules preserve_rules reads_keep)
  show "reaches (\<lambda>t. ?I (tables_of t)) ?Q (handleConnectReposPage a now (Some user) r) s"
    unfolding handleConnectReposPage_def with_user_Some
    by (intro reaches_with_project [where I = ?I] asks page keep_rules) simp_all
  show "reaches (\<lambda>t. ?I (tables_of t)) ?Q (handleBindRepo a now (Some user) r) s"
    unfolding handleBindRepo_def with_user_Some
    by (intro reaches_with_project [where I = ?I] reaches_if reaches_with_repo_id [where I = ?I]
        reaches_keeps asks rest keep_rules) simp_all
qed

text \<open>Through any request: a list changes only to what GitHub lists now for the user of the request.\<close>

lemma Routes_access:
  assumes "db_access (tables_of (Routes a now uuid r s)) \<noteq> db_access (tables_of s)"
  shows "\<exists>user rows. request_user now r (tables_of s) user \<and>
    listed_by_github a now (usr_ID user) (tables_of s) (net_of s) rows \<and>
    list_replaced (usr_ID user) rows (tables_of s) (tables_of (Routes a now uuid r s))"
proof -
  let ?I = "\<lambda>d. db_access d = db_access (tables_of s)"
  from access_kept.Routes_reached [OF refl assms] obtain rt u s1 where
    s1: "tables_of s1 = tables_of s" "net_of s1 = net_of s" and
    u: "\<And>user. u = Some user \<Longrightarrow> request_user now r (tables_of s) user" and
    h: "Routes a now uuid r s = serve_route a now uuid rt (r\<lparr>hr_PathValue := path_values rt\<rparr>) u s1" and
    changed: "\<not> keeps (\<lambda>s'. ?I (tables_of s')) (serve_route a now uuid rt (r\<lparr>hr_PathValue := path_values rt\<rparr>) u)"
    by blast
  have "keeps (\<lambda>s'. ?I (tables_of s')) (serve_route a now uuid rt (r\<lparr>hr_PathValue := path_values rt\<rparr>) u)"
    if "\<And>slug. u \<noteq> None \<Longrightarrow> rt \<noteq> ConnectRepos slug \<and> rt \<noteq> BindRepo slug"
    by (rule access_kept.kept_route) (use that in \<open>auto intro!: keeping_access other_operations_keep_access\<close>)
  with changed obtain slug user where user: "u = Some user" and rt: "rt = ConnectRepos slug \<or> rt = BindRepo slug"
    by blast
  let ?r = "r\<lparr>hr_PathValue := path_values rt\<rparr>"
  have "Routes a now uuid r s \<in> {handleConnectReposPage a now (Some user) ?r s1, handleBindRepo a now (Some user) ?r s1}"
    using rt by (auto simp: h user serve_route_def requireUser_def)
  then have "list_kept_or_listed a now (usr_ID user) (tables_of s1) (net_of s1) (tables_of (Routes a now uuid r s))"
    using listing_handlers [of s1 a now user ?r] assms s1 by (auto simp: reaches_def)
  with assms s1 u [OF user] show ?thesis
    by (auto simp: list_kept_or_listed_def)
qed

end
