(* ===== verification/Server_Properties.thy ===== *)
theory Server_Properties
  imports Login_Properties Worker_Frames Access_Listing
begin

text \<open>
  Properties of the server as a whole: what the public pages depend on, how old the access list of a
  user may be, what happens without a session and without a key, which requests change nothing, and
  what every request and every pass of the workers keeps.
\<close>

section \<open>What the public pages depend on\<close>

text \<open>
  The runs that a viewer may see: those of public repositories and those of repositories that are
  bound to a project of the viewer now, with the flag that tells which.
\<close>

definition may_see :: "db \<Rightarrow> int64 option \<Rightarrow> runs_row \<Rightarrow> run option" where
  "may_see d viewer r =
     (case lookup_by rp_repo_id (rr_repo_id r) (db_repos d) of
        None \<Rightarrow> None
      | Some rp \<Rightarrow>
          if rp_visibility rp = ''public'' \<or> through_membership d viewer (rr_repo_id r)
          then Some (scanRun r rp (through_membership d viewer (rr_repo_id r)))
          else None)"

definition visible_runs :: "db \<Rightarrow> int64 option \<Rightarrow> run list" where
  "visible_runs d viewer = List.map_filter (may_see d viewer) (db_runs d)"

lemma visible_runs_code: "visible_runs d viewer = List.map_filter (visible_run d viewer) (db_runs d)"
proof -
  have "may_see d viewer = visible_run d viewer"
    by (simp add: may_see_def visible_run_def is_member_iff fun_eq_iff split: option.split)
  then show ?thesis by (simp add: visible_runs_def)
qed

definition with_tables :: "db \<Rightarrow> web \<Rightarrow> web" where
  "with_tables d s = s\<lparr>wb_world := (wb_world s)\<lparr>wd_db := (wd_db (wb_world s))\<lparr>tables := d\<rparr>\<rparr>\<rparr>"

lemma in_map_filter: "x \<in> set (List.map_filter f rows) \<longleftrightarrow> (\<exists>r \<in> set rows. f r = Some x)"
  by (force simp: List.map_filter_def)

lemma find_map_filter:
  assumes "unique_by key rows" "\<And>r v. f r = Some v \<Longrightarrow> g v = key r"
  shows "Option.bind (lookup_by key k rows) f = find (\<lambda>v. g v = k) (List.map_filter f rows)"
  using assms(1)
proof (induction rows)
  case (Cons r rows)
  then have u: "unique_by key rows" "key r \<notin> key ` set rows"
    by (auto simp: unique_by_def)
  show ?case
  proof (cases "key r = k")
    case True
    then have "find (\<lambda>v. g v = k) (List.map_filter f rows) = None"
      using u(2) assms(2) by (intro find_none) (auto simp: in_map_filter, metis image_eqI)
    with True show ?thesis
      using assms(2) by (cases "f r") (auto simp: List.map_filter_simps)
  next
    case False
    with Cons u show ?thesis
      using assms(2) by (cases "f r") (auto simp: List.map_filter_simps)
  qed
qed (simp add: List.map_filter_simps)

lemma visible_run_id: "visible_run d viewer r = Some run \<Longrightarrow> run_PublicID run = rr_public_id r"
  by (auto simp: visible_run_def scanRun_def split: option.splits if_splits)

lemma run_by_public_id:
  assumes "db_ok d"
  shows "Option.bind (lookup_by rr_public_id uuid (db_runs d)) (visible_run d viewer) =
    find (\<lambda>run. run_PublicID run = uuid) (visible_runs d viewer)"
  unfolding visible_runs_code
  by (rule find_map_filter) (use assms in \<open>auto simp: db_ok_def runs_ok_def visible_run_id\<close>)

lemma repo_runs_visible: "repo_runs name viewer d = filter (\<lambda>run. run_RepoFullName run = name) (visible_runs d viewer)"
  by (simp add: repo_runs_def visible_runs_code)

lemma fst_query_same: "q d = q' d' \<Longrightarrow> fst (query q (p\<lparr>tables := d\<rparr>)) = fst (query q' (p\<lparr>tables := d'\<rparr>))"
  by (auto simp: query_def exec_def bind_result_def split: prod.splits option.splits fault.splits sum.splits)

lemma fst_query_row_same:
  assumes "q d = q' d'"
  shows "fst (query_row q (p\<lparr>tables := d\<rparr>)) = fst (query_row q' (p\<lparr>tables := d'\<rparr>))"
proof -
  obtain r1 s1 where 1: "query (\<lambda>t. Inr (q t)) (p\<lparr>tables := d\<rparr>) = (r1, s1)"
    by (cases "query (\<lambda>t. Inr (q t)) (p\<lparr>tables := d\<rparr>)")
  obtain r2 s2 where 2: "query (\<lambda>t. Inr (q' t)) (p\<lparr>tables := d'\<rparr>) = (r2, s2)"
    by (cases "query (\<lambda>t. Inr (q' t)) (p\<lparr>tables := d'\<rparr>)")
  have "r1 = r2"
    using fst_query_same [of "\<lambda>t. Inr (q t)" d "\<lambda>t. Inr (q' t)" d' p] assms 1 2 by simp
  with 1 2 show ?thesis
    by (simp add: query_row_def split: sum.split option.split)
qed

lemma fst_on_store: "fst (on_store m s) = fst (m (wd_db (wb_world s)))"
  by (simp add: on_store_def on_world_def on_db_def split: prod.split)

lemma out_on_store: "wb_out (snd (on_store m s)) = wb_out s"
  by (simp add: on_store_def on_world_def split: prod.split)

text \<open>A step whose outcome and whose continuations write the same.\<close>

lemma same_try_op:
  assumes "fst (on_store m s) = fst (on_store m t)" "wb_out s = wb_out t"
    and "\<And>e s t. wb_out s = wb_out t \<Longrightarrow> wb_out (h e s) = wb_out (h e t)"
    and "\<And>x s t. wb_out s = wb_out t \<Longrightarrow> wb_out (f x s) = wb_out (f x t)"
  shows "wb_out (try_op (on_store m) h f s) = wb_out (try_op (on_store m) h f t)"
proof -
  obtain r s' where s: "on_store m s = (r, s')" by (cases "on_store m s")
  obtain r' t' where t: "on_store m t = (r', t')" by (cases "on_store m t")
  have "r = r'" "wb_out s' = wb_out t'"
    using assms(1,2) out_on_store [of m s] out_on_store [of m t] by (simp_all add: s t)
  with assms(3,4) [OF this(2)] s t show ?thesis
    by (cases r') (simp_all add: try_op_def)
qed

lemma same_renderError: "wb_out s = wb_out t \<Longrightarrow> wb_out (renderError a c m s) = wb_out (renderError a c m t)"
  by (simp add: renderError_def)

lemma same_renderPage: "wb_out s = wb_out t \<Longrightarrow> wb_out (renderPage a p s) = wb_out (renderPage a p t)"
  by (auto simp: renderPage_def renderError_def split: prod.split sum.split)

lemma same_limited:
  assumes "\<And>l. wb_out (k (with_tables d s\<lparr>wb_publicRouteIPLimiter := l\<rparr>)) = wb_out (k (with_tables d' s\<lparr>wb_publicRouteIPLimiter := l\<rparr>))"
  shows "wb_out (allowPublicRouteRequest now r k (with_tables d s)) = wb_out (allowPublicRouteRequest now r k (with_tables d' s))"
  using assms by (auto simp: allowPublicRouteRequest_def with_tables_def split: prod.splits)

section \<open>Properties of the public pages\<close>

text \<open>
  C6: The public pages of a run and of a repository are a function of the runs that the viewer may
  see: two databases that satisfy the schema and show the viewer the same runs give the same
  response, whatever else they hold. So a page tells nothing about runs of private repositories
  that the viewer has no binding to, not even through its errors.
\<close>

theorem public_pages_depend_on_visible_runs:
  assumes "db_ok d" "db_ok d'"
    and "visible_runs d (map_option usr_ID u) = visible_runs d' (map_option usr_ID u)"
  shows "wb_out (handleRunDetail a now u r (with_tables d s)) = wb_out (handleRunDetail a now u r (with_tables d' s)) \<and>
    wb_out (handleRepoRuns a now u r (with_tables d s)) = wb_out (handleRepoRuns a now u r (with_tables d' s))"
proof -
  let ?p = "wd_db (wb_world s)"
  have detail: "fst (GetRunByPublicID pt pid (map_option usr_ID u) (?p\<lparr>tables := d\<rparr>)) =
      fst (GetRunByPublicID pt pid (map_option usr_ID u) (?p\<lparr>tables := d'\<rparr>))" for pt pid
  proof (cases "uuid_in pt pid")
    case None
    then show ?thesis
      using fst_query_same [of "\<lambda>d. Inl invalid_text :: run result" d "\<lambda>d. Inl invalid_text" d' ?p]
      by (simp add: GetRunByPublicID_def fst_or_not_found fst_wrap_err)
  next
    case (Some uuid)
    let ?q = "\<lambda>d. Option.bind (lookup_by rr_public_id uuid (db_runs d)) (visible_run d (map_option usr_ID u))"
    have "fst (query_row ?q (?p\<lparr>tables := d\<rparr>)) = fst (query_row ?q (?p\<lparr>tables := d'\<rparr>))"
      by (rule fst_query_row_same) (simp add: run_by_public_id assms)
    with Some show ?thesis
      by (simp add: GetRunByPublicID_def fst_or_not_found fst_wrap_err)
  qed
  have repo: "fst (ListRunsForRepo owner name (map_option usr_ID u) n (?p\<lparr>tables := d\<rparr>)) =
      fst (ListRunsForRepo owner name (map_option usr_ID u) n (?p\<lparr>tables := d'\<rparr>))" for owner name n
    unfolding ListRunsForRepo_def Let_def fst_wrap_err nullableInt64_id
    by (subst fst_query_same [where d' = d' and q' = "\<lambda>d. Inr (take (run_limit n)
          (order_desc run_CreatedAt (repo_runs (TrimSpace owner @ ''/'' @ TrimSpace name) (map_option usr_ID u) d)))"])
      (simp_all add: repo_runs_visible assms(3))
  show ?thesis
    unfolding handleRunDetail_def handleRepoRuns_def Let_def
    using detail repo
    by (cases u; intro conjI same_limited)
      (auto simp: fst_on_store with_tables_def applyPublicCacheHeaders_def
        intro!: same_try_op same_renderError same_renderPage split: prod.split)
qed

theorem public_pages_depend_on_visible_runs_witness:
  "wb_out (handleRunDetail demo_server (Instant 60) None (demo_http\<lparr>hr_PathValue := (\<lambda>_. ''p1'')\<rparr>)
      (with_tables demo_db (demo_web empty_db))) =
   wb_out (handleRunDetail demo_server (Instant 60) None (demo_http\<lparr>hr_PathValue := (\<lambda>_. ''p1'')\<rparr>)
      (with_tables (demo_db\<lparr>db_runs := []\<rparr>) (demo_web empty_db)))"
proof -
  have "db_ok (demo_db\<lparr>db_runs := []\<rparr>)"
    using demo_db_ok by (simp add: db_ok_def users_ok_def projects_ok_def repos_ok_def runs_ok_def)
  moreover have "visible_runs demo_db (map_option usr_ID None) = visible_runs (demo_db\<lparr>db_runs := []\<rparr>) (map_option usr_ID None)"
    unfolding visible_runs_code by code_simp
  ultimately show ?thesis
    using public_pages_depend_on_visible_runs [OF demo_db_ok] by blast
qed

section \<open>The age of the access list\<close>

text \<open>
  C14: When the list of repositories of a user is said to be usable and not stale, either it was
  synchronised with GitHub within the cache lifetime, and then nothing was asked and nothing
  changed, or the rows of this user are now exactly what GitHub lists for his own token in this
  call, and the rows of others are untouched. When it is said to be stale, it was synchronised
  within the tolerated staleness, and the rows are the old ones or GitHub's present ones. A user
  who was never synchronised, or for whom GitHub has failed for longer, gets an error.
\<close>

theorem access_list_is_recent:
  assumes "ensureUserRepoAccess a now userID s = (Inr stale, s')" "0 \<le> sv_accessCacheTTL a"
  shows "access_synced (tables_of s') userID now (if stale then sv_accessMaxStaleness a else sv_accessCacheTTL a) \<and>
    ((if stale then db_access (tables_of s') = db_access (tables_of s)
      else tables_of s' = tables_of s \<and> net_of s' = net_of s) \<or>
     (\<exists>rows. listed_by_github a now userID (tables_of s) (net_of s) rows \<and>
        db_access (tables_of s') = filter (\<lambda>r. ac_user_id r \<noteq> userID) (db_access (tables_of s)) @ access_rows userID rows))"
  using ensure_synced [OF assms] ensure_listing [OF assms(1)]
  by (cases stale) (auto simp: list_kept_or_listed_def list_cached_def list_replaced_def)

text \<open>A user whose list is old, and GitHub answering with one installation that reaches one repository.\<close>

definition listing_server :: "(unit, unit) server" where
  "listing_server = demo_server\<lparr>sv_lib := (sv_lib demo_server)\<lparr>lb_github_json := demo_json\<lparr>js_user_installations :=
     (\<lambda>_. Inr [\<lparr>ii_ID = 4, ii_RepositorySelection = ''all'', ii_AccountID = 3, ii_AccountLogin = ''o'', ii_AccountType = ''User''\<rparr>])\<rparr>\<rparr>\<rparr>"

definition listing_site :: db where
  "listing_site = demo_site\<lparr>db_sessions := [\<lparr>se_token = ''t'', se_user_id = 1, se_expires_at = Instant 900000000000\<rparr>], db_tokens := [\<lparr>tk_user_id = 1, tk_access_enc = [1, 2, 3], tk_access_expires_at = None,
     tk_refresh_enc = None, tk_refresh_expires_at = None\<rparr>]\<rparr>"

definition listing_web :: web where
  "listing_web = first_state demo_verifier \<lparr>wd_db = healthy listing_site,
     wd_gh = \<lparr>gs_net = \<lparr>nt_sent = [], nt_answers = [Answer demo_answer, Answer demo_answer]\<rparr>, gs_tokens = []\<rparr>\<rparr> [] []"

theorem access_list_is_recent_witness:
  "\<exists>rows. listed_by_github listing_server (Instant 400000000000) 1 listing_site (net_of listing_web) rows \<and>
     db_access (tables_of (snd (ensureUserRepoAccess listing_server (Instant 400000000000) 1 listing_web))) = access_rows 1 rows \<and>
     map ura_InstallationID rows = [4]"
proof -
  let ?s = "snd (ensureUserRepoAccess listing_server (Instant 400000000000) 1 listing_web)"
  have "fst (ensureUserRepoAccess listing_server (Instant 400000000000) 1 listing_web) = Inr False"
    by code_simp
  then have "ensureUserRepoAccess listing_server (Instant 400000000000) 1 listing_web = (Inr False, ?s)"
    by (simp add: prod_eq_iff)
  moreover have "0 \<le> sv_accessCacheTTL listing_server"
    by code_simp
  ultimately have e: "tables_of ?s = tables_of listing_web \<or>
      (\<exists>rows. listed_by_github listing_server (Instant 400000000000) 1 (tables_of listing_web) (net_of listing_web) rows \<and>
        db_access (tables_of ?s) = filter (\<lambda>r. ac_user_id r \<noteq> 1) (db_access (tables_of listing_web)) @ access_rows 1 rows)"
    using access_list_is_recent by fastforce
  have now: "map ac_installation_id (db_access (tables_of ?s)) = [4]"
    by code_simp
  have before: "tables_of listing_web = listing_site" "map ac_installation_id (db_access listing_site) = [2]"
    "filter (\<lambda>r. ac_user_id r \<noteq> 1) (db_access listing_site) = []"
    by (simp add: listing_web_def first_state_def healthy_def) code_simp+
  have "map ac_installation_id (access_rows 1 rows) = map ura_InstallationID rows" for rows
    by (simp add: access_rows_def)
  moreover have "tables_of ?s \<noteq> tables_of listing_web"
    using now before(1,2) by auto
  with e obtain rows where "listed_by_github listing_server (Instant 400000000000) 1 listing_site (net_of listing_web) rows"
    "db_access (tables_of ?s) = access_rows 1 rows"
    using before by auto
  ultimately show ?thesis
    using now by (intro exI [of _ rows]) simp
qed

section \<open>Without a session\<close>

fun protected_route :: "route \<Rightarrow> bool" where
  "protected_route DashboardRoute = True"
| "protected_route CreateProjectRoute = True"
| "protected_route (ProjectRoute _) = True"
| "protected_route (ConnectRepos _) = True"
| "protected_route (BindRepo _) = True"
| "protected_route (UnbindRepo _) = True"
| "protected_route (Members _) = True"
| "protected_route _ = False"

lemma serve_protected:
  "protected_route rt \<Longrightarrow> serve_route a now uuid rt r None = redirect ''/''"
  by (cases rt) (simp_all add: serve_route_def requireUser_def)

text \<open>
  C19: A request to a page of projects that carries no session, an unknown one or an expired one
  changes nothing and is sent to the front page (or gets the error page when the sessions
  cannot be read).
\<close>

theorem protected_routes_need_session:
  assumes "find_route (hr_Method r) (hr_Segments r) = Some rt" "protected_route rt"
    and "\<And>user. \<not> request_user now r (tables_of s) user"
  shows "tables_of (Routes a now uuid r s) = tables_of s \<and> status_of (Routes a now uuid r s) \<in> {303, 500}"
proof -
  have go: "serve_route a now uuid rt r' None = redirect ''/''" for r'
    by (rule serve_protected [OF assms(2)])
  show ?thesis
  proof (cases "ReadSessionToken r")
    case None
    with assms(1) go show ?thesis
      by (simp add: Routes_def loadCurrentUser_def mux_def new_writer_def status_codes)
  next
    case (Some token)
    let ?s = "s\<lparr>wb_out := new_writer\<rparr>"
    obtain res s1 where s1: "on_store (GetUserBySessionToken now token) ?s = (res, s1)"
      by (cases "on_store (GetUserBySessionToken now token) ?s")
    have t: "tables_of s1 = tables_of s" "fresh_writer s1"
      using read_tables [OF reads_keep(8) s1] on_store_out [OF s1] by (simp_all add: new_writer_def)
    show ?thesis
    proof (cases res)
      case (Inl e)
      with Some s1 t show ?thesis
        by (simp add: Routes_def loadCurrentUser_def try_op_def status_codes)
    next
      case (Inr u)
      with session_query [OF s1 [unfolded Inr]] assms(3) Some have "u = None"
        by (cases u) (auto simp: request_user_def)
      with Some s1 t Inr assms(1) go show ?thesis
        by (simp add: Routes_def loadCurrentUser_def try_op_def mux_def ClearSessionCookie_def status_codes)
    qed
  qed
qed

theorem protected_routes_need_session_witness:
  "tables_of (Routes demo_server (Instant 901) ''u'' bind_request (demo_web demo_site)) = tables_of (demo_web demo_site)"
proof -
  have "find_route (hr_Method bind_request) (hr_Segments bind_request) = Some (BindRepo ''p'')"
    by code_simp
  moreover have "ReadSessionToken bind_request = Some ''t''" "session_user (Instant 901) ''t'' (tables_of (demo_web demo_site)) = None"
    by code_simp+
  then have "\<not> request_user (Instant 901) bind_request (tables_of (demo_web demo_site)) user" for user
    by (auto simp: request_user_def)
  ultimately show ?thesis
    using protected_routes_need_session by fastforce
qed

section \<open>Requests that only read\<close>

lemma get_read_only:
  assumes "get_route segs = Some rt" "segs \<noteq> [''auth'', ''github'', ''callback'']" "\<And>slug. segs \<noteq> [''projects'', slug, ''repos'']"
  shows "keeping I (serve_route a now uuid rt r u)"
proof -
  have "rt \<noteq> GitHubCallback" "\<And>slug. rt \<noteq> ConnectRepos slug"
    using assms by (auto simp: get_route_def split: list.splits if_splits)
  moreover have "rt \<noteq> LogoutRoute" "rt \<noteq> CreateProjectRoute" "\<And>slug. rt \<noteq> BindRepo slug" "\<And>slug. rt \<noteq> UnbindRepo slug"
    "rt \<noteq> RunsToken" "rt \<noteq> RunsIngest"
    using assms(1) by (auto simp: get_route_def split: list.splits if_splits)
  ultimately show ?thesis
    by (cases rt) (auto simp: serve_route_def requireUser_def handle_healthz_def intro: keep_rules reading_handleRoot
        reading_handleGitHubLogin reading_handleDashboard reading_handleProject reading_handleProjectMembersPage
        reading_handleRunDetail reading_handleRepoRuns)
qed

text \<open>
  C18: Reading is safe: a GET or HEAD request, of anybody, to any path but the callback of the login
  and the page that lists the repositories of a user (which asks GitHub), leaves every table as it was.
\<close>

theorem get_requests_only_read:
  assumes "hr_Method r = ''GET'' \<or> hr_Method r = ''HEAD''"
    and "hr_Segments r \<noteq> [''auth'', ''github'', ''callback'']" "\<And>slug. hr_Segments r \<noteq> [''projects'', slug, ''repos'']"
  shows "tables_of (Routes a now uuid r s) = tables_of s"
proof (rule keeping_Routes [where I = "\<lambda>d. d = tables_of s"])
  fix rt u
  assume "find_route (hr_Method r) (hr_Segments r) = Some rt"
  then have "get_route (hr_Segments r) = Some rt"
    using assms(1) by (auto simp: find_route_def)
  then show "keeping (\<lambda>d. d = tables_of s) (serve_route a now uuid rt (r\<lparr>hr_PathValue := path_values rt\<rparr>) u)"
    using assms(2,3) by (rule get_read_only)
qed simp

theorem get_requests_only_read_witness:
  "tables_of (Routes demo_server (Instant 60) ''u'' (bind_request\<lparr>hr_Method := ''GET'', hr_Segments := [''dashboard'']\<rparr>)
     (demo_web demo_site)) = tables_of (demo_web demo_site)"
  by (rule get_requests_only_read) simp_all

section \<open>The server over time\<close>

text \<open>
  The payload of a stored run is the jsonb value of a text that is a valid summary within the size
  limit and has the hash that is stored beside it.
\<close>

definition run_authentic :: "('sk, 'pk) server \<Rightarrow> runs_row \<Rightarrow> bool" where
  "run_authentic a row \<longleftrightarrow>
     (\<exists>body. jsonb_in (lb_pg_types (sv_lib a)) body = Some (rr_egress_json row) \<and> length body \<le> 10485760 \<and>
        is_ok (validateRunSummaryPayload (lb_summary (sv_lib a)) body) \<and>
        sha256Hex a body = rr_payload_sha256 row \<and> sha256HexPattern (rr_payload_sha256 row))"

interpretation authentic: run_rows "run_authentic a" for a
  by unfold_locales (simp_all add: run_authentic_def mark_unavailable_def mark_ambiguous_def mark_matched_def)

lemma accepted_upload_authentic:
  assumes "accepted_upload a now r claims body sha cs ce"
  shows "length body \<le> 10485760 \<and> is_ok (validateRunSummaryPayload (lb_summary (sv_lib a)) body) \<and>
    sha256HexPattern (sha256Hex a body)"
  using assms by (auto simp: accepted_upload_def check_payload_ok normalizeSHA256Hex_def Let_def split: if_splits)

lemma stored_upload_authentic:
  assumes "stored_upload (lb_pg_types (sv_lib a)) repoID executionID body (sha256Hex a body) commit runID (db_runs d) (db_runs d')"
    and "accepted_upload a now r claims body sha cs ce" "list_all (run_authentic a) (db_runs d)" "db_ok d'"
  shows "list_all (run_authentic a) (db_runs d')"
  unfolding list_all_iff
proof
  fix row assume row: "row \<in> set (db_runs d')"
  have "unique_by execution_key (db_runs d')"
    using assms(4) by (simp add: db_ok_def runs_ok_def)
  then have after: "lookup_by execution_key (execution_key row) (db_runs d') = Some row"
    using row by (rule lookup_by_unique)
  from assms(1) obtain execution new where
    new: "lookup_by execution_key (repoID, execution) (db_runs d') = Some new"
      "jsonb_in (lb_pg_types (sv_lib a)) body = Some (rr_egress_json new)" "rr_payload_sha256 new = sha256Hex a body"
    and other: "\<And>key. key \<noteq> (repoID, execution) \<Longrightarrow>
      lookup_by execution_key key (db_runs d') = lookup_by execution_key key (db_runs d)"
    by (auto simp: stored_upload_def)
  show "run_authentic a row"
  proof (cases "execution_key row = (repoID, execution)")
    case True
    with after new accepted_upload_authentic [OF assms(2)] show ?thesis
      by (auto simp: run_authentic_def)
  next
    case False
    with after other have "row \<in> set (db_runs d)"
      using lookup_by_Some by metis
    with assms(3) show ?thesis by (simp add: list_all_iff)
  qed
qed

text \<open>
  What can happen to the server: it starts on the empty tables or starts again on the tables it
  left, with new limiters and a new key cache; it serves any request; the workers make a pass; and
  the connection to the database, GitHub and the random source do whatever they do.
\<close>

inductive server_reachable :: "('sk, 'pk) server \<Rightarrow> web \<Rightarrow> bool" for a :: "('sk, 'pk) server" where
  start: "tables (wd_db w) = empty_db \<Longrightarrow> server_reachable a (first_state v w replies random)"
| restart: "server_reachable a s \<Longrightarrow> server_reachable a (first_state v (wb_world s) replies random)"
| request: "server_reachable a s \<Longrightarrow> server_reachable a (Routes a now uuid r s)"
| work: "server_reachable a s \<Longrightarrow> server_reachable a (s\<lparr>wb_world := snd (RunAll (worker :: 'sk worker) now (wb_world s))\<rparr>)"
| outside: "server_reachable a s \<Longrightarrow>
    server_reachable a (s\<lparr>wb_world := \<lparr>wd_db = (wd_db (wb_world s))\<lparr>coming := fs\<rparr>, wd_gh = g\<rparr>,
      wb_replies := replies, wb_random := random\<rparr>)"

lemma Routes_db_ok: "db_ok (tables_of s) \<Longrightarrow> db_ok (tables_of (Routes a now uuid r s))"
proof -
  assume ok: "db_ok (tables_of s)"
  have served: "constraints_kept.kept (serve_route a now uuid rt r' u)" for rt r' u
    by (rule constraints_kept.kept_serve_route)
      (auto intro!: constraints_kept.kept_handleGitHubCallback constraints_kept.kept_handleLogout
        constraints_kept.kept_handleCreateProject constraints_kept.kept_handleBindRepo
        constraints_kept.kept_handleUnbindRepo constraints_kept.kept_handleRunsIngest operations_preserve)
  then show ?thesis
    by (rule keeping_Routes [where I = db_ok]) (rule ok)
qed

lemma server_reachable_ok:
  "server_reachable a s \<Longrightarrow> db_ok (tables_of s) \<and> list_all (run_authentic a) (db_runs (tables_of s))"
proof (induction rule: server_reachable.induct)
  case (start w v replies random)
  then show ?case by (simp add: first_state_def db_ok_empty) (simp add: empty_db_def)
next
  case (request s now uuid r)
  then have ok: "db_ok (tables_of (Routes a now uuid r s))"
    using Routes_db_ok by blast
  show ?case
  proof (cases "db_runs (tables_of (Routes a now uuid r s)) = db_runs (tables_of s)")
    case False
    from Routes_runs [OF this] obtain claims body sha cs ce where
      "accepted_upload a now r claims body sha cs ce"
      "stored_upload (lb_pg_types (sv_lib a)) (u_RepositoryID claims) (u_ExecutionID claims) body (sha256Hex a body)
         (u_CommitSHA claims) (u_RunID claims) (db_runs (tables_of s)) (db_runs (tables_of (Routes a now uuid r s)))"
      by blast
    with stored_upload_authentic ok request.IH show ?thesis by blast
  qed (use ok request.IH in simp)
next
  case (work s worker now)
  then show ?case
    using preservesD [OF RunAll_preserves, of "wb_world s" worker now]
      preservesD [OF authentic.rows.kept_by_workers, of a "wb_world s" worker now] by simp
qed (simp_all add: first_state_def)

section \<open>Properties of the server over time\<close>

text \<open>
  C3: In every state that the server can reach, through any requests of anybody, passes of the
  workers, restarts, lost connections and answers of GitHub, the tables satisfy the constraints of
  the schema (primary and unique keys, foreign keys, checks), and for every stored run there is a
  body within the size limit that is a valid summary, whose jsonb form is the stored payload and
  whose SHA-256 is the hash stored with the run.
\<close>

theorem server_invariant:
  assumes "server_reachable a s"
  shows "db_ok (tables_of s) \<and> (\<forall>row \<in> set (db_runs (tables_of s)). run_authentic a row)"
  using server_reachable_ok [OF assms] by (simp add: list_all_iff)

theorem server_invariant_witness:
  "\<exists>row. db_runs (tables_of (Routes demo_server (Instant 2000000000) ''u1'' demo_http (demo_web empty_db))) = [row] \<and>
     run_authentic demo_server row"
proof -
  have "server_reachable demo_server (demo_web empty_db)"
    unfolding demo_web_def by (rule server_reachable.start) (simp add: healthy_def)
  then have r: "server_reachable demo_server (Routes demo_server (Instant 2000000000) ''u1'' demo_http (demo_web empty_db))"
    by (rule server_reachable.request)
  have "length (db_runs (tables_of (Routes demo_server (Instant 2000000000) ''u1'' demo_http (demo_web empty_db)))) = 1"
    by code_simp
  then obtain row where "db_runs (tables_of (Routes demo_server (Instant 2000000000) ''u1'' demo_http (demo_web empty_db))) = [row]"
    by (auto simp: length_Suc_conv)
  with server_invariant [OF r] show ?thesis by simp
qed

section \<open>Coverage over time\<close>

interpretation coverage_kept: web_invariant "\<lambda>d. db_coverage d = rows" for rows
  by (rule web_invariantI) simp_all

lemma other_operations_keep_coverage:
  "preserves (\<lambda>s. db_coverage (tables s) = rows) (UpsertUserFromGitHub now gid login avatar)"
  "preserves (\<lambda>s. db_coverage (tables s) = rows) (CreateSession uid token expires)"
  "preserves (\<lambda>s. db_coverage (tables s) = rows) (DeleteSession token)"
  "preserves (\<lambda>s. db_coverage (tables s) = rows) (CreateProject now uid name)"
  "preserves (\<lambda>s. db_coverage (tables s) = rows) (UpsertRun pt now uuid run)"
  "preserves (\<lambda>s. db_coverage (tables s) = rows) (BindRepoToProject now pid rid uid)"
  "preserves (\<lambda>s. db_coverage (tables s) = rows) (UnbindRepoFromProject now pid rid)"
  subgoal by (rule UpsertUserFromGitHub_writes [where I = "\<lambda>d. db_coverage d = rows"]) simp_all
  subgoal by (rule CreateSession_writes [where I = "\<lambda>d. db_coverage d = rows"]) simp_all
  subgoal by (rule DeleteSession_writes [where I = "\<lambda>d. db_coverage d = rows"]) simp_all
  subgoal by (rule CreateProject_writes [where I = "\<lambda>d. db_coverage d = rows"]) simp_all
  subgoal by (rule UpsertRun_writes [where I = "\<lambda>d. db_coverage d = rows"]) simp_all
  subgoal by (rule binding_writes(1) [where I = "\<lambda>d. db_coverage d = rows"]) simp_all
  subgoal by (rule binding_writes(2) [where I = "\<lambda>d. db_coverage d = rows"]) simp_all
  done

lemma Routes_coverage: "db_coverage (tables_of (Routes a now uuid r s)) = db_coverage (tables_of s)"
proof (rule keeping_Routes [where I = "\<lambda>d. db_coverage d = db_coverage (tables_of s)"])
  show "keeping (\<lambda>d. db_coverage d = db_coverage (tables_of s)) (serve_route a now uuid rt (r\<lparr>hr_PathValue := path_values rt\<rparr>) u)"
    for rt u
    by (rule coverage_kept.kept_serve_route)
      (rule coverage_kept.kept_handleGitHubCallback coverage_kept.kept_handleLogout coverage_kept.kept_handleCreateProject
        coverage_kept.kept_handleBindRepo coverage_kept.kept_handleUnbindRepo coverage_kept.kept_handleRunsIngest;
       rule other_operations_keep_coverage)+
qed simp

lemma server_no_coverage: "server_reachable a s \<Longrightarrow> db_coverage (tables_of s) = []"
proof (induction rule: server_reachable.induct)
  case (start w v replies random)
  then show ?case by (simp add: first_state_def) (simp add: empty_db_def)
next
  case (request s now uuid r)
  then show ?case by (simp add: Routes_coverage)
next
  case (work s worker now)
  then show ?case
    using RunAll_without_coverage [of "wb_world s" worker now] by simp
qed (simp_all add: first_state_def)

text \<open>
  C29: Retention and revocation never happen: in every state that the server can reach no
  repository has a coverage row, because none is ever written; so a pass of the workers revokes no
  binding and deletes no run, however long GitHub's installations have not reached a repository.
\<close>

theorem passes_never_revoke_or_purge:
  fixes worker :: "'sk worker" and a :: "('sk, 'pk) server"
  assumes "server_reachable a s"
  shows "db_coverage (tables_of s) = [] \<and>
    db_bindings (tables (wd_db (snd (RunAll worker now (wb_world s))))) = db_bindings (tables_of s) \<and>
    map rr_id (db_runs (tables (wd_db (snd (RunAll worker now (wb_world s)))))) = map rr_id (db_runs (tables_of s))"
  using server_no_coverage [OF assms] RunAll_without_coverage [of "wb_world s" worker now] by simp

theorem passes_never_revoke_or_purge_witness:
  "map rr_id (db_runs (tables (wd_db (snd (RunAll demo_worker (Instant 9000000000000000000)
     (wb_world (Routes demo_server (Instant 2000000000) ''u1'' demo_http (demo_web empty_db)))))))) = [1]"
proof -
  have "server_reachable demo_server (demo_web empty_db)"
    unfolding demo_web_def by (rule server_reachable.start) (simp add: healthy_def)
  then have "server_reachable demo_server (Routes demo_server (Instant 2000000000) ''u1'' demo_http (demo_web empty_db))"
    by (rule server_reachable.request)
  moreover have "map rr_id (db_runs (tables_of (Routes demo_server (Instant 2000000000) ''u1'' demo_http (demo_web empty_db)))) = [1]"
    by code_simp
  ultimately show ?thesis
    using passes_never_revoke_or_purge by metis
qed

section \<open>Without a key\<close>

text \<open>The two endpoints of a runner and the two of the login.\<close>

definition key_routes :: "(string \<times> string list) list" where
  "key_routes = [(''POST'', [''runs'']), (''POST'', [''runs'', ''token'']), (''GET'', [''auth'', ''github'']),
     (''GET'', [''auth'', ''github'', ''callback''])]"

lemma main_without_key:
  assumes "main lib rd gcm cfg (Inr ()) (Inr ()) = Running a v wk" "parseRSAPrivateKey rd (GitHubAppPrivateKey cfg) = Inl e"
  shows "sv_runsTokenManager a = None \<and> sv_githubAppClient a = None \<and> wk = None"
proof -
  have "\<not> is_ok (NewTokenManager rd (lb_upload_jwt lib) (GitHubAppID cfg) (GitHubAppPrivateKey cfg))"
    using assms(2) by (simp add: NewTokenManager_def NewTokenManagerWithTTL_def Let_def)
  moreover have "\<exists>e. parseAppPrivateKey rd (GitHubAppPrivateKey cfg) = Inl e"
    using assms(2) same_keys_accepted [of rd "GitHubAppPrivateKey cfg"]
    by (cases "parseAppPrivateKey rd (GitHubAppPrivateKey cfg)") auto
  then have "\<not> is_ok (NewClient rd gcm \<lparr>gf_ClientID = GitHubClientID cfg, gf_ClientSecret = GitHubClientSecret cfg,
      gf_BaseURL = BaseURL cfg, gf_TokenEncryptionKey = TokenEncryptionKey cfg,
      gf_AppID = GitHubAppID cfg, gf_AppPrivateKey = GitHubAppPrivateKey cfg\<rparr>)"
    by (auto simp: NewClient_def Let_def split: option.split)
  ultimately show ?thesis
    using assms(1) by (auto simp: main_def NewServer_def Let_def is_ok_def split: sum.splits if_splits)
qed

text \<open>
  A process whose GitHub App key cannot be read still serves, in a reduced mode: it has no
  worker, and whoever calls the upload endpoints or the login gets status 503 and changes no table.
\<close>

theorem reduced_mode_without_key:
  assumes "main lib rd gcm cfg (Inr ()) (Inr ()) = Running a v wk" "parseRSAPrivateKey rd (GitHubAppPrivateKey cfg) = Inl e"
    and "(hr_Method r, hr_Segments r) \<in> set key_routes" "ReadSessionToken r = None"
  shows "wk = None \<and> status_of (Routes a now uuid r s) = 503 \<and> tables_of (Routes a now uuid r s) = tables_of s"
proof -
  note off = main_without_key [OF assms(1,2)]
  show ?thesis
    using assms(3,4) off
    by (cases "wb_oidcVerifier s") (auto simp: key_routes_def Routes_def loadCurrentUser_def mux_def find_route_def get_route_def post_route_def
        serve_route_def handleRunsIngest_def handleRunsToken_def handleGitHubLogin_def handleGitHubCallback_def
        status_codes new_writer_def)
qed

theorem reduced_mode_without_key_witness:
  "\<exists>a v. main demo_libraries demo_reader (\<lambda>_. gc_aead demo_client) (FromEnv (\<lambda>_. [])) (Inr ()) (Inr ()) = Running a v None \<and>
     status_of (Routes a (Instant 1) ''u1'' demo_http (demo_web empty_db)) = 503"
proof -
  obtain a v wk where m: "main demo_libraries demo_reader (\<lambda>_. gc_aead demo_client) (FromEnv (\<lambda>_. [])) (Inr ()) (Inr ()) = Running a v wk"
  proof -
    have "\<not> MigrateOnly (FromEnv (\<lambda>_. []))"
      by code_simp
    then have "\<exists>a v wk. main demo_libraries demo_reader (\<lambda>_. gc_aead demo_client) (FromEnv (\<lambda>_. [])) (Inr ()) (Inr ()) = Running a v wk"
      by (simp add: main_def Let_def)
    then show thesis
      using that by blast
  qed
  obtain e where "parseRSAPrivateKey demo_reader (GitHubAppPrivateKey (FromEnv (\<lambda>_. []))) = Inl e"
  proof -
    have "\<not> is_ok (parseRSAPrivateKey demo_reader (GitHubAppPrivateKey (FromEnv (\<lambda>_. []))))"
      by code_simp
    then show thesis
      using that by (auto simp: is_ok_def split: sum.splits)
  qed
  moreover have "(hr_Method demo_http, hr_Segments demo_http) \<in> set key_routes" "ReadSessionToken demo_http = None"
    by code_simp+
  ultimately show ?thesis
    using reduced_mode_without_key [OF m] m by fastforce
qed

end
