(* ===== verification/Project_Properties.thy ===== *)
theory Project_Properties
  imports Server_Properties
begin

text \<open>
  Who becomes a member of a project, on which every right to bind a repository and to see a private
  run rests: which requests change projects and memberships, and what holds of both in every state
  that the server reaches.
\<close>

section \<open>Creating a project\<close>

text \<open>
  A project with its owner is added, under the slug of its name; no other slug is ever given, since the
  transaction is lost after the first refused insertion.
\<close>

definition project_created :: "instant \<Rightarrow> int64 \<Rightarrow> string \<Rightarrow> db \<Rightarrow> db \<Rightarrow> bool" where
  "project_created now userID name d d' \<longleftrightarrow>
     \<not> has_key pj_slug (project_base name) (db_projects d) \<and> has_key us_id userID (db_users d) \<and>
     db_projects d' = db_projects d @
       [\<lparr>pj_id = db_next_project d, pj_created_by = Some userID, pj_name = name, pj_slug = project_base name,
         pj_created_at = now\<rparr>] \<and>
     db_members d' = db_members d @ [\<lparr>me_project_id = db_next_project d, me_user_id = userID, me_role = ''owner''\<rparr>]"

definition project_rows :: "db \<Rightarrow> projects_row list \<times> members_row list" where
  "project_rows d = (db_projects d, db_members d)"

lemma attempts_aborted:
  "aborted x \<Longrightarrow> create_project_attempts now uid name base is x = (Inr p, x') \<Longrightarrow> False"
proof (induction "is" arbitrary: x)
  case (Cons i "is")
  let ?st = "insert_project_stmt now uid name (project_slug base i)"
  obtain e y where "tx_exec ?st x = (Inl e, y)" "aborted y"
    using tx_exec_aborted [OF Cons.prems(1), of ?st] by (cases "tx_exec ?st x") auto
  with Cons show False
    by (auto simp: catch_op_def fail_def split: if_splits)
qed (simp add: fail_def)

lemma attempts_first:
  assumes "create_project_attempts now uid name base (0 # is) x = (Inr p, x')"
  obtains p0 d1 where "insert_project_stmt now uid name base (work x) = Inr (p0, d1)"
    "insert_owner_stmt (prj_ID p0) uid d1 = Inr ((), work x')"
proof -
  let ?st = "insert_project_stmt now uid name base"
  let ?owner = "\<lambda>p0. tx_exec (insert_owner_stmt (prj_ID p0) uid)"
  have slug: "project_slug base 0 = base"
    by (simp add: project_slug_def)
  obtain res y where y: "tx_exec ?st x = (res, y)"
    by (cases "tx_exec ?st x")
  show ?thesis
  proof (cases res)
    case (Inl e)
    with y have "aborted y"
      by (auto simp: tx_exec_def split: prod.splits option.splits fault.splits sum.splits if_splits)
    moreover have "create_project_attempts now uid name base is y = (Inr p, x')"
      using assms y Inl by (simp add: slug catch_op_def fail_def split: if_splits)
    ultimately have False by (rule attempts_aborted)
    then show ?thesis ..
  next
    case (Inr p0)
    from assms y Inr obtain u where "?owner p0 y = (Inr u, x')"
      by (auto simp: slug catch_op_def bind_op_def ret_def wrap_err_def split: prod.splits sum.splits)
    then have two: "insert_owner_stmt (prj_ID p0) uid (work y) = Inr ((), work x')"
      using tx_exec_ok [of "insert_owner_stmt (prj_ID p0) uid" y u x'] by simp
    have one: "?st (work x) = Inr (p0, work y)"
      using tx_exec_ok [of ?st x p0 y] y Inr by simp
    from one two show ?thesis by (rule that)
  qed
qed

lemma attempts_created:
  assumes "create_project_attempts now uid name (project_base name) (0 # is) x = (Inr p, x')"
  shows "project_created now uid name (work x) (work x')"
proof -
  obtain p0 d1 where "insert_project_stmt now uid name (project_base name) (work x) = Inr (p0, d1)"
    "insert_owner_stmt (prj_ID p0) uid d1 = Inr ((), work x')"
    using assms by (rule attempts_first)
  then show ?thesis
    by (auto simp: project_created_def insert_project_stmt_def insert_owner_stmt_def project_view_def Let_def
        dest!: sym [of _ "work x'"] split: if_splits)
qed

lemma CreateProject_creates:
  assumes "project_rows (tables (snd (CreateProject now uid name s))) \<noteq> project_rows (tables s)"
  shows "project_created now uid name (tables s) (tables (snd (CreateProject now uid name s)))"
proof -
  let ?body = "create_project_attempts now uid name (project_base name) [0..<100]"
  from transaction_atomic [of "''begin create project''" "''commit create project''" ?body s] assms
  obtain v x where "body_result ?body s = (Inr v, x)" "\<not> aborted x" "tables (snd (CreateProject now uid name s)) = work x"
    by (auto simp: CreateProject_def)
  with attempts_created [OF this(1) [unfolded body_result_def attempts_start]] show ?thesis
    by simp
qed

section \<open>Requests that make projects\<close>

lemma project_rows_simps [simp]:
  "project_rows (d\<lparr>db_repos := v1\<rparr>) = project_rows d" "project_rows (d\<lparr>db_tokens := v2\<rparr>) = project_rows d"
  "project_rows (d\<lparr>db_access := v3\<rparr>) = project_rows d" "project_rows (d\<lparr>db_syncs := v4\<rparr>) = project_rows d"
  "project_rows (d\<lparr>db_sessions := v5\<rparr>) = project_rows d" "project_rows (d\<lparr>db_bindings := v6\<rparr>) = project_rows d"
  "project_rows (d\<lparr>db_users := v7, db_next_user := v8\<rparr>) = project_rows d" "project_rows (d\<lparr>db_users := v7\<rparr>) = project_rows d"
  "project_rows (d\<lparr>db_identities := v9\<rparr>) = project_rows d" "project_rows (d\<lparr>db_runs := v10, db_next_run := v11\<rparr>) = project_rows d"
  "project_rows (d\<lparr>db_runs := v10\<rparr>) = project_rows d" "project_rows (d\<lparr>db_installations := v12\<rparr>) = project_rows d"
  "project_rows (d\<lparr>db_inst_repos := v13\<rparr>) = project_rows d" "project_rows (d\<lparr>db_coverage := v14\<rparr>) = project_rows d"
  by (simp_all add: project_rows_def)

interpretation projects_kept: web_invariant "\<lambda>d. project_rows d = rows" for rows
  by (rule web_invariantI) simp_all

interpretation projects_unworked: worker_invariant "\<lambda>d. project_rows d = rows" for rows
  by unfold_locales simp_all

lemma other_operations_keep_projects:
  "preserves (\<lambda>s. project_rows (tables s) = rows) (UpsertUserFromGitHub now gid login avatar)"
  "preserves (\<lambda>s. project_rows (tables s) = rows) (CreateSession uid token expires)"
  "preserves (\<lambda>s. project_rows (tables s) = rows) (DeleteSession token)"
  "preserves (\<lambda>s. project_rows (tables s) = rows) (BindRepoToProject now pid rid uid)"
  "preserves (\<lambda>s. project_rows (tables s) = rows) (UnbindRepoFromProject now pid rid)"
  "preserves (\<lambda>s. project_rows (tables s) = rows) (UpsertRun pt now uuid run)"
  subgoal by (rule UpsertUserFromGitHub_writes [where I = "\<lambda>d. project_rows d = rows"]) simp_all
  subgoal by (rule CreateSession_writes [where I = "\<lambda>d. project_rows d = rows"]) simp_all
  subgoal by (rule DeleteSession_writes [where I = "\<lambda>d. project_rows d = rows"]) simp_all
  subgoal by (rule binding_writes(1) [where I = "\<lambda>d. project_rows d = rows"]) simp_all
  subgoal by (rule binding_writes(2) [where I = "\<lambda>d. project_rows d = rows"]) simp_all
  subgoal by (rule UpsertRun_writes [where I = "\<lambda>d. project_rows d = rows"]) simp_all
  done

lemmas keeping_projects = projects_kept.kept_handleGitHubCallback projects_kept.kept_handleLogout
  projects_kept.kept_handleBindRepo projects_kept.kept_handleUnbindRepo projects_kept.kept_handleRunsIngest

text \<open>The name of a request that makes a project.\<close>

definition form_name :: "http_request \<Rightarrow> string \<Rightarrow> bool" where
  "form_name r name \<longleftrightarrow> (\<exists>form. hr_Form r = Inr form \<and> name = TrimSpace (form ''name'') \<and> name \<noteq> [])"

lemma handleCreateProject_creates:
  assumes "project_rows (tables_of (handleCreateProject a now (Some user) r s)) \<noteq> project_rows (tables_of s)"
  shows "\<exists>name. form_name r name \<and>
    project_created now (usr_ID user) name (tables_of s) (tables_of (handleCreateProject a now (Some user) r s))"
proof -
  obtain form where form: "hr_Form r = Inr form" "TrimSpace (form ''name'') \<noteq> []"
    using assms by (auto simp: handleCreateProject_def with_user_def userFromRequest_def try_op_def ret_def Let_def
        split: sum.splits if_splits)
  let ?name = "TrimSpace (form ''name'')"
  obtain res s1 where s1: "on_store (CreateProject now (usr_ID user) ?name) s = (res, s1)"
    by (cases "on_store (CreateProject now (usr_ID user) ?name) s")
  have same: "tables_of (handleCreateProject a now (Some user) r s) = tables_of s1"
    using form s1 by (cases res) (simp_all add: handleCreateProject_def with_user_def userFromRequest_def try_op_def
        ret_def Let_def)
  have "tables (snd (CreateProject now (usr_ID user) ?name (wd_db (wb_world s)))) = tables_of s1"
    using on_store_store [OF s1] by simp
  then have "project_created now (usr_ID user) ?name (tables_of s) (tables_of s1)"
    using CreateProject_creates [of now "usr_ID user" ?name "wd_db (wb_world s)"] assms same by simp
  with form same show ?thesis
    by (auto simp: form_name_def)
qed

lemma form_name_path [simp]: "form_name (r\<lparr>hr_PathValue := f\<rparr>) = form_name r"
  by (simp add: form_name_def fun_eq_iff)

lemma create_route:
  assumes "find_route meth segs = Some CreateProjectRoute"
  shows "meth = ''POST'' \<and> segs = [''projects'']"
proof -
  have "get_route segs \<noteq> Some CreateProjectRoute"
    by (simp add: get_route_def split: list.split)
  with assms have "meth = ''POST''" "post_route segs = Some CreateProjectRoute"
    by (auto simp: find_route_def split: if_splits)
  then show ?thesis
    by (auto simp: post_route_def split: list.splits if_splits)
qed

lemma Routes_projects:
  assumes "project_rows (tables_of (Routes a now uuid r s)) \<noteq> project_rows (tables_of s)"
  shows "hr_Method r = ''POST'' \<and> hr_Segments r = [''projects''] \<and>
    (\<exists>user name. request_user now r (tables_of s) user \<and> form_name r name \<and>
       project_created now (usr_ID user) name (tables_of s) (tables_of (Routes a now uuid r s)))"
proof -
  let ?I = "\<lambda>d. project_rows d = project_rows (tables_of s)"
  from projects_kept.Routes_reached [OF refl assms] obtain rt u s1 where
    rt: "find_route (hr_Method r) (hr_Segments r) = Some rt" and s1: "tables_of s1 = tables_of s" and
    u: "\<And>user. u = Some user \<Longrightarrow> request_user now r (tables_of s) user" and
    h: "Routes a now uuid r s = serve_route a now uuid rt (r\<lparr>hr_PathValue := path_values rt\<rparr>) u s1" and
    changed: "\<not> keeps (\<lambda>s'. ?I (tables_of s')) (serve_route a now uuid rt (r\<lparr>hr_PathValue := path_values rt\<rparr>) u)"
    by blast
  have "keeps (\<lambda>s'. ?I (tables_of s')) (serve_route a now uuid rt (r\<lparr>hr_PathValue := path_values rt\<rparr>) u)"
    if "rt \<noteq> CreateProjectRoute"
    by (rule projects_kept.kept_serve_route) (use that in \<open>auto intro!: keeping_projects other_operations_keep_projects\<close>)
  with changed have create: "rt = CreateProjectRoute"
    by blast
  obtain user where user: "u = Some user"
    using h create s1 assms by (cases u) (simp_all add: serve_route_def requireUser_def)
  have "Routes a now uuid r s = handleCreateProject a now (Some user) (r\<lparr>hr_PathValue := path_values rt\<rparr>) s1"
    unfolding h create user by (simp add: serve_route_def requireUser_def)
  with handleCreateProject_creates [of a now user "r\<lparr>hr_PathValue := path_values rt\<rparr>" s1] assms s1
  obtain name where "form_name r name" "project_created now (usr_ID user) name (tables_of s) (tables_of (Routes a now uuid r s))"
    by auto
  with create_route [OF rt [unfolded create]] u [OF user] show ?thesis
    by blast
qed

section \<open>One owner for each project\<close>

definition one_owner_each :: "db \<Rightarrow> bool" where
  "one_owner_each d \<longleftrightarrow>
     (\<forall>p \<in> set (db_projects d). \<exists>owner. pj_created_by p = Some owner \<and>
        filter (\<lambda>m. me_project_id m = pj_id p) (db_members d) =
          [\<lparr>me_project_id = pj_id p, me_user_id = owner, me_role = ''owner''\<rparr>])"

lemma one_owner_same: "project_rows d' = project_rows d \<Longrightarrow> one_owner_each d \<Longrightarrow> one_owner_each d'"
  by (simp add: one_owner_each_def project_rows_def)

lemma one_owner_created:
  assumes "project_created now uid name d d'" "db_ok d" "one_owner_each d"
  shows "one_owner_each d'"
proof -
  let ?new = "db_next_project d"
  have ids: "p \<in> set (db_projects d) \<Longrightarrow> pj_id p \<noteq> ?new" for p
    using assms(2) by (fastforce simp: db_ok_def projects_ok_def list_all_iff)
  then have "m \<in> set (db_members d) \<Longrightarrow> me_project_id m \<noteq> ?new" for m
    using assms(2) by (fastforce simp: db_ok_def projects_ok_def list_all_iff has_key_set)
  then have "filter (\<lambda>m. me_project_id m = ?new) (db_members d) = []"
    by (auto simp: filter_empty_conv)
  with assms(1,3) ids show ?thesis
    by (auto simp: project_created_def one_owner_each_def)
qed

lemma server_one_owner: "server_reachable a s \<Longrightarrow> one_owner_each (tables_of s)"
proof (induction rule: server_reachable.induct)
  case (start w v replies random)
  then show ?case by (simp add: first_state_def empty_db_def one_owner_each_def)
next
  case (request s now uuid r)
  show ?case
  proof (cases "project_rows (tables_of (Routes a now uuid r s)) = project_rows (tables_of s)")
    case True
    then show ?thesis using request.IH by (rule one_owner_same)
  next
    case False
    from Routes_projects [OF False] server_reachable_ok [OF request.hyps] request.IH one_owner_created
    show ?thesis by blast
  qed
next
  case (work s worker now)
  have "project_rows (tables (wd_db (snd (RunAll worker now (wb_world s))))) = project_rows (tables_of s)"
    by (rule preservesD [OF projects_unworked.kept_by_workers]) simp
  from one_owner_same [OF this work.IH] show ?case by simp
qed (simp_all add: first_state_def)

section \<open>Properties\<close>

text \<open>
  C4: Whatever request arrives, whatever fails, projects and memberships change only when the request
  is a POST to the projects route of a signed-in user with a name that is not blank; and then exactly
  one project of that name is added, under the slug of the name, which was free, with that user
  as its one member, the owner. A name whose slug is taken gives no project.
\<close>

theorem projects_changed_by_creation:
  assumes "project_rows (tables_of (Routes a now uuid r s)) \<noteq> project_rows (tables_of s)"
  shows "hr_Method r = ''POST'' \<and> hr_Segments r = [''projects''] \<and>
    (\<exists>user name. request_user now r (tables_of s) user \<and> form_name r name \<and>
       project_created now (usr_ID user) name (tables_of s) (tables_of (Routes a now uuid r s)))"
  using assms by (rule Routes_projects)

definition create_request :: http_request where
  "create_request = bind_request\<lparr>hr_Segments := [''projects''],
     hr_Form := Inr (\<lambda>k. if k = ''name'' then '' My Lab '' else [])\<rparr>"

theorem projects_changed_by_creation_witness:
  "\<exists>(user :: user) name. form_name create_request name \<and> project_created (Instant 60) (usr_ID user) name demo_site
     (tables_of (Routes demo_server (Instant 60) ''u'' create_request (demo_web demo_site)))"
proof -
  have before: "tables_of (demo_web demo_site) = demo_site"
    by (simp add: demo_web_def first_state_def healthy_def)
  have "map pj_slug (db_projects (tables_of (Routes demo_server (Instant 60) ''u'' create_request (demo_web demo_site)))) \<noteq>
      map pj_slug (db_projects demo_site)"
    by code_simp
  then have "project_rows (tables_of (Routes demo_server (Instant 60) ''u'' create_request (demo_web demo_site))) \<noteq>
      project_rows (tables_of (demo_web demo_site))"
    by (auto simp: project_rows_def before)
  from projects_changed_by_creation [OF this] show ?thesis
    unfolding before by blast
qed

text \<open>
  C15: In every state that the server can reach, each project has exactly one member, the user that
  created it, in the role of owner. The role of admin, which may bind repositories as well, and
  members beside the owner exist in the schema and in the checks, but nothing ever grants them.
\<close>

theorem projects_have_one_owner:
  assumes "server_reachable a s" "p \<in> set (db_projects (tables_of s))"
  shows "\<exists>owner. pj_created_by p = Some owner \<and>
    filter (\<lambda>m. me_project_id m = pj_id p) (db_members (tables_of s)) =
      [\<lparr>me_project_id = pj_id p, me_user_id = owner, me_role = ''owner''\<rparr>]"
  using server_one_owner [OF assms(1)] assms(2) by (auto simp: one_owner_each_def)

definition login_state :: web where
  "login_state = Routes login_server (Instant 60) ''u'' login_request login_web"

definition first_create :: http_request where
  "first_create = create_request\<lparr>hr_Cookies := fold browser_accepts (wr_cookies (wb_out login_state)) []\<rparr>"

lemma first_create_reachable:
  "server_reachable login_server (Routes login_server (Instant 70) ''u'' first_create login_state)"
proof -
  have "login_web = first_state demo_verifier (wb_world login_web) [] [Inr [1, 2], Inr [3, 4]]"
    by (simp add: login_web_def demo_web_def first_state_def)
  moreover have "tables (wd_db (wb_world login_web)) = empty_db"
    by (simp add: login_web_def healthy_def)
  ultimately have "server_reachable login_server login_web"
    using server_reachable.start by metis
  then show ?thesis
    unfolding login_state_def by (intro server_reachable.request)
qed

theorem projects_have_one_owner_witness:
  "\<exists>p. db_projects (tables_of (Routes login_server (Instant 70) ''u'' first_create login_state)) = [p] \<and>
     length (filter (\<lambda>m. me_project_id m = pj_id p)
       (db_members (tables_of (Routes login_server (Instant 70) ''u'' first_create login_state)))) = 1"
proof -
  let ?s = "Routes login_server (Instant 70) ''u'' first_create login_state"
  have "length (db_projects (tables_of ?s)) = 1"
    by code_simp
  then obtain p where p: "db_projects (tables_of ?s) = [p]"
    by (auto simp: length_Suc_conv)
  with projects_have_one_owner [OF first_create_reachable, of p] show ?thesis
    by auto
qed

end
