(* ===== verification/Access_Model.thy ===== *)
theory Access_Model
  imports Project_Properties
begin

text \<open>
  An abstract specification of access control, and the refinement of it by the server: every request
  is, on the tables, a run of guarded events in which nobody but the user of the request acts, and in
  which a list of repositories changes only to what GitHub lists for that user. The second part
  traces access to private runs back to its origin, a request in which the viewer himself bound the
  repository.
\<close>

section \<open>The abstract machine\<close>

text \<open>Who manages which project, which repositories are bound to which, and which are listed for whom.\<close>

record access_model =
  am_managers :: "(int64 \<times> int64) set"
  am_bound :: "(int64 \<times> int64) set"
  am_listed :: "(int64 \<times> int64) set"

datatype access_event =
    Listed int64 "int64 set"
  | Created int64 int64
  | Bound int64 int64 int64
  | Unbound int64 int64 int64

text \<open>An event that its guard forbids gives nothing. A listing replaces the list of its user only.\<close>

fun access_step :: "access_event \<Rightarrow> access_model \<Rightarrow> access_model option" where
  "access_step (Listed user repos) m =
     Some (m\<lparr>am_listed := {l \<in> am_listed m. fst l \<noteq> user} \<union> Pair user ` repos\<rparr>)"
| "access_step (Created user project) m =
     (if project \<in> fst ` (am_managers m \<union> am_bound m) then None
      else Some (m\<lparr>am_managers := insert (project, user) (am_managers m)\<rparr>))"
| "access_step (Bound user project repo) m =
     (if (project, user) \<in> am_managers m \<and> (user, repo) \<in> am_listed m
      then Some (m\<lparr>am_bound := insert (project, repo) (am_bound m)\<rparr>) else None)"
| "access_step (Unbound user project repo) m =
     (if (project, user) \<in> am_managers m then Some (m\<lparr>am_bound := am_bound m - {(project, repo)}\<rparr>) else None)"

primrec access_run :: "access_event list \<Rightarrow> access_model \<Rightarrow> access_model option" where
  "access_run [] m = Some m"
| "access_run (e # es) m = Option.bind (access_step e m) (access_run es)"

text \<open>
  What a request that arrives in a state may do: the one who acts is the user of its session, and a
  listing is the one that GitHub gives for this user's own token in this request.
\<close>

fun permitted :: "('sk, 'pk) server \<Rightarrow> instant \<Rightarrow> http_request \<Rightarrow> web \<Rightarrow> access_event \<Rightarrow> bool" where
  "permitted a now r s (Listed user repos) \<longleftrightarrow>
     (\<exists>u. request_user now r (tables_of s) u \<and> usr_ID u = user) \<and>
     (\<exists>rows. listed_by_github a now user (tables_of s) (net_of s) rows \<and> repos = set (map ura_RepoID rows))"
| "permitted a now r s (Created user project) \<longleftrightarrow> (\<exists>u. request_user now r (tables_of s) u \<and> usr_ID u = user)"
| "permitted a now r s (Bound user project repo) \<longleftrightarrow> (\<exists>u. request_user now r (tables_of s) u \<and> usr_ID u = user)"
| "permitted a now r s (Unbound user project repo) \<longleftrightarrow> (\<exists>u. request_user now r (tables_of s) u \<and> usr_ID u = user)"

section \<open>The abstraction of the tables\<close>

definition manager_role :: "string \<Rightarrow> bool" where
  "manager_role role \<longleftrightarrow> ToLower (TrimSpace role) \<in> {''owner'', ''admin''}"

definition bound_repos :: "db \<Rightarrow> (int64 \<times> int64) set" where
  "bound_repos d = {binding_key b |b. b \<in> set (db_bindings d) \<and> live b}"

definition access_of :: "db \<Rightarrow> access_model" where
  "access_of d = \<lparr>
     am_managers = (\<lambda>m. (me_project_id m, me_user_id m)) ` set (filter (\<lambda>m. manager_role (me_role m)) (db_members d)),
     am_bound = bound_repos d,
     am_listed = {(user, repo). can_bind d user repo}\<rparr>"

lemma access_of_simps [simp]:
  "am_bound (access_of d) = bound_repos d"
  "(user, repo) \<in> am_listed (access_of d) \<longleftrightarrow> can_bind d user repo"
  by (simp_all add: access_of_def)

lemma manages_manager:
  assumes "manages d user slug project"
  shows "(project, user) \<in> am_managers (access_of d)"
proof -
  from assms obtain m where "m \<in> set (db_members d)" "me_project_id m = project" "me_user_id m = user" "manager_role (me_role m)"
    unfolding manages_def manager_role_def by blast
  then show ?thesis by (auto simp: access_of_def)
qed

lemma bound_iff:
  "unique_by binding_key (db_bindings d) \<Longrightarrow>
   k \<in> bound_repos d \<longleftrightarrow> (\<exists>b. lookup_by binding_key k (db_bindings d) = Some b \<and> live b)"
  by (auto simp: bound_repos_def dest: lookup_by_unique lookup_by_Some)

lemma bound_after_bind:
  assumes "unique_by binding_key (db_bindings d)" "live new"
    and "db_bindings d' = upsert_by binding_key (\<lambda>old new. new) new (db_bindings d)"
  shows "bound_repos d' = insert (binding_key new) (bound_repos d)"
proof -
  have u: "unique_by binding_key (db_bindings d')"
    unfolding assms(3) by (rule binding_table.unique_upsert [OF assms(1)])
  have "k \<in> bound_repos d' \<longleftrightarrow> k = binding_key new \<or> k \<in> bound_repos d" for k
    unfolding bound_iff [OF u] bound_iff [OF assms(1)] assms(3)
    using binding_table.lookup_upsert [of new "db_bindings d"] binding_table.frame_upsert [of k new "db_bindings d"] assms(2)
    by (cases "k = binding_key new") (auto split: option.splits)
  then show ?thesis by blast
qed

lemma live_after_revoking:
  assumes "db_bindings d' = update_where cond (\<lambda>b. b\<lparr>bi_revoked_at := Some t\<rparr>) (db_bindings d)"
  shows "bound_repos d' = {binding_key b |b. b \<in> set (db_bindings d) \<and> live b \<and> \<not> cond b}"
proof -
  have "b \<in> set (db_bindings d') \<and> live b \<longleftrightarrow> b \<in> set (db_bindings d) \<and> live b \<and> \<not> cond b" for b
    unfolding assms set_update_where by (auto simp: live_def image_iff)
  then show ?thesis by (simp add: bound_repos_def)
qed

lemma bound_after_unbind:
  assumes "db_bindings d' = update_where (\<lambda>b. binding_key b = k \<and> live b) (\<lambda>b. b\<lparr>bi_revoked_at := Some t\<rparr>) (db_bindings d)"
  shows "bound_repos d' = bound_repos d - {k}"
  unfolding live_after_revoking [OF assms] by (auto simp: bound_repos_def)

lemma access_of_projects:
  "project_rows d' = project_rows d \<Longrightarrow> am_managers (access_of d') = am_managers (access_of d)"
  by (simp add: access_of_def project_rows_def)

lemma bound_same: "db_bindings d' = db_bindings d \<Longrightarrow> bound_repos d' = bound_repos d"
  by (simp add: bound_repos_def)

section \<open>Every request is a run of the machine\<close>

text \<open>Two states of the machine in steps: the lists first, then the rest.\<close>

definition with_lists :: "db \<Rightarrow> db \<Rightarrow> access_model" where
  "with_lists d d' = (access_of d)\<lparr>am_listed := am_listed (access_of d')\<rparr>"

lemma with_lists_simps [simp]:
  "am_managers (with_lists d d') = am_managers (access_of d)" "am_bound (with_lists d d') = bound_repos d"
  "am_listed (with_lists d d') = am_listed (access_of d')"
  by (simp_all add: with_lists_def)

lemma access_of_eqI:
  "am_managers m = am_managers n \<Longrightarrow> am_bound m = am_bound n \<Longrightarrow> am_listed m = am_listed n \<Longrightarrow> m = (n :: access_model)"
  by simp

lemma listed_same: "db_access d' = db_access d \<Longrightarrow> am_listed (access_of d') = am_listed (access_of d)"
  by (simp add: access_of_def can_bind_def)

lemma listed_replaced:
  assumes "list_replaced user rows d d'"
  shows "am_listed (access_of d') = {l \<in> am_listed (access_of d). fst l \<noteq> user} \<union> Pair user ` set (map ura_RepoID rows)"
  using assms by (auto simp: access_of_def can_bind_def list_replaced_def has_key_set access_key_def access_rows_def image_iff) force

lemma listing_part:
  "\<exists>es. access_run es (access_of (tables_of s)) = Some (with_lists (tables_of s) (tables_of (Routes a now uuid r s))) \<and>
    list_all (permitted a now r s) es \<and> length es \<le> 1"
proof (cases "db_access (tables_of (Routes a now uuid r s)) = db_access (tables_of s)")
  case True
  then show ?thesis
    by (intro exI [of _ "[]"]) (simp add: with_lists_def listed_same [OF True])
next
  case False
  from Routes_access [OF False] obtain user rows where
    "request_user now r (tables_of s) user" "listed_by_github a now (usr_ID user) (tables_of s) (net_of s) rows"
    "list_replaced (usr_ID user) rows (tables_of s) (tables_of (Routes a now uuid r s))"
    by blast
  with listed_replaced [OF this(3)] show ?thesis
    by (intro exI [of _ "[Listed (usr_ID user) (set (map ura_RepoID rows))]"]) (auto simp: with_lists_def)
qed

lemma created_part:
  assumes "project_created now uid name d d'" "bound_repos d' = bound_repos d" "db_ok d"
  shows "access_step (Created uid (db_next_project d)) (with_lists d d') = Some (access_of d')"
proof -
  have "has_key pj_id project (db_projects d) \<Longrightarrow> project \<noteq> db_next_project d" for project
    using assms(3) by (fastforce simp: db_ok_def projects_ok_def list_all_iff has_key_set)
  then have "db_next_project d \<notin> fst ` am_managers (access_of d)" "db_next_project d \<notin> fst ` bound_repos d"
    using assms(3) by (fastforce simp: db_ok_def projects_ok_def list_all_iff access_of_def bound_repos_def binding_key_def)+
  moreover have "manager_role ''owner''"
    by code_simp
  then have "am_managers (access_of d') = insert (db_next_project d, uid) (am_managers (access_of d))"
    using assms(1) by (simp add: access_of_def project_created_def)
  ultimately show ?thesis
    using assms(2) by (auto simp: image_Un intro: access_of_eqI)
qed

lemma bound_part:
  assumes "bound_by_request a now user slug r d d'" "project_rows d' = project_rows d" "db_ok d"
  shows "\<exists>project repo. access_step (Bound (usr_ID user) project repo) (with_lists d d') = Some (access_of d')"
proof -
  from assms(1) obtain project repo where man: "manages d (usr_ID user) slug project" and listed: "can_bind d' (usr_ID user) repo"
    and rows: "db_bindings d' = upsert_by binding_key (\<lambda>old new. new)
      \<lparr>bi_project_id = project, bi_repo_id = repo, bi_bound_by = Some (usr_ID user), bi_bound_at = now, bi_revoked_at = None\<rparr>
      (db_bindings d)"
    by (auto simp: bound_by_request_def)
  have "bound_repos d' = insert (project, repo) (bound_repos d)"
    using bound_after_bind [OF _ _ rows] assms(3) by (simp add: live_def binding_key_def db_ok_def projects_ok_def)
  then show ?thesis
    using manages_manager [OF man] listed access_of_projects [OF assms(2)]
    by (intro exI [of _ project] exI [of _ repo]) (auto intro: access_of_eqI)
qed

lemma unbound_part:
  assumes "unbound_by_request now user slug r d d'" "project_rows d' = project_rows d"
  shows "\<exists>project repo. access_step (Unbound (usr_ID user) project repo) (with_lists d d') = Some (access_of d')"
proof -
  from assms(1) obtain project repo where man: "manages d (usr_ID user) slug project"
    and rows: "db_bindings d' = update_where (\<lambda>b. binding_key b = (project, repo) \<and> live b)
      (\<lambda>b. b\<lparr>bi_revoked_at := Some now\<rparr>) (db_bindings d)"
    by (auto simp: unbound_by_request_def)
  show ?thesis
    using manages_manager [OF man] bound_after_unbind [OF rows] access_of_projects [OF assms(2)]
    by (intro exI [of _ project] exI [of _ repo]) (auto intro: access_of_eqI)
qed

lemma access_run_append: "access_run (es @ es') m = Option.bind (access_run es m) (access_run es')"
  by (induction es arbitrary: m) (simp_all split: bind_splits)

lemma acting_part:
  assumes "0 \<le> sv_accessCacheTTL a" "db_ok (tables_of s)"
  shows "\<exists>es. access_run es (with_lists (tables_of s) (tables_of (Routes a now uuid r s))) = Some (access_of (tables_of (Routes a now uuid r s))) \<and>
    list_all (permitted a now r s) es \<and> length es \<le> 1"
proof -
  let ?d = "tables_of s" and ?d' = "tables_of (Routes a now uuid r s)"
  have one: ?thesis if "access_step e (with_lists ?d ?d') = Some (access_of ?d')" "permitted a now r s e" for e
    using that by (intro exI [of _ "[e]"]) simp
  consider (create) "project_rows ?d' \<noteq> project_rows ?d" "db_bindings ?d' = db_bindings ?d"
    | (bind) "project_rows ?d' = project_rows ?d" "db_bindings ?d' \<noteq> db_bindings ?d"
    | (list) "project_rows ?d' = project_rows ?d" "db_bindings ?d' = db_bindings ?d"
    using Routes_projects [of a now uuid r s] Routes_bindings [OF assms(1), of now uuid r s] by fastforce
  then show ?thesis
  proof cases
    case create
    from Routes_projects [OF create(1)] obtain user name where "request_user now r ?d user"
      and c: "project_created now (usr_ID user) name ?d ?d'"
      by blast
    with one [OF created_part [OF c bound_same [OF create(2)] assms(2)]] show ?thesis
      by auto
  next
    case bind
    from Routes_bindings [OF assms(1) bind(2)] obtain slug user where u: "request_user now r ?d user" and
      "bound_by_request a now user slug r ?d ?d' \<or> unbound_by_request now user slug r ?d ?d'"
      by blast
    with bound_part [OF _ bind(1) assms(2)] unbound_part [OF _ bind(1)] one show ?thesis
      by (metis permitted.simps(3,4))
  next
    case list
    have "with_lists ?d ?d' = access_of ?d'"
      using access_of_projects [OF list(1)] bound_same [OF list(2)] by (auto intro: access_of_eqI)
    then show ?thesis
      by (intro exI [of _ "[]"]) simp
  qed
qed

section \<open>Where access comes from\<close>

text \<open>
  \<open>server_later a s t\<close>: the server gets from \<open>s\<close> to \<open>t\<close> by requests, passes of the workers, restarts and
  whatever the outside does.
\<close>

inductive server_later :: "('sk, 'pk) server \<Rightarrow> web \<Rightarrow> web \<Rightarrow> bool" for a :: "('sk, 'pk) server" where
  same: "server_later a s s"
| restart: "server_later a s t \<Longrightarrow> server_later a s (first_state v (wb_world t) replies random)"
| request: "server_later a s t \<Longrightarrow> server_later a s (Routes a now uuid r t)"
| work: "server_later a s t \<Longrightarrow> server_later a s (t\<lparr>wb_world := snd (RunAll (worker :: 'sk worker) now (wb_world t))\<rparr>)"
| outside: "server_later a s t \<Longrightarrow>
    server_later a s (t\<lparr>wb_world := \<lparr>wd_db = (wd_db (wb_world t))\<lparr>coming := fs\<rparr>, wd_gh = g\<rparr>,
      wb_replies := replies, wb_random := random\<rparr>)"

text \<open>The binding \<open>b\<close> is what this request made, and what its user had shown for it.\<close>

definition made_by_request ::
  "('sk, 'pk) server \<Rightarrow> instant \<Rightarrow> http_request \<Rightarrow> user \<Rightarrow> string \<Rightarrow> db \<Rightarrow> db \<Rightarrow> bindings_row \<Rightarrow> bool" where
  "made_by_request a now r user slug d d' b \<longleftrightarrow>
     hr_Method r = ''POST'' \<and> hr_Segments r = [''projects'', slug, ''repos'', ''bind''] \<and>
     request_user now r d user \<and> manages d (usr_ID user) slug (bi_project_id b) \<and> form_repo r (bi_repo_id b) \<and>
     can_bind d' (usr_ID user) (bi_repo_id b) \<and>
     access_synced d' (usr_ID user) now (max (sv_accessCacheTTL a) (sv_accessMaxStaleness a)) \<and>
     bi_bound_by b = Some (usr_ID user) \<and> bi_bound_at b = now"

definition traced :: "('sk, 'pk) server \<Rightarrow> web \<Rightarrow> bindings_row \<Rightarrow> bool" where
  "traced a s b \<longleftrightarrow>
     (\<exists>s0 now uuid r user slug. server_reachable a s0 \<and> server_later a (Routes a now uuid r s0) s \<and>
        made_by_request a now r user slug (tables_of s0) (tables_of (Routes a now uuid r s0)) b)"

lemma live_after_request:
  assumes "0 \<le> sv_accessCacheTTL a" "b \<in> set (db_bindings (tables_of (Routes a now uuid r s)))" "live b"
  shows "b \<in> set (db_bindings (tables_of s)) \<or>
    (\<exists>user slug. made_by_request a now r user slug (tables_of s) (tables_of (Routes a now uuid r s)) b)"
proof (cases "db_bindings (tables_of (Routes a now uuid r s)) = db_bindings (tables_of s)")
  case False
  from Routes_bindings [OF assms(1) False] obtain slug user where meth: "hr_Method r = ''POST''"
    and user: "request_user now r (tables_of s) user" and
    cases: "hr_Segments r = [''projects'', slug, ''repos'', ''bind''] \<and>
        bound_by_request a now user slug r (tables_of s) (tables_of (Routes a now uuid r s)) \<or>
      unbound_by_request now user slug r (tables_of s) (tables_of (Routes a now uuid r s))"
    by blast
  from cases show ?thesis
  proof (elim disjE conjE)
    assume seg: "hr_Segments r = [''projects'', slug, ''repos'', ''bind'']"
      and "bound_by_request a now user slug r (tables_of s) (tables_of (Routes a now uuid r s))"
    then obtain project repo where b: "manages (tables_of s) (usr_ID user) slug project" "form_repo r repo"
      "can_bind (tables_of (Routes a now uuid r s)) (usr_ID user) repo"
      "access_synced (tables_of (Routes a now uuid r s)) (usr_ID user) now (max (sv_accessCacheTTL a) (sv_accessMaxStaleness a))"
      "db_bindings (tables_of (Routes a now uuid r s)) = upsert_by binding_key (\<lambda>old new. new)
        \<lparr>bi_project_id = project, bi_repo_id = repo, bi_bound_by = Some (usr_ID user), bi_bound_at = now,
         bi_revoked_at = None\<rparr> (db_bindings (tables_of s))"
      by (auto simp: bound_by_request_def)
    from binding_table.rows_upsert [OF assms(2) [unfolded b(5)]]
    show ?thesis
      using b(1-4) meth seg user by (auto simp: made_by_request_def)
  next
    assume "unbound_by_request now user slug r (tables_of s) (tables_of (Routes a now uuid r s))"
    with assms(2,3) show ?thesis
      by (auto simp: unbound_by_request_def set_update_where live_def split: if_splits)
  qed
qed (use assms(2) in simp)

lemma traced_later:
  assumes "traced a s b" "\<And>s0. server_later a s0 s \<Longrightarrow> server_later a s0 t"
  shows "traced a t b"
  using assms unfolding traced_def by blast

interpretation live_bindings: worker_invariant "\<lambda>d. \<forall>b \<in> set (db_bindings d). live b \<longrightarrow> b \<in> B" for B
  by unfold_locales (auto simp: set_update_where live_def split: if_splits)

lemma live_bindings_traced:
  assumes "server_reachable a s" "0 \<le> sv_accessCacheTTL a"
  shows "b \<in> set (db_bindings (tables_of s)) \<Longrightarrow> live b \<Longrightarrow> traced a s b"
  using assms(1)
proof (induction arbitrary: b rule: server_reachable.induct)
  case (start w v replies random)
  then show ?case by (simp add: first_state_def empty_db_def)
next
  case (restart s v replies random)
  then have "traced a s b" by (simp add: first_state_def)
  then show ?case by (rule traced_later) (rule server_later.restart)
next
  case (request s now uuid r)
  from live_after_request [OF assms(2) request.prems] show ?case
  proof
    assume "b \<in> set (db_bindings (tables_of s))"
    from request.IH [OF this request.prems(2)] show ?case
      by (rule traced_later) (rule server_later.request)
  next
    assume "\<exists>user slug. made_by_request a now r user slug (tables_of s) (tables_of (Routes a now uuid r s)) b"
    with request.hyps server_later.same show ?case unfolding traced_def by blast
  qed
next
  case (work s worker now)
  have "\<forall>b \<in> set (db_bindings (tables (wd_db (snd (RunAll worker now (wb_world s)))))). live b \<longrightarrow> b \<in> set (db_bindings (tables_of s))"
    by (rule preservesD [OF live_bindings.kept_by_workers]) simp
  with work.prems have "traced a s b" by (intro work.IH) auto
  then show ?case by (rule traced_later) (rule server_later.work)
next
  case (outside s fs g replies random)
  then have "traced a s b" by simp
  then show ?case by (rule traced_later) (rule server_later.outside)
qed

text \<open>Nobody ever leaves a project.\<close>

lemma members_stay_request: "set (db_members (tables_of s)) \<subseteq> set (db_members (tables_of (Routes a now uuid r s)))"
proof (cases "project_rows (tables_of (Routes a now uuid r s)) = project_rows (tables_of s)")
  case False
  from Routes_projects [OF False] show ?thesis
    by (auto simp: project_created_def)
qed (simp add: project_rows_def)

lemma members_stay: "server_later a s t \<Longrightarrow> set (db_members (tables_of s)) \<subseteq> set (db_members (tables_of t))"
proof (induction rule: server_later.induct)
  case (request s t now uuid r)
  then show ?case using members_stay_request by blast
next
  case (work s t worker now)
  have "project_rows (tables (wd_db (snd (RunAll worker now (wb_world t))))) = project_rows (tables_of t)"
    by (rule preservesD [OF projects_unworked.kept_by_workers]) simp
  with work show ?case by (simp add: project_rows_def)
qed (simp_all add: first_state_def)

lemma only_member:
  assumes "one_owner_each d" "db_ok d" "m \<in> set (db_members d)" "m' \<in> set (db_members d)" "me_project_id m' = me_project_id m"
  shows "m' = m"
proof -
  from assms(2,3) obtain p where p: "p \<in> set (db_projects d)" "pj_id p = me_project_id m"
    by (fastforce simp: db_ok_def projects_ok_def list_all_iff has_key_set)
  with assms(1) obtain owner where "filter (\<lambda>m. me_project_id m = pj_id p) (db_members d) =
      [\<lparr>me_project_id = pj_id p, me_user_id = owner, me_role = ''owner''\<rparr>]"
    by (auto simp: one_owner_each_def)
  moreover have "m \<in> set (filter (\<lambda>m. me_project_id m = pj_id p) (db_members d))"
    "m' \<in> set (filter (\<lambda>m. me_project_id m = pj_id p) (db_members d))"
    using assms(3-5) p(2) by simp_all
  ultimately show ?thesis by simp
qed

lemma made_by_member:
  assumes "made_by_request a now r user slug d d' b"
  shows "\<exists>m \<in> set (db_members d). me_project_id m = bi_project_id b \<and> bi_bound_by b = Some (me_user_id m)"
  using assms by (auto simp: made_by_request_def manages_def)

section \<open>Properties\<close>

text \<open>
  C9: Requests refine the access control model: what a request does to memberships, bindings and
  access lists is a run of at most two abstract events, each of which its guard allows (a new
  project is managed by its creator, only a manager of a project binds and unbinds, and binds
  only what is on his list) and each of which the request permits: whoever acts is the user
  of the request, and a list changes only for that user and only to what GitHub lists for
  his own token in this request.
\<close>

theorem requests_refine_access_model:
  assumes "0 \<le> sv_accessCacheTTL a" "db_ok (tables_of s)"
  shows "\<exists>es. access_run es (access_of (tables_of s)) = Some (access_of (tables_of (Routes a now uuid r s))) \<and>
    list_all (permitted a now r s) es \<and> length es \<le> 2"
proof -
  from listing_part [of s a now uuid r] obtain es where es:
    "access_run es (access_of (tables_of s)) = Some (with_lists (tables_of s) (tables_of (Routes a now uuid r s)))"
    "list_all (permitted a now r s) es" "length es \<le> 1"
    by blast
  from acting_part [OF assms, of now uuid r] obtain es' where
    "access_run es' (with_lists (tables_of s) (tables_of (Routes a now uuid r s))) = Some (access_of (tables_of (Routes a now uuid r s)))"
    "list_all (permitted a now r s) es'" "length es' \<le> 1"
    by blast
  with es show ?thesis
    by (intro exI [of _ "es @ es'"]) (simp add: access_run_append)
qed

lemma listing_tables: "tables_of listing_web = listing_site"
  by (simp add: listing_web_def first_state_def healthy_def)

theorem requests_refine_access_model_witness:
  "map bi_bound_at (db_bindings (tables_of (Routes listing_server (Instant 400000000000) ''u'' bind_request listing_web))) =
     [Instant 400000000000] \<and>
   (\<exists>es. access_run es (access_of listing_site) =
       Some (access_of (tables_of (Routes listing_server (Instant 400000000000) ''u'' bind_request listing_web))) \<and>
     list_all (permitted listing_server (Instant 400000000000) bind_request listing_web) es)"
proof
  show "map bi_bound_at (db_bindings (tables_of (Routes listing_server (Instant 400000000000) ''u'' bind_request listing_web))) =
      [Instant 400000000000]"
    by code_simp
  have "0 \<le> sv_accessCacheTTL listing_server" "db_ok (tables_of listing_web)"
    unfolding listing_tables by code_simp+
  from requests_refine_access_model [OF this, of "Instant 400000000000" "''u''" bind_request]
  show "\<exists>es. access_run es (access_of listing_site) =
       Some (access_of (tables_of (Routes listing_server (Instant 400000000000) ''u'' bind_request listing_web))) \<and>
     list_all (permitted listing_server (Instant 400000000000) bind_request listing_web) es"
    unfolding listing_tables by blast
qed

text \<open>
  C1: Access to private runs goes back to the viewer's own right: in every state that the server can
  reach, whoever sees the runs of a repository as a member sees them through a binding that he
  made himself, in an earlier request to the bind route of a project that he managed, which named
  this repository, when the list of repositories that GitHub gave for him held the repository
  and had been synchronised within the tolerated age.
\<close>

theorem readers_bound_it_themselves:
  fixes a :: "('sk, 'pk) server"
  assumes "server_reachable a s" "0 \<le> sv_accessCacheTTL a" "through_membership (tables_of s) (Some uid) repoID"
  shows "\<exists>b s0 now uuid r user slug. b \<in> set (db_bindings (tables_of s)) \<and> bi_revoked_at b = None \<and> bi_repo_id b = repoID \<and>
    server_reachable a s0 \<and> server_later a (Routes a now uuid r s0) s \<and>
    hr_Method r = ''POST'' \<and> hr_Segments r = [''projects'', slug, ''repos'', ''bind''] \<and>
    request_user now r (tables_of s0) user \<and> usr_ID user = uid \<and>
    manages (tables_of s0) uid slug (bi_project_id b) \<and> form_repo r repoID \<and>
    can_bind (tables_of (Routes a now uuid r s0)) uid repoID \<and>
    access_synced (tables_of (Routes a now uuid r s0)) uid now (max (sv_accessCacheTTL a) (sv_accessMaxStaleness a)) \<and>
    bi_bound_at b = now"
proof -
  from assms(3) obtain b m where b: "b \<in> set (db_bindings (tables_of s))" "bi_repo_id b = repoID" "bi_revoked_at b = None"
    and m: "m \<in> set (db_members (tables_of s))" "me_project_id m = bi_project_id b" "me_user_id m = uid"
    by (auto simp: through_membership_def)
  from live_bindings_traced [OF assms(1,2) b(1)] b(3) obtain s0 now uuid r user slug where
    s0: "server_reachable a s0" "server_later a (Routes a now uuid r s0) s" and
    made: "made_by_request a now r user slug (tables_of s0) (tables_of (Routes a now uuid r s0)) b"
    by (auto simp: live_def traced_def)
  from made_by_member [OF made] obtain m0 where m0: "m0 \<in> set (db_members (tables_of s0))"
    "me_project_id m0 = bi_project_id b" "bi_bound_by b = Some (me_user_id m0)"
    by blast
  have "m0 \<in> set (db_members (tables_of s))"
    using m0(1) members_stay_request members_stay [OF s0(2)] by blast
  with m m0(2) have "m0 = m"
    using only_member [OF server_one_owner [OF assms(1)]] server_reachable_ok [OF assms(1)] by metis
  with m0(3) m(3) made have "usr_ID user = uid"
    by (simp add: made_by_request_def)
  with b s0 made show ?thesis
    unfolding made_by_request_def by blast
qed

text \<open>
  A user signs in, makes the project \<open>my-lab\<close> and binds a repository that GitHub lists; all from the empty
  database.
\<close>

definition lab_server :: "(unit, unit) server" where
  "lab_server = login_server\<lparr>sv_lib := (sv_lib login_server)\<lparr>lb_github_json := (lb_github_json (sv_lib login_server))
     \<lparr>js_user_installations := js_user_installations (lb_github_json (sv_lib listing_server)),
      js_repositories := js_repositories demo_json\<rparr>\<rparr>\<rparr>"

definition lab_login :: web where
  "lab_login = Routes lab_server (Instant 60) ''u'' login_request login_web"

definition lab_cookies :: "(string \<times> string) list" where
  "lab_cookies = fold browser_accepts (wr_cookies (wb_out lab_login)) []"

definition lab_create :: web where
  "lab_create = Routes lab_server (Instant 70) ''u'' (create_request\<lparr>hr_Cookies := lab_cookies\<rparr>) lab_login"

definition lab_answers :: web where
  "lab_answers = lab_create\<lparr>wb_world := \<lparr>wd_db = (wd_db (wb_world lab_create))\<lparr>coming := []\<rparr>,
     wd_gh = \<lparr>gs_net = \<lparr>nt_sent = [], nt_answers = [Answer demo_answer, Answer demo_answer]\<rparr>, gs_tokens = []\<rparr>\<rparr>,
     wb_replies := [], wb_random := []\<rparr>"

definition lab_bind :: web where
  "lab_bind = Routes lab_server (Instant 80) ''u'' (bind_request\<lparr>hr_Cookies := lab_cookies,
     hr_Segments := [''projects'', ''my-lab'', ''repos'', ''bind'']\<rparr>) lab_answers"

lemma lab_reachable: "server_reachable lab_server lab_bind"
proof -
  have "login_web = first_state demo_verifier (wb_world login_web) [] [Inr [1, 2], Inr [3, 4]]"
    by (simp add: login_web_def demo_web_def first_state_def)
  moreover have "tables (wd_db (wb_world login_web)) = empty_db"
    by (simp add: login_web_def healthy_def)
  ultimately have "server_reachable lab_server login_web"
    using server_reachable.start by metis
  then show ?thesis
    unfolding lab_bind_def lab_answers_def lab_create_def lab_login_def
    by (intro server_reachable.request server_reachable.outside)
qed

theorem readers_bound_it_themselves_witness:
  "\<exists>(b :: bindings_row) s0 now uuid r (user :: user) slug. bi_repo_id b = 7 \<and>
     server_later lab_server (Routes lab_server now uuid r s0) lab_bind \<and> request_user now r (tables_of s0) user \<and>
     manages (tables_of s0) 1 slug (bi_project_id b)"
proof -
  have "is_member (tables_of lab_bind) (Some 1) 7" "0 \<le> sv_accessCacheTTL lab_server"
    by code_simp+
  with readers_bound_it_themselves [OF lab_reachable, of 1 7] show ?thesis
    unfolding is_member_iff by blast
qed

end
