(* ===== verification/Response_Properties.thy ===== *)
theory Response_Properties
  imports Web_Middleware Access_Model
begin

text \<open>
  What a client and the log get: every handler answers exactly once, with a status of a known set, and
  what the log says agrees with what was sent; how panics and late answers end.
\<close>

section \<open>Operations that write no response\<close>

lemma untouched_rows:
  "preserves (\<lambda>s. wb_out s = w) (upsert_listed now i repos rows)"
  "preserves (\<lambda>s. wb_out s = w) (listed_access_rows a now token insts rows)"
proof -
  show listed: "preserves (\<lambda>s. wb_out s = w) (upsert_listed now i repos rows)" for i repos rows
    by (induction repos arbitrary: rows) (simp_all, (intro preserve_rules untouched_rules; assumption?)+)
  show "preserves (\<lambda>s. wb_out s = w) (listed_access_rows a now token insts rows)"
    by (induction insts arbitrary: rows) (simp_all, (intro preserve_rules untouched_rules listed; assumption?)+)
qed

lemma untouched_ensure: "preserves (\<lambda>s. wb_out s = w) (ensureUserRepoAccess a now userID)"
  unfolding ensureUserRepoAccess_def sync_locked_def load_sync_def syncUserRepoAccess_def refresh_access_def Let_def
  by (intro preserve_rules untouched_rules untouched_rows)

section \<open>Answering once\<close>

definition unanswered :: "writer \<Rightarrow> bool" where
  "unanswered w \<longleftrightarrow> wr_status w = None \<and> wr_recorded w = 200"

definition answers :: "(writer \<Rightarrow> bool) \<Rightarrow> (web \<Rightarrow> web) \<Rightarrow> bool" where
  "answers Q f \<longleftrightarrow> (\<forall>s. unanswered (wb_out s) \<longrightarrow> Q (wb_out (f s)))"

named_theorems answer_rules \<open>rules for \<open>answers\<close>\<close>

lemma answersD: "answers Q f \<Longrightarrow> unanswered (wb_out s) \<Longrightarrow> Q (wb_out (f s))"
  by (simp add: answers_def)

lemma answers_out: "(\<And>w. unanswered w \<Longrightarrow> Q (f w)) \<Longrightarrow> answers Q (out f)"
  by (simp add: answers_def)

lemma answers_try_op [answer_rules]:
  assumes "\<And>w. preserves (\<lambda>s. wb_out s = w) m" "\<And>e. answers Q (h e)" "\<And>x. answers Q (f x)"
  shows "answers Q (try_op m h f)"
  unfolding answers_def
proof (intro allI impI)
  fix s :: web
  assume u: "unanswered (wb_out s)"
  obtain r s' where m: "m s = (r, s')"
    by (cases "m s")
  then have "wb_out s' = wb_out s"
    using preservesE [OF assms(1) refl m] by simp
  with u m show "Q (wb_out (try_op m h f s))"
    by (cases r) (auto simp: try_op_def intro: answersD [OF assms(2)] answersD [OF assms(3)])
qed

lemma answers_if [answer_rules]: "(c \<Longrightarrow> answers Q f) \<Longrightarrow> (\<not> c \<Longrightarrow> answers Q g) \<Longrightarrow> answers Q (if c then f else g)"
  by simp

lemma answers_option [answer_rules]:
  "(v = None \<Longrightarrow> answers Q f) \<Longrightarrow> (\<And>x. v = Some x \<Longrightarrow> answers Q (g x)) \<Longrightarrow>
   answers Q (case v of None \<Rightarrow> f | Some x \<Rightarrow> g x)"
  by (cases v) simp_all

lemma answers_sum [answer_rules]:
  "(\<And>e. v = Inl e \<Longrightarrow> answers Q (f e)) \<Longrightarrow> (\<And>x. v = Inr x \<Longrightarrow> answers Q (g x)) \<Longrightarrow>
   answers Q (case v of Inl e \<Rightarrow> f e | Inr x \<Rightarrow> g x)"
  by (cases v) simp_all

lemma answers_pair [answer_rules]: "(\<And>x y. v = (x, y) \<Longrightarrow> answers Q (f x y)) \<Longrightarrow> answers Q (case v of (x, y) \<Rightarrow> f x y)"
  by (cases v) simp

text \<open>Headers and cookies leave the request unanswered.\<close>

lemma answers_after_out:
  "(\<And>w. unanswered (g w) = unanswered w) \<Longrightarrow> answers Q f \<Longrightarrow> answers Q (\<lambda>s. f (out g s))"
  by (simp add: answers_def)

lemma unanswered_headers [simp]:
  "unanswered (header_Set k v w) = unanswered w" "unanswered (header_Add k v w) = unanswered w"
  "unanswered (SetCookie c w) = unanswered w" "unanswered (SetSessionCookie t e b w) = unanswered w"
  "unanswered (ClearSessionCookie b w) = unanswered w" "unanswered (SetOAuthStateCookie i t b w) = unanswered w"
  "unanswered (ClearOAuthStateCookie b w) = unanswered w"
  by (simp_all add: unanswered_def SetSessionCookie_def ClearSessionCookie_def SetOAuthStateCookie_def ClearOAuthStateCookie_def)

lemma answers_limited [answer_rules]:
  assumes "answers Q k" "\<And>msg w. unanswered w \<Longrightarrow> Q (http_Error msg 429 w)"
  shows "answers Q (allowPublicRouteRequest now r k)" "answers Q (allowIngestOwner now owner k)"
  using assms by (auto simp: answers_def allowPublicRouteRequest_def allowIngestOwner_def StatusTooManyRequests_def
      split: prod.split)

section \<open>The contract of responses\<close>

definition error_statuses :: "int set" where
  "error_statuses = {400, 401, 403, 404, 405, 429, 500, 502, 503}"

locale responses =
  fixes a :: "('sk, 'pk) server" and Q :: "writer \<Rightarrow> bool"
  assumes errors: "unanswered w \<Longrightarrow> code \<in> error_statuses \<Longrightarrow> Q (http_Error msg code w)"
    and error_pages: "unanswered (wb_out s) \<Longrightarrow> code \<in> error_statuses \<Longrightarrow> Q (wb_out (renderError a code msg s))"
    and pages: "unanswered (wb_out s) \<Longrightarrow> Q (wb_out (renderPage a p s))"
    and redirects: "unanswered w \<Longrightarrow> code \<in> {303, 307} \<Longrightarrow> Q (http_Redirect url code w)"
    and bodies: "unanswered w \<Longrightarrow> code \<in> {200, 202} \<Longrightarrow> Q (Write body (WriteHeader code w))"
begin

lemma answer_error: "code \<in> error_statuses \<Longrightarrow> answers Q (out (http_Error msg code))"
  by (rule answers_out) (rule errors)

lemma answer_error_page: "code \<in> error_statuses \<Longrightarrow> answers Q (renderError a code msg)"
  by (simp add: answers_def error_pages)

lemma answer_page: "answers Q (renderPage a p)"
  by (simp add: answers_def pages)

lemma answer_redirect: "code \<in> {303, 307} \<Longrightarrow> answers Q (out (http_Redirect url code))"
  by (rule answers_out) (rule redirects)

lemma answer_json: "code \<in> {200, 202} \<Longrightarrow> answers Q (write_json code body)"
  unfolding write_json_def by (rule answers_out) (simp add: bodies)

lemma answer_too_many: "unanswered w \<Longrightarrow> Q (http_Error msg 429 w)"
  by (rule errors) (simp_all add: error_statuses_def)

lemmas answering = answer_rules answer_error answer_error_page answer_page answer_redirect answer_json answer_too_many

lemma answer_with_user: "(\<And>user. answers Q (k user)) \<Longrightarrow> answers Q (with_user a u k)"
  unfolding with_user_def
  by (intro answering untouched_rules) (simp_all add: status_codes error_statuses_def)

lemma answer_with_project: "(\<And>p. answers Q (k p)) \<Longrightarrow> answers Q (with_project a r user k)"
  unfolding with_project_def projectFromPath_def
  by (intro answering untouched_rules) (simp_all add: status_codes error_statuses_def)

lemma answer_with_repo_id: "(\<And>i. answers Q (k i)) \<Longrightarrow> answers Q (with_repo_id a r k)"
  unfolding with_repo_id_def
  by (intro answering) (simp_all add: status_codes error_statuses_def)

lemmas answering_pages = answer_with_user answer_with_project answer_with_repo_id untouched_rules untouched_ensure

end

context responses
begin

lemma answer_login_pages:
  "answers Q (handleRoot a u)" "answers Q (handleGitHubLogin a now)" "answers Q (handleGitHubCallback a now r)"
  "answers Q (handleLogout a r)"
  subgoal unfolding handleRoot_def by (intro answering) (simp_all add: status_codes)
  subgoal unfolding handleGitHubLogin_def
    by (intro answering answering_pages answers_after_out) (simp_all add: status_codes error_statuses_def)
  subgoal unfolding handleGitHubCallback_def encrypt_refresh_def Let_def
    by (intro answering answering_pages answers_after_out preserve_rules) (simp_all add: status_codes error_statuses_def)
  subgoal
    unfolding handleLogout_def answers_def
    by (auto simp: on_store_def on_world_def status_codes intro!: redirects split: option.split prod.split)
  done

lemma answer_project_pages:
  "answers Q (handleDashboard a u)" "answers Q (handleCreateProject a now u r)" "answers Q (handleProject a u r)"
  "answers Q (handleProjectMembersPage a u r)" "answers Q (handleConnectReposPage a now u r)"
  "answers Q (handleBindRepo a now u r)" "answers Q (handleUnbindRepo a now u r)"
  unfolding handleDashboard_def handleCreateProject_def handleProject_def handleProjectMembersPage_def
    handleConnectReposPage_def handleBindRepo_def handleUnbindRepo_def Let_def
  by ((intro answering answering_pages; simp add: status_codes error_statuses_def)+)

lemma answer_public_pages:
  "answers Q (handleRunDetail a now u r)" "answers Q (handleRepoRuns a now u r)"
  unfolding handleRunDetail_def handleRepoRuns_def applyPublicCacheHeaders_def Let_def
  by ((intro answering answering_pages answers_after_out; simp add: status_codes error_statuses_def)+)

lemma answer_runs_ingest: "answers Q (handleRunsIngest a now uuid r)"
proof -
  have quota: "answers Q (within_quota a now owner k)" if "answers Q k" for owner k
    unfolding within_quota_def by (intro answering answering_pages that) (simp_all add: status_codes error_statuses_def)
  have store: "answers Q (store_upload a now uuid claims run)" for claims run
    unfolding store_upload_def by (intro answering answering_pages quota) (simp_all add: status_codes error_statuses_def)
  have code: "check_payload a claims body = Inl e \<Longrightarrow> snd e \<in> error_statuses" for claims body e
    by (auto simp: check_payload_def status_codes error_statuses_def split: if_splits sum.splits option.splits)
  show ?thesis
    unfolding handleRunsIngest_def
    by (intro answering answering_pages store; ((drule code, simp) | simp add: status_codes error_statuses_def))
qed

lemma answer_runs_token: "answers Q (handleRunsToken a now r)"
  unfolding answers_def
proof (intro allI impI)
  fix s :: web
  assume u: "unanswered (wb_out s)"
  show "Q (wb_out (handleRunsToken a now r s))"
  proof (cases "wb_oidcVerifier s")
    case None
    with u show ?thesis by (simp add: handleRunsToken_def errors status_codes error_statuses_def)
  next
    case v: (Some v)
    show ?thesis
    proof (cases "sv_runsTokenManager a")
      case None
      with u v show ?thesis by (simp add: handleRunsToken_def errors status_codes error_statuses_def)
    next
      case m: (Some m)
      show ?thesis
      proof (cases "bearerToken (hr_Header r ''Authorization'')")
        case None
        with u v m show ?thesis by (simp add: handleRunsToken_def errors status_codes error_statuses_def)
      next
        case b: (Some bearer)
        show ?thesis
          unfolding handleRunsToken_def v m b option.case Let_def
          by (rule answersD [OF _ u])
            (intro answering answering_pages; simp add: status_codes error_statuses_def)
      qed
    qed
  qed
qed

lemma answer_route:
  assumes "\<And>path. rt \<noteq> Static path"
  shows "answers Q (serve_route a now uuid rt r u)"
proof -
  have session: "answers Q (requireUser k u)" if "answers Q (k u)" for k
    unfolding requireUser_def by (intro answering that) (simp add: status_codes)
  have health: "answers Q handle_healthz"
    unfolding handle_healthz_def by (rule answers_out) (simp add: bodies status_codes)
  show ?thesis
    unfolding serve_route_def
    by (cases rt) (use assms in \<open>simp_all add: session health answer_login_pages answer_project_pages answer_public_pages
      answer_runs_ingest answer_runs_token\<close>)
qed

lemma answer_Routes:
  assumes "\<And>path. find_route (hr_Method r) (hr_Segments r) \<noteq> Some (Static path)"
  shows "Q (wb_out (Routes a now uuid r s))"
proof -
  have mux: "answers Q (mux a now uuid r u)" for u
    unfolding mux_def
    by (intro answering answer_route) (use assms in \<open>simp_all add: status_codes error_statuses_def\<close>)
  have "answers Q (loadCurrentUser a now r (mux a now uuid r))"
    unfolding loadCurrentUser_def
    by (intro answering answering_pages answers_after_out mux) (simp_all add: status_codes error_statuses_def)
  from answersD [OF this, of "s\<lparr>wb_out := new_writer\<rparr>"] show ?thesis
    by (simp add: Routes_def unanswered_def new_writer_def)
qed

end

section \<open>Known statuses, and a true log\<close>

definition known_statuses :: "int set" where
  "known_statuses = {200, 202, 303, 307} \<union> error_statuses"

text \<open>Templates that write nothing when they fail; the server executes them straight into the response.\<close>

definition complete_templates :: "templates \<Rightarrow> bool" where
  "complete_templates tp \<longleftrightarrow> (\<forall>p written e. tp_execute tp (page_funcs tp) p = (written, Inl e) \<longrightarrow> written = [])"

definition good_response :: "templates \<Rightarrow> writer \<Rightarrow> bool" where
  "good_response tp w \<longleftrightarrow>
     sent_status w \<in> known_statuses \<and> (complete_templates tp \<longrightarrow> wr_recorded w = sent_status w)"

lemma sent_Write: "sent_status (Write b w) = sent_status w"
  by (simp add: sent_status_def split: option.split)

lemma sent_simps:
  "wr_status w = None \<Longrightarrow> sent_status (WriteHeader code w) = code"
  "wr_status w = Some c \<Longrightarrow> sent_status (http_Error msg code w) = c"
  by (simp_all add: sent_status_def)

lemma rendered_error:
  assumes "unanswered (wb_out s)" "0 < code"
  shows "sent_status (wb_out (renderError a code msg s)) = code \<and> wr_recorded (wb_out (renderError a code msg s)) = code"
  using assms by (auto simp: renderError_def RenderWithStatus_def render_def Let_def unanswered_def sent_status_def
      split: sum.split)

lemma rendered_page:
  assumes "unanswered (wb_out s)"
  shows "good_response (lb_templates (sv_lib a)) (wb_out (renderPage a p s))"
proof (cases "tp_parse (lb_templates (sv_lib a)) (page_funcs (lb_templates (sv_lib a))) p")
  case (Inl e)
  with assms rendered_error [of s 500 a] show ?thesis
    by (simp add: renderPage_def Render_def render_def good_response_def known_statuses_def error_statuses_def status_codes)
next
  case parsed: (Inr _)
  obtain written res where x: "tp_execute (lb_templates (sv_lib a)) (page_funcs (lb_templates (sv_lib a))) p = (written, res)"
    by (cases "tp_execute (lb_templates (sv_lib a)) (page_funcs (lb_templates (sv_lib a))) p")
  let ?w = "header_Set ''Content-Type'' ''text/html; charset=utf-8'' (wb_out s)"
  show ?thesis
  proof (cases res)
    case (Inr _)
    with assms parsed x show ?thesis
      by (simp add: renderPage_def Render_def render_def good_response_def known_statuses_def unanswered_def sent_status_def Let_def)
  next
    case (Inl e)
    show ?thesis
    proof (cases "written = []")
      case True
      with assms parsed x Inl rendered_error [of "s\<lparr>wb_out := ?w\<rparr>" 500 a] show ?thesis
        by (simp add: renderPage_def Render_def render_def good_response_def known_statuses_def error_statuses_def status_codes Let_def)
    next
      case False
      then have "\<not> complete_templates (lb_templates (sv_lib a))"
        using x Inl by (auto simp: complete_templates_def)
      moreover have "wr_status (wb_out (renderPage a p s)) = Some 200"
        using assms parsed x Inl False
        by (auto simp: renderPage_def renderError_def Render_def RenderWithStatus_def render_def unanswered_def Let_def
            split: sum.split)
      ultimately show ?thesis
        by (simp add: good_response_def known_statuses_def sent_status_def)
    qed
  qed
qed

interpretation good: responses a "good_response (lb_templates (sv_lib a))" for a
proof unfold_locales
  fix s :: web and code msg
  assume "unanswered (wb_out s)" "code \<in> error_statuses"
  moreover from this have "0 < code"
    by (auto simp: error_statuses_def)
  ultimately show "good_response (lb_templates (sv_lib a)) (wb_out (renderError a code msg s))"
    using rendered_error [of s code a msg] by (simp add: good_response_def known_statuses_def)
next
  fix s :: web and p
  assume "unanswered (wb_out s)"
  then show "good_response (lb_templates (sv_lib a)) (wb_out (renderPage a p s))"
    by (rule rendered_page)
qed (auto simp: good_response_def known_statuses_def unanswered_def sent_Write sent_simps)

section \<open>Properties\<close>

text \<open>
  C16: Every request that is not for a static file (whose answers are those of Go's file server), be it
  to a route of the program, with a wrong method or to no route, is answered with one of the statuses
  200, 202, 303, 307, 400, 401, 403, 404, 405, 429, 500, 502 and 503; and the status in the log is the one
  that was sent, provided that the page templates write nothing when they fail (a failing template that
  has written already leaves a page with 200 and a log line with 500).
\<close>

theorem responses_known_and_logged:
  assumes "\<And>path. find_route (hr_Method r) (hr_Segments r) \<noteq> Some (Static path)"
  shows "status_of (Routes a now uuid r s) \<in> known_statuses \<and>
    (complete_templates (lb_templates (sv_lib a)) \<longrightarrow>
       fst (Handler a now uuid (\<lambda>_. None) False r s) =
         (Returned, [RequestLine (hr_Method r) (hr_Segments r) (status_of (Routes a now uuid r s))]))"
proof -
  have "good_response (lb_templates (sv_lib a)) (wb_out (Routes a now uuid r s))"
    by (rule good.answer_Routes) (rule assms)
  then show ?thesis
    by (simp add: good_response_def Handler_calm)
qed

theorem responses_known_and_logged_witness:
  "fst (Handler demo_server (Instant 2000000000) ''u1'' (\<lambda>_. None) False demo_http (demo_web empty_db)) =
     (Returned, [RequestLine ''POST'' [''runs''] 202])"
proof -
  have route: "\<And>path. find_route (hr_Method demo_http) (hr_Segments demo_http) \<noteq> Some (Static path)"
    by (simp add: demo_http_def find_route_def post_route_def)
  have "complete_templates (lb_templates (sv_lib demo_server))"
    by (simp add: complete_templates_def demo_server_def NewServer_def demo_libraries_def demo_templates_def)
  moreover have "status_of (Routes demo_server (Instant 2000000000) ''u1'' demo_http (demo_web empty_db)) = 202"
    by code_simp
  moreover have "hr_Method demo_http = ''POST''" "hr_Segments demo_http = [''runs'']"
    by (simp_all add: demo_http_def)
  ultimately show ?thesis
    using responses_known_and_logged [OF route, of demo_server "Instant 2000000000" "''u1''" "demo_web empty_db"] by simp
qed

text \<open>
  C17: No panic gets past the middleware: wherever a handler panics, the request is answered and logged
  once; the client gets 500 unless the handler had already written a status, which then
  stands, and the log says 500 in either case. A request that is too late is answered with 503, and
  what its handler did to the database stands all the same.
\<close>

theorem panics_are_answered:
  assumes "crash (request_start s) = Some (v, s')"
  shows "fst (Handler a now uuid crash late r s) =
      (Returned, [PanicLine v, RequestLine (hr_Method r) (hr_Segments r) 500]) \<and>
    status_of (snd (Handler a now uuid crash late r s)) =
      (if late then 503 else case wr_status (wb_out s') of None \<Rightarrow> 500 | Some code \<Rightarrow> code) \<and>
    wb_world (snd (Handler a now uuid crash late r s)) = wb_world s'"
  using Handler_crash [where crash = crash, of s v s' a now uuid r] assms
  by (cases late) (simp_all add: Handler_late sent_Write sent_simps new_writer_def sent_status_def split: option.split)

theorem panics_are_answered_witness:
  "status_of (snd (Handler demo_server (Instant 1) ''u'' (\<lambda>s. Some (''nil'', s)) False demo_http (demo_web empty_db))) = 500"
proof -
  have "wr_status (wb_out (request_start (demo_web empty_db))) = None"
    by (simp add: request_start_def new_writer_def)
  with panics_are_answered [of "\<lambda>s. Some (''nil'', s)" "demo_web empty_db" "''nil''" "request_start (demo_web empty_db)"
      demo_server "Instant 1" "''u''" False demo_http]
  show ?thesis by simp
qed

end
