(* ===== verification/Run_Page.thy ===== *)
theory Run_Page
  imports Server_Properties
begin

text \<open>
  What the page of a run tells a visitor who is no member: nothing of the command lines in the stored
  payload, although the handler hands the whole run, payload included, to the template.
\<close>

section \<open>The template\<close>

text \<open>
  \<open>templates/run.html\<close> reads of the run its repository name, commit, branch, actor, event and creation
  time, and of the payload only what \<open>buildRunSummaryView\<close> made of it.
\<close>

definition payload_unread :: "('sk, 'pk) server \<Rightarrow> bool" where
  "payload_unread a \<longleftrightarrow>
     (\<forall>u run json v owner repo m.
        let tp = lb_templates (sv_lib a); page = RunPage u run v owner repo m;
            page' = RunPage u (run\<lparr>run_EgressJSON := json\<rparr>) v owner repo m
        in tp_parse tp (page_funcs tp) page' = tp_parse tp (page_funcs tp) page \<and>
           tp_execute tp (page_funcs tp) page' = tp_execute tp (page_funcs tp) page)"

lemma payload_unread_render:
  assumes "payload_unread a"
  shows "Render (lb_templates (sv_lib a)) (RunPage u (run\<lparr>run_EgressJSON := json\<rparr>) v owner repo m) w =
    Render (lb_templates (sv_lib a)) (RunPage u run v owner repo m) w"
proof -
  let ?tp = "lb_templates (sv_lib a)"
  have "tp_parse ?tp (page_funcs ?tp) (RunPage u (run\<lparr>run_EgressJSON := json\<rparr>) v owner repo m) =
      tp_parse ?tp (page_funcs ?tp) (RunPage u run v owner repo m)"
    "tp_execute ?tp (page_funcs ?tp) (RunPage u (run\<lparr>run_EgressJSON := json\<rparr>) v owner repo m) =
      tp_execute ?tp (page_funcs ?tp) (RunPage u run v owner repo m)"
    using assms unfolding payload_unread_def Let_def by blast+
  then show ?thesis by (simp only: Render_def render_def)
qed

section \<open>Runs that look the same to a stranger\<close>

text \<open>
  Two payloads that differ only in the command lines, executables, parents and start times of their
  trees, at any depth.
\<close>

definition same_public_payload :: "(string \<Rightarrow> string + runSummaryPayload) \<Rightarrow> string \<Rightarrow> string \<Rightarrow> bool" where
  "same_public_payload unmarshal json json' \<longleftrightarrow>
     (\<exists>payload payload'. unmarshal json = Inr payload \<and> unmarshal json' = Inr payload' \<and>
        map_option public_part (LineageTree payload) = map_option public_part (LineageTree payload') \<and>
        Errors payload = Errors payload')"

text \<open>Two rows that differ only so, of a repository for which the viewer is no member.\<close>

definition same_to_stranger :: "(string \<Rightarrow> string + runSummaryPayload) \<Rightarrow> db \<Rightarrow> int64 option \<Rightarrow> runs_row \<Rightarrow> runs_row \<Rightarrow> bool" where
  "same_to_stranger unmarshal d viewer r r' \<longleftrightarrow>
     r' = r \<or>
     \<not> through_membership d viewer (rr_repo_id r) \<and>
     (\<exists>json. r' = r\<lparr>rr_egress_json := json\<rparr> \<and> same_public_payload unmarshal (rr_egress_json r) json)"

definition alike_runs :: "(string \<Rightarrow> string + runSummaryPayload) \<Rightarrow> run \<Rightarrow> run \<Rightarrow> bool" where
  "alike_runs unmarshal run run' \<longleftrightarrow>
     run' = run \<or>
     \<not> run_ViewerIsMember run \<and>
     (\<exists>json. run' = run\<lparr>run_EgressJSON := json\<rparr> \<and> same_public_payload unmarshal (run_EgressJSON run) json)"

lemma alike_view:
  assumes "alike_runs unmarshal run run'"
  shows "buildRunSummaryView unmarshal run' (run_ViewerIsMember run') = buildRunSummaryView unmarshal run (run_ViewerIsMember run)"
proof (cases "run' = run")
  case False
  with assms obtain json payload payload' where run': "\<not> run_ViewerIsMember run" "run' = run\<lparr>run_EgressJSON := json\<rparr>"
    and p: "unmarshal (run_EgressJSON run) = Inr payload" "unmarshal json = Inr payload'"
      "map_option public_part (LineageTree payload) = map_option public_part (LineageTree payload')" "Errors payload = Errors payload'"
    by (auto simp: alike_runs_def same_public_payload_def)
  have "formatRunLineageRootLabel run' = formatRunLineageRootLabel run"
    by (simp add: run'(2) formatRunLineageRootLabel_def Let_def cong: if_cong)
  with public_view_hides_cmdline [of unmarshal run' payload' run payload] run' p show ?thesis
    by simp
qed simp

lemma scanRun_alike:
  assumes "same_to_stranger unmarshal d viewer r r'"
  shows "rel_option (alike_runs unmarshal) (visible_run d viewer r) (visible_run d viewer r')"
proof (cases "r' = r")
  case False
  with assms obtain json where s: "\<not> is_member d viewer (rr_repo_id r)" "r' = r\<lparr>rr_egress_json := json\<rparr>"
    "same_public_payload unmarshal (rr_egress_json r) json"
    by (auto simp: same_to_stranger_def is_member_iff)
  have "scanRun r' rp False = (scanRun r rp False)\<lparr>run_EgressJSON := json\<rparr>"
    "\<not> run_ViewerIsMember (scanRun r rp False)" "run_EgressJSON (scanRun r rp False) = rr_egress_json r" for rp
    by (simp_all add: s(2) scanRun_def cong: option.case_cong)
  with s(3) have "alike_runs unmarshal (scanRun r rp False) (scanRun r' rp False)" for rp
    unfolding alike_runs_def by metis
  with s show ?thesis
    by (auto simp: visible_run_def split: option.split)
qed (simp add: alike_runs_def option.rel_refl)

lemma lookup_alike:
  assumes "list_all2 (same_to_stranger unmarshal d viewer) rows rows'"
  shows "rel_option (alike_runs unmarshal) (Option.bind (lookup_by rr_public_id uuid rows) (visible_run d viewer))
    (Option.bind (lookup_by rr_public_id uuid rows') (visible_run d viewer))"
  using assms
proof (induction rows rows' rule: list_all2_induct)
  case (Cons r rows r' rows')
  then have "rr_public_id r' = rr_public_id r"
    by (auto simp: same_to_stranger_def)
  with Cons scanRun_alike show ?case by simp
qed simp

section \<open>The page\<close>

lemma fst_query_row_eq:
  "fst (query_row q s) =
     (case fst (next_fate (coming s)) of
        None \<Rightarrow> (case q (tables s) of None \<Rightarrow> Inl NoRows | Some v \<Rightarrow> Inr v)
      | Some (Before e) \<Rightarrow> Inl e
      | Some (After e) \<Rightarrow> Inl e)"
  by (simp add: query_row_def query_def exec_def bind_result_def split: prod.split option.split fault.split)

lemma GetRunByPublicID_alike:
  assumes "list_all2 (same_to_stranger unmarshal d viewer) (db_runs d) rows"
  shows "rel_sum (=) (alike_runs unmarshal) (fst (GetRunByPublicID pt pid viewer (p\<lparr>tables := d\<rparr>)))
    (fst (GetRunByPublicID pt pid viewer (p\<lparr>tables := d\<lparr>db_runs := rows\<rparr>\<rparr>)))"
proof (cases "uuid_in pt pid")
  case None
  have "fst (query (\<lambda>d. Inl invalid_text :: run result) (p\<lparr>tables := d\<rparr>)) =
      fst (query (\<lambda>d. Inl invalid_text) (p\<lparr>tables := d\<lparr>db_runs := rows\<rparr>\<rparr>))"
    by (rule fst_query_same) simp
  with None show ?thesis
    by (simp add: GetRunByPublicID_def fst_or_not_found fst_wrap_err) (rule sum.rel_refl; simp add: alike_runs_def)
next
  case (Some uuid)
  have "is_member (d\<lparr>db_runs := rows\<rparr>) viewer = is_member d viewer"
    by (simp add: is_member_def fun_eq_iff cong: option.case_cong)
  then have "visible_run (d\<lparr>db_runs := rows\<rparr>) viewer = visible_run d viewer"
    by (simp add: visible_run_def fun_eq_iff cong: option.case_cong if_cong)
  with lookup_alike [OF assms, of uuid] Some show ?thesis
    by (auto simp: GetRunByPublicID_def fst_or_not_found fst_wrap_err fst_query_row_eq alike_runs_def
        split: option.splits fault.splits)
qed

lemma alike_try_op:
  assumes "rel_sum (=) R (fst (on_store m s)) (fst (on_store m t))" "wb_out s = wb_out t"
    and "\<And>e s t. wb_out s = wb_out t \<Longrightarrow> wb_out (h e s) = wb_out (h e t)"
    and "\<And>x y s t. R x y \<Longrightarrow> wb_out s = wb_out t \<Longrightarrow> wb_out (f x s) = wb_out (f y t)"
  shows "wb_out (try_op (on_store m) h f s) = wb_out (try_op (on_store m) h f t)"
proof -
  obtain r s' where s: "on_store m s = (r, s')" by (cases "on_store m s")
  obtain r' t' where t: "on_store m t = (r', t')" by (cases "on_store m t")
  have "rel_sum (=) R r r'" "wb_out s' = wb_out t'"
    using assms(1,2) out_on_store [of m s] out_on_store [of m t] by (simp_all add: s t)
  from this(1) show ?thesis
  proof cases
    case (1 e e')
    with assms(3) [OF \<open>wb_out s' = wb_out t'\<close>, of e] s t show ?thesis by (simp add: try_op_def)
  next
    case (2 x y)
    with assms(4) [OF \<open>R x y\<close> \<open>wb_out s' = wb_out t'\<close>] s t show ?thesis by (simp add: try_op_def)
  qed
qed

lemma alike_page:
  assumes "alike_runs (lb_summary (sv_lib a)) run run'" "payload_unread a" "wb_out s = wb_out t"
  shows "wb_out (renderPage a (RunPage u run (buildRunSummaryView (lb_summary (sv_lib a)) run (run_ViewerIsMember run)) owner repo
      (run_ViewerIsMember run)) s) =
    wb_out (renderPage a (RunPage u run' (buildRunSummaryView (lb_summary (sv_lib a)) run' (run_ViewerIsMember run')) owner repo
      (run_ViewerIsMember run')) t)"
proof (cases "run' = run")
  case True
  then show ?thesis using same_renderPage [OF assms(3)] by simp
next
  case False
  with assms(1) obtain json where run': "run' = run\<lparr>run_EgressJSON := json\<rparr>"
    by (auto simp: alike_runs_def)
  have page: "renderPage a (RunPage u run' v owner repo m) t = renderPage a (RunPage u run v owner repo m) t" for v m
    by (simp only: renderPage_def run' payload_unread_render [OF assms(2)])
  have viewer: "run_ViewerIsMember run' = run_ViewerIsMember run"
    by (simp add: run')
  show ?thesis
    unfolding alike_view [OF assms(1)] unfolding viewer page by (rule same_renderPage [OF assms(3)])
qed

lemma alike_name: "alike_runs unmarshal run run' \<Longrightarrow> run_RepoFullName run' = run_RepoFullName run"
  by (auto simp: alike_runs_def)

section \<open>Properties\<close>

text \<open>
  C22: The page of a run shows no command line to a visitor who is not a member: when two stored
  runs differ only in command lines, executables, parents and start times of their trees (at any
  depth), every visitor who is no member for their repository gets the same response for both,
  for every decoder of the payload and every template that does not read the payload of the run
  by itself.
\<close>

theorem run_page_hides_cmdline:
  assumes "list_all2 (same_to_stranger (lb_summary (sv_lib a)) d (map_option usr_ID u)) (db_runs d) rows"
    and "payload_unread a"
  shows "wb_out (handleRunDetail a now u r (with_tables (d\<lparr>db_runs := rows\<rparr>) s)) =
    wb_out (handleRunDetail a now u r (with_tables d s))"
proof -
  let ?p = "wd_db (wb_world s)" and ?d' = "d\<lparr>db_runs := rows\<rparr>"
  let ?load = "\<lambda>pid. on_store (GetRunByPublicID (lb_pg_types (sv_lib a)) pid (map_option usr_ID u))"
  have "rel_sum (=) (alike_runs (lb_summary (sv_lib a))) (fst (?load pid s1)) (fst (?load pid s2))"
    if "wd_db (wb_world s1) = ?p\<lparr>tables := d\<rparr>" "wd_db (wb_world s2) = ?p\<lparr>tables := ?d'\<rparr>" for pid s1 s2
    using GetRunByPublicID_alike [OF assms(1)] that by (simp add: fst_on_store)
  then have "wb_out (handleRunDetail a now u r (with_tables d s)) = wb_out (handleRunDetail a now u r (with_tables ?d' s))"
    unfolding handleRunDetail_def Let_def
    by (intro same_limited)
      (auto simp: with_tables_def applyPublicCacheHeaders_def alike_name
        intro!: alike_try_op [where R = "alike_runs (lb_summary (sv_lib a))"] same_renderError alike_page assms(2) split: prod.split)
  then show ?thesis ..
qed

text \<open>A template that prints the labels of the tree, and a public repository with a run whose command line changes.\<close>

definition secret_server :: "(unit, unit) server" where
  "secret_server = demo_server\<lparr>sv_lib := (sv_lib demo_server)\<lparr>lb_summary := (\<lambda>raw. Inr (example_payload raw)),
     lb_templates := demo_templates\<lparr>tp_execute := (\<lambda>_ p. (case p of
       RunPage u run v owner repo m \<Rightarrow> concat (map nv_Label (view_nodes (LineageRoots v))) | _ \<Rightarrow> [], Inr ()))\<rparr>\<rparr>\<rparr>"

definition public_db :: "string \<Rightarrow> db" where
  "public_db cmdline = demo_db\<lparr>db_repos := [demo_repo_row\<lparr>rp_visibility := ''public''\<rparr>],
     db_runs := [demo_row\<lparr>rr_egress_json := cmdline\<rparr>]\<rparr>"

definition run_page_of :: "user option \<Rightarrow> string \<Rightarrow> writer" where
  "run_page_of u cmdline = wb_out (handleRunDetail secret_server (Instant 60) u (demo_http\<lparr>hr_PathValue := (\<lambda>_. ''p1'')\<rparr>)
     (with_tables (public_db cmdline) (demo_web empty_db)))"

theorem run_page_hides_cmdline_witness:
  "run_page_of None ''sh -c 2'' = run_page_of None ''sh -c 1'' \<and>
   wr_body (run_page_of (Some (user_view demo_db (hd (db_users demo_db)))) ''sh -c 2'') \<noteq>
   wr_body (run_page_of (Some (user_view demo_db (hd (db_users demo_db)))) ''sh -c 1'')"
proof
  have "same_public_payload (lb_summary (sv_lib secret_server)) ''sh -c 1'' ''sh -c 2''"
    by (simp add: same_public_payload_def secret_server_def example_payload_def example_node_def)
  then have "same_to_stranger (lb_summary (sv_lib secret_server)) (public_db ''sh -c 1'') None
      (demo_row\<lparr>rr_egress_json := ''sh -c 1''\<rparr>) (demo_row\<lparr>rr_egress_json := ''sh -c 2''\<rparr>)"
    unfolding same_to_stranger_def
    by (intro disjI2 conjI exI [of _ "''sh -c 2''"]) (simp_all add: through_membership_def)
  then have "list_all2 (same_to_stranger (lb_summary (sv_lib secret_server)) (public_db ''sh -c 1'') (map_option usr_ID None))
      (db_runs (public_db ''sh -c 1'')) [demo_row\<lparr>rr_egress_json := ''sh -c 2''\<rparr>]"
    by (simp add: public_db_def)
  moreover have "payload_unread secret_server"
    by (simp add: payload_unread_def secret_server_def demo_server_def NewServer_def demo_libraries_def demo_templates_def Let_def)
  moreover have "(public_db ''sh -c 1'')\<lparr>db_runs := [demo_row\<lparr>rr_egress_json := ''sh -c 2''\<rparr>]\<rparr> = public_db ''sh -c 2''"
    by (simp add: public_db_def)
  ultimately show "run_page_of None ''sh -c 2'' = run_page_of None ''sh -c 1''"
    using run_page_hides_cmdline [of secret_server "public_db ''sh -c 1''" None] unfolding run_page_of_def by metis
  show "wr_body (run_page_of (Some (user_view demo_db (hd (db_users demo_db)))) ''sh -c 2'') \<noteq>
    wr_body (run_page_of (Some (user_view demo_db (hd (db_users demo_db)))) ''sh -c 1'')"
    by code_simp
qed

end
