(* ===== verification/Sync_Interleaving.thy ===== *)
theory Sync_Interleaving
  imports Access_Properties
begin

text \<open>
  \<open>ensureUserRepoAccess\<close> of \<open>server/web/handler/server.go\<close> as it runs in several requests at once: each
  request is a thread that goes through the phases of the function, a step of one thread is an access to the
  database or the synchronisation with GitHub, and the mutex of the user (\<open>userSyncLock\<close>) is held from
  \<open>lock.Lock()\<close> to the deferred \<open>Unlock\<close>. Between the steps anything else may happen to the state, except
  that no other code writes the table of synchronisations.
\<close>

section \<open>One thread\<close>

datatype sync_phase =
    Begin
  | Waiting
  | Holding
  | Deciding userAccessSync instant
  | Failing userAccessSync instant error
  | Succeeding
  | Finished "bool result"

fun holds_lock :: "sync_phase \<Rightarrow> bool" where
  "holds_lock Holding = True"
| "holds_lock (Deciding st t) = True"
| "holds_lock (Failing st t err) = True"
| "holds_lock Succeeding = True"
| "holds_lock p = False"

fun advance :: "('sk, 'pk) server \<Rightarrow> 'sk client \<Rightarrow> instant \<Rightarrow> int64 \<Rightarrow> sync_phase \<Rightarrow> web \<Rightarrow> sync_phase \<times> web" where
  "advance a c now user Begin s =
     (case load_sync user s of
        (Inl e, s') \<Rightarrow> (Finished (Inl e), s')
      | (Inr st, s') \<Rightarrow> (if synced_within now (sv_accessCacheTTL a) st then Finished (Inr False) else Waiting, s'))"
| "advance a c now user Waiting s = (Holding, s)"
| "advance a c now user Holding s =
     (case load_sync user s of
        (Inl e, s') \<Rightarrow> (Finished (Inl e), s')
      | (Inr st, s') \<Rightarrow> (if synced_within now (sv_accessCacheTTL a) st then Finished (Inr False) else Deciding st now, s'))"
| "advance a c now user (Deciding st t) s =
     (case syncUserRepoAccess a c now user s of
        (Inl err, s') \<Rightarrow> (Failing st t err, s')
      | (Inr _, s') \<Rightarrow> (Succeeding, s'))"
| "advance a c now user (Failing st t err) s =
     (case on_store (UpsertUserAccessSync user (uas_SyncedAt st) t (Some (error_text err)) (uas_ETag st)) s of
        (_, s') \<Rightarrow> (Finished (if synced_within t (sv_accessMaxStaleness a) st then Inr True else Inl err), s'))"
| "advance a c now user Succeeding s =
     (case on_store (UpsertUserAccessSync user (Some now) now None None) s of
        (Inl e, s') \<Rightarrow> (Finished (Inl e), s')
      | (Inr _, s') \<Rightarrow> (Finished (Inr False), s'))"
| "advance a c now user (Finished r) s = (Finished r, s)"

text \<open>Steps that a thread still has to do at most.\<close>

fun steps_left :: "sync_phase \<Rightarrow> nat" where
  "steps_left Begin = 5"
| "steps_left Waiting = 4"
| "steps_left Holding = 3"
| "steps_left (Deciding st t) = 2"
| "steps_left (Failing st t err) = 1"
| "steps_left Succeeding = 1"
| "steps_left (Finished r) = 0"

lemma advance_progress: "steps_left p \<noteq> 0 \<Longrightarrow> steps_left (fst (advance a c now user p s)) < steps_left p"
  by (cases "(a, c, now, user, p, s)" rule: advance.cases) (auto split: prod.split sum.split)

fun run_alone :: "nat \<Rightarrow> ('sk, 'pk) server \<Rightarrow> 'sk client \<Rightarrow> instant \<Rightarrow> int64 \<Rightarrow> sync_phase \<times> web \<Rightarrow> sync_phase \<times> web" where
  "run_alone 0 a c now user x = x"
| "run_alone (Suc n) a c now user x = run_alone n a c now user (advance a c now user (fst x) (snd x))"

lemma alone_finished: "run_alone n a c now user (Finished r, s) = (Finished r, s)"
  by (induction n) simp_all

lemma alone_ensure:
  assumes "sv_githubAppClient a = Some c"
  shows "run_alone 5 a c now user (Begin, s) =
    (case ensureUserRepoAccess a now user s of (r, s') \<Rightarrow> (Finished r, s'))"
proof -
  have five: "run_alone 5 a c now user x = run_alone 4 a c now user (advance a c now user (fst x) (snd x))"
    and four: "run_alone 4 a c now user x = run_alone 3 a c now user (advance a c now user (fst x) (snd x))"
    and three: "run_alone 3 a c now user x = run_alone 2 a c now user (advance a c now user (fst x) (snd x))"
    and two: "run_alone 2 a c now user x = run_alone 1 a c now user (advance a c now user (fst x) (snd x))"
    and one: "run_alone 1 a c now user x = advance a c now user (fst x) (snd x)" for x
    by (simp_all add: numeral_eq_Suc)
  have locked: "run_alone 3 a c now user (Holding, s) = (case sync_locked a c now user s of (r, s') \<Rightarrow> (Finished r, s'))" for s
    unfolding three
    by (auto simp: sync_locked_def bind_op_def catch_op_def ret_def fail_def alone_finished two one
        split: prod.splits sum.splits if_splits)
  show ?thesis
    unfolding five ensureUserRepoAccess_def
    by (auto simp: assms bind_op_def ret_def alone_finished four locked split: prod.splits sum.splits if_splits)
qed

section \<open>Threads and locks\<close>

text \<open>The state that is shared, a clock, the mutex of each user and the threads.\<close>

record sync_system =
  sy_web :: web
  sy_clock :: instant
  sy_lock :: "int64 \<rightharpoonup> nat"
  sy_threads :: "nat \<rightharpoonup> int64 \<times> sync_phase"

inductive sync_step :: "('sk, 'pk) server \<Rightarrow> 'sk client \<Rightarrow> sync_system \<Rightarrow> sync_system \<Rightarrow> bool"
  for a :: "('sk, 'pk) server" and c :: "'sk client" where
  spawn: "sy_threads S t = None \<Longrightarrow> sync_step a c S (S\<lparr>sy_threads := (sy_threads S)(t \<mapsto> (user, Begin))\<rparr>)"
| acquire: "sy_threads S t = Some (user, Waiting) \<Longrightarrow> sy_lock S user = None \<Longrightarrow>
    sync_step a c S (S\<lparr>sy_threads := (sy_threads S)(t \<mapsto> (user, Holding)), sy_lock := (sy_lock S)(user \<mapsto> t)\<rparr>)"
| run: "sy_threads S t = Some (user, p) \<Longrightarrow> p \<noteq> Waiting \<Longrightarrow> steps_left p \<noteq> 0 \<Longrightarrow>
    advance a c (sy_clock S) user p (sy_web S) = (p', w') \<Longrightarrow>
    sync_step a c S (S\<lparr>sy_web := w', sy_threads := (sy_threads S)(t \<mapsto> (user, p')),
      sy_lock := (if holds_lock p \<and> \<not> holds_lock p' then (sy_lock S)(user := None) else sy_lock S)\<rparr>)"
| tick: "sy_clock S \<le> now \<Longrightarrow> sync_step a c S (S\<lparr>sy_clock := now\<rparr>)"
| other: "db_syncs (tables_of w') = db_syncs (tables_of (sy_web S)) \<Longrightarrow> sync_step a c S (S\<lparr>sy_web := w'\<rparr>)"

inductive sync_reachable :: "('sk, 'pk) server \<Rightarrow> 'sk client \<Rightarrow> sync_system \<Rightarrow> bool"
  for a :: "('sk, 'pk) server" and c :: "'sk client" where
  init: "(\<And>user t. synced_at (tables_of (sy_web S)) user = Some t \<Longrightarrow> t \<le> sy_clock S) \<Longrightarrow>
    sy_lock S = Map.empty \<Longrightarrow> sy_threads S = Map.empty \<Longrightarrow> sync_reachable a c S"
| step: "sync_reachable a c S \<Longrightarrow> sync_step a c S S' \<Longrightarrow> sync_reachable a c S'"

section \<open>What a thread writes\<close>

lemma synced_at_syncs: "db_syncs d' = db_syncs d \<Longrightarrow> synced_at d' = synced_at d"
  by (simp add: synced_at_def fun_eq_iff)

lemma upsert_sync_other:
  assumes "upsert_sync_stmt user synced attempted err etag d = Inr (x, d')" "v \<noteq> user"
  shows "synced_at d' v = synced_at d v"
  using assms sync_table.frame_upsert [of v "\<lparr>sy_user_id = user, sy_synced_at = synced, sy_attempted_at = Some attempted,
    sy_last_error = err, sy_etag = etag\<rparr>" "db_syncs d"]
  by (auto simp: upsert_sync_stmt_def synced_at_def split: if_splits)

lemma sync_write:
  assumes "on_store (UpsertUserAccessSync user synced attempted err etag) s = (r, s')"
  shows "synced_at (tables_of s') = synced_at (tables_of s) \<or>
    synced_at (tables_of s') = (synced_at (tables_of s))(user := synced)"
proof -
  let ?st = "upsert_sync_stmt user synced attempted err etag"
  have "on_store (wrap_err ''upsert user access sync'' (exec ?st)) s = (r, s')"
    using assms by (simp add: UpsertUserAccessSync_def)
  from on_store_exec [OF this] show ?thesis
  proof
    assume "\<exists>x. ?st (tables_of s) = Inr (x, tables_of s')"
    then obtain x where x: "?st (tables_of s) = Inr (x, tables_of s')" ..
    have "synced_at (tables_of s') v = ((synced_at (tables_of s))(user := synced)) v" for v
      using upsert_sync_synced [OF x] upsert_sync_other [OF x] by (cases "v = user") simp_all
    then show ?thesis by blast
  qed simp
qed

lemma load_sync_tables: "load_sync user s = (r, s') \<Longrightarrow> tables_of s' = tables_of s"
  by (rule preservesE [OF preserves_load_sync [where I = "\<lambda>d. d = tables_of s"] refl])

text \<open>A step of a thread leaves the times of other users alone, and writes at most the time it read, or the clock.\<close>

lemma advance_writes:
  assumes "advance a c now user p s = (p', s')"
  shows "synced_at (tables_of s') = synced_at (tables_of s) \<or>
    (\<exists>st t err. p = Failing st t err \<and> synced_at (tables_of s') = (synced_at (tables_of s))(user := uas_SyncedAt st)) \<or>
    p = Succeeding \<and> synced_at (tables_of s') = (synced_at (tables_of s))(user := Some now)"
proof (cases p)
  case Begin
  with assms have "tables_of s' = tables_of s"
    by (auto split: prod.splits sum.splits if_splits dest: load_sync_tables)
  then show ?thesis by (intro disjI1) simp
next
  case Holding
  with assms have "tables_of s' = tables_of s"
    by (auto split: prod.splits sum.splits if_splits dest: load_sync_tables)
  then show ?thesis by (intro disjI1) simp
next
  case (Deciding st t)
  with assms have "s' = snd (syncUserRepoAccess a c now user s)"
    by (auto split: prod.splits sum.splits)
  with preservesD [OF sync_keeps_syncs [of "db_syncs (tables_of s)" a c now user], of s]
  have "synced_at (tables_of s') = synced_at (tables_of s)"
    by (intro synced_at_syncs) simp
  then show ?thesis
    by (rule disjI1)
next
  case (Failing st t err)
  obtain r where r: "on_store (UpsertUserAccessSync user (uas_SyncedAt st) t (Some (error_text err)) (uas_ETag st)) s = (r, s')"
    using assms Failing by (auto split: prod.splits)
  from sync_write [OF r] show ?thesis
    unfolding Failing by (elim disjE) (rule disjI1, assumption, rule disjI2, rule disjI1, intro exI conjI, rule refl)
next
  case Succeeding
  obtain r where r: "on_store (UpsertUserAccessSync user (Some now) now None None) s = (r, s')"
    using assms Succeeding by (auto split: prod.splits sum.splits)
  from sync_write [OF r] show ?thesis
    unfolding Succeeding by (elim disjE) (rule disjI1, assumption, rule disjI2, rule disjI2, rule conjI, rule refl)
qed (use assms in simp_all)

lemma advance_reads:
  assumes "advance a c now user p s = (p', s')"
    and "p' = Deciding st t \<or> p' = Failing st t err" "uas_SyncedAt st = Some x"
    and "\<And>err. p = Deciding st t \<or> p = Failing st t err \<Longrightarrow> synced_at (tables_of s) user = Some x"
  shows "synced_at (tables_of s') user = Some x"
proof (cases p)
  case Begin
  with assms(1,2) show ?thesis by (auto split: prod.splits sum.splits if_splits)
next
  case Holding
  with assms(1,2,3) load_sync_ok [of user s] show ?thesis by (auto split: prod.splits sum.splits if_splits)
next
  case (Deciding st' t')
  then have same: "synced_at (tables_of s') = synced_at (tables_of s)"
    using advance_writes [OF assms(1)] by auto
  have "st' = st" "t' = t"
    using assms(1,2) Deciding by (auto split: prod.splits sum.splits)
  with assms(4) Deciding same show ?thesis by simp
next
  case (Failing st' t' err')
  with assms(1,2) show ?thesis by (auto split: prod.splits)
next
  case Succeeding
  with assms(1,2) show ?thesis by (auto split: prod.splits sum.splits)
qed (use assms(1,2) in auto)

section \<open>Invariants\<close>

text \<open>A user's mutex is held by exactly the thread of this user that is inside.\<close>

definition locks_ok :: "sync_system \<Rightarrow> bool" where
  "locks_ok S \<longleftrightarrow>
     (\<forall>t user p. sy_threads S t = Some (user, p) \<longrightarrow> holds_lock p \<longrightarrow> sy_lock S user = Some t)"

text \<open>What a thread inside has read is still there; no time lies in the future.\<close>

definition reads_ok :: "sync_system \<Rightarrow> bool" where
  "reads_ok S \<longleftrightarrow>
     (\<forall>t user st now err x. sy_threads S t = Some (user, Deciding st now) \<or> sy_threads S t = Some (user, Failing st now err) \<longrightarrow>
        uas_SyncedAt st = Some x \<longrightarrow> synced_at (tables_of (sy_web S)) user = Some x)"

definition clock_ok :: "sync_system \<Rightarrow> bool" where
  "clock_ok S \<longleftrightarrow> (\<forall>user t. synced_at (tables_of (sy_web S)) user = Some t \<longrightarrow> t \<le> sy_clock S)"

lemma locks_okD: "locks_ok S \<Longrightarrow> sy_threads S t = Some (user, p) \<Longrightarrow> holds_lock p \<Longrightarrow> sy_lock S user = Some t"
  by (simp add: locks_ok_def)

lemma sole_holder:
  "locks_ok S \<Longrightarrow> sy_threads S t = Some (user, p) \<Longrightarrow> holds_lock p \<Longrightarrow>
   sy_threads S t' = Some (user, p') \<Longrightarrow> holds_lock p' \<Longrightarrow> t' = t"
  using locks_okD [of S t user p] locks_okD [of S t' user p'] by simp

text \<open>Only the acquiring step gets the lock.\<close>

lemma advance_holds:
  assumes "advance a c now user p s = (p', s')" "p \<noteq> Waiting" "holds_lock p'"
  shows "holds_lock p"
  using assms by (cases p) (auto split: prod.splits sum.splits if_splits)

lemma step_locks:
  assumes "sync_step a c S S'" "locks_ok S"
  shows "locks_ok S'"
  using assms(1)
proof cases
  case (spawn t user)
  with assms(2) show ?thesis by (auto simp: locks_ok_def)
next
  case (acquire t user)
  with assms(2) show ?thesis by (fastforce simp: locks_ok_def)
next
  case (run t user p p' w')
  show ?thesis
    unfolding locks_ok_def
  proof (intro allI impI)
    fix t1 user1 p1
    assume t1: "sy_threads S' t1 = Some (user1, p1)" and h1: "holds_lock p1"
    show "sy_lock S' user1 = Some t1"
    proof (cases "t1 = t")
      case True
      with t1 h1 run advance_holds [OF run(5,3)] locks_okD [OF assms(2) run(2)] show ?thesis by auto
    next
      case False
      with t1 run(1) have old: "sy_threads S t1 = Some (user1, p1)" by simp
      then have lock: "sy_lock S user1 = Some t1"
        by (rule locks_okD [OF assms(2) _ h1])
      have "user1 \<noteq> user" if "holds_lock p"
        using sole_holder [OF assms(2) run(2) that, of t1 p1] old h1 False by blast
      with lock run(1) show ?thesis by auto
    qed
  qed
qed (use assms(2) in \<open>simp_all add: locks_ok_def\<close>)

lemma reads_okD:
  assumes "reads_ok S" "sy_threads S t = Some (user, p)" "p = Deciding st now \<or> p = Failing st now err" "uas_SyncedAt st = Some x"
  shows "synced_at (tables_of (sy_web S)) user = Some x"
  using assms unfolding reads_ok_def by blast

lemma step_clock:
  assumes "sync_step a c S S'" "clock_ok S" "reads_ok S"
  shows "clock_ok S'"
  using assms(1)
proof cases
  case (run t user p p' w')
  from advance_writes [OF run(5)] show ?thesis
  proof (elim disjE exE conjE)
    assume "synced_at (tables_of w') = synced_at (tables_of (sy_web S))"
    with assms(2) run(1) show ?thesis by (simp add: clock_ok_def)
  next
    fix st now err
    assume p: "p = Failing st now err"
      and w: "synced_at (tables_of w') = (synced_at (tables_of (sy_web S)))(user := uas_SyncedAt st)"
    have "uas_SyncedAt st = Some x \<Longrightarrow> x \<le> sy_clock S" for x
      using reads_okD [OF assms(3) run(2), of st now err x] assms(2) p by (simp add: clock_ok_def)
    with assms(2) run(1) w show ?thesis by (auto simp: clock_ok_def)
  next
    assume "synced_at (tables_of w') = (synced_at (tables_of (sy_web S)))(user := Some (sy_clock S))"
    with assms(2) run(1) show ?thesis by (auto simp: clock_ok_def)
  qed
next
  case (tick now)
  with assms(2) show ?thesis by (fastforce simp: clock_ok_def)
next
  case (other w')
  with assms(2) synced_at_syncs [OF other(2)] show ?thesis by (simp add: clock_ok_def)
qed (use assms(2) in \<open>simp_all add: clock_ok_def\<close>)

lemma step_reads:
  assumes "sync_step a c S S'" "locks_ok S" "reads_ok S"
  shows "reads_ok S'"
  using assms(1)
proof cases
  case (run t user p p' w')
  have "synced_at (tables_of w') user1 = Some x"
    if t1: "sy_threads S' t1 = Some (user1, p1)" and p1: "p1 = Deciding st now \<or> p1 = Failing st now err" and x: "uas_SyncedAt st = Some x"
    for t1 user1 p1 st now err x
  proof (cases "t1 = t")
    case True
    with t1 run(1) have "user1 = user" "p1 = p'" by simp_all
    with advance_reads [OF run(5) _ x, of now err] p1 reads_okD [OF assms(3) run(2) _ x] show ?thesis
      by blast
  next
    case False
    with t1 run(1) have old: "sy_threads S t1 = Some (user1, p1)" by simp
    from reads_okD [OF assms(3) this p1 x] have before: "synced_at (tables_of (sy_web S)) user1 = Some x" .
    have "holds_lock p1"
      using p1 by auto
    then have "user1 \<noteq> user" if "holds_lock p"
      using sole_holder [OF assms(2) run(2) that, of t1 p1] old False by blast
    moreover have "holds_lock p" if "p = Failing st' now' err' \<or> p = Succeeding" for st' now' err'
      using that by auto
    ultimately show ?thesis
      using advance_writes [OF run(5)] before by auto
  qed
  then show ?thesis
    unfolding reads_ok_def run(1) by simp
next
  case (other w')
  with assms(3) synced_at_syncs [OF other(2)] show ?thesis by (simp add: reads_ok_def)
next
  case (spawn t user)
  with assms(3) show ?thesis by (auto simp: reads_ok_def)
next
  case (acquire t user)
  with assms(3) show ?thesis by (auto simp: reads_ok_def)
qed (use assms(3) in \<open>simp add: reads_ok_def\<close>)

lemma sync_reachable_ok: "sync_reachable a c S \<Longrightarrow> locks_ok S \<and> reads_ok S \<and> clock_ok S"
proof (induction rule: sync_reachable.induct)
  case (init S)
  then show ?case by (simp add: locks_ok_def reads_ok_def clock_ok_def)
qed (blast intro: step_locks step_reads step_clock)

lemma step_times:
  assumes "sync_step a c S S'" "reads_ok S" "clock_ok S"
    and "synced_at (tables_of (sy_web S)) user = Some x" "synced_at (tables_of (sy_web S')) user = Some y"
  shows "x \<le> y"
  using assms(1)
proof cases
  case (run t u p p' w')
  from advance_writes [OF run(5)] show ?thesis
  proof (elim disjE exE conjE)
    assume "synced_at (tables_of w') = synced_at (tables_of (sy_web S))"
    with assms(4,5) run(1) show ?thesis by simp
  next
    fix st now err
    assume p: "p = Failing st now err"
      and w: "synced_at (tables_of w') = (synced_at (tables_of (sy_web S)))(u := uas_SyncedAt st)"
    show ?thesis
    proof (cases "u = user")
      case True
      with assms(5) run(1) w have "uas_SyncedAt st = Some y" by simp
      from reads_okD [OF assms(2) run(2) disjI2 [OF p] this] assms(4) True show ?thesis by simp
    qed (use assms(4,5) run(1) w in simp)
  next
    assume "synced_at (tables_of w') = (synced_at (tables_of (sy_web S)))(u := Some (sy_clock S))"
    moreover have "x \<le> sy_clock S"
      using assms(3,4) by (simp add: clock_ok_def)
    ultimately show ?thesis
      using assms(4,5) run(1) by (auto split: if_splits)
  qed
next
  case (other w')
  with assms(4,5) synced_at_syncs [OF other(2)] show ?thesis by simp
qed (use assms(4,5) in simp_all)

section \<open>Properties\<close>

text \<open>
  C10: The mutex does its work: whatever the interleaving of any number of requests, with any other work and any
  failures in between, at most one request at a time is inside the synchronisation of a user, and no request
  ever replaces the time of a user's last synchronisation by an earlier one, although the error path writes
  back a time that it read before it called GitHub.
\<close>

theorem sync_lock_protects:
  assumes "sync_reachable a c S"
  shows "(\<forall>t t' user p p'. sy_threads S t = Some (user, p) \<and> holds_lock p \<and> sy_threads S t' = Some (user, p') \<and> holds_lock p'
      \<longrightarrow> t = t') \<and>
    (\<forall>S' user x y. sync_step a c S S' \<and> synced_at (tables_of (sy_web S)) user = Some x \<and>
      synced_at (tables_of (sy_web S')) user = Some y \<longrightarrow> x \<le> y)"
proof -
  note ok = sync_reachable_ok [OF assms]
  show ?thesis
    using ok by (blast dest: sole_holder intro: step_times)
qed

definition two_requests :: sync_system where
  "two_requests = \<lparr>sy_web = demo_web demo_site, sy_clock = Instant 400000000000, sy_lock = Map.empty,
     sy_threads = [0 \<mapsto> (1, Begin), 1 \<mapsto> (1, Begin)]\<rparr>"

definition after_check :: "nat \<Rightarrow> sync_system \<Rightarrow> sync_system" where
  "after_check t S = S\<lparr>sy_web := snd (advance demo_server demo_client (sy_clock S) 1 Begin (sy_web S)),
     sy_threads := (sy_threads S)(t \<mapsto> (1, Waiting))\<rparr>"

lemma demo_stale:
  "fst (advance demo_server demo_client (Instant 400000000000) 1 Begin (demo_web demo_site)) = Waiting"
  by code_simp

lemma demo_check_step: "sync_step demo_server demo_client two_requests (after_check 0 two_requests)"
proof -
  let ?S = two_requests
  have "sync_step demo_server demo_client ?S (?S\<lparr>sy_web := snd (advance demo_server demo_client (sy_clock ?S) 1 Begin (sy_web ?S)),
      sy_threads := (sy_threads ?S)(0 \<mapsto> (1, Waiting)),
      sy_lock := (if holds_lock Begin \<and> \<not> holds_lock Waiting then (sy_lock ?S)(1 := None) else sy_lock ?S)\<rparr>)"
    by (rule sync_step.run) (use demo_stale in \<open>simp_all add: two_requests_def prod_eq_iff del: advance.simps\<close>)
  then show ?thesis
    by (simp add: after_check_def del: advance.simps)
qed

lemma two_requests_reachable: "sync_reachable demo_server demo_client two_requests"
proof -
  let ?S = "two_requests\<lparr>sy_threads := Map.empty\<rparr>"
  have "synced_at (tables_of (sy_web ?S)) = synced_at demo_site"
    by (simp add: two_requests_def demo_web_def first_state_def healthy_def)
  moreover have "synced_at demo_site user = Some t \<Longrightarrow> t \<le> Instant 400000000000" for user t
    by (auto simp: synced_at_def demo_site_def less_eq_instant_def split: if_splits)
  ultimately have init: "sync_reachable demo_server demo_client ?S"
    by (intro sync_reachable.init) (simp_all add: two_requests_def)
  let ?S1 = "?S\<lparr>sy_threads := (sy_threads ?S)(0 \<mapsto> (1, Begin))\<rparr>"
  have one: "sync_reachable demo_server demo_client ?S1"
    by (rule sync_reachable.step [OF init]) (rule sync_step.spawn, simp)
  have "sync_reachable demo_server demo_client (?S1\<lparr>sy_threads := (sy_threads ?S1)(1 \<mapsto> (1, Begin))\<rparr>)"
    by (rule sync_reachable.step [OF one]) (rule sync_step.spawn, simp)
  then show ?thesis
    by (simp add: two_requests_def)
qed

theorem sync_lock_protects_witness:
  "\<exists>x y. synced_at (tables_of (sy_web two_requests)) 1 = Some x \<and>
     synced_at (tables_of (sy_web (after_check 0 two_requests))) 1 = Some y \<and> x \<le> y"
proof -
  have "synced_at (tables_of (sy_web two_requests)) 1 \<noteq> None"
    "synced_at (tables_of (sy_web (after_check 0 two_requests))) 1 \<noteq> None"
    by code_simp+
  with sync_lock_protects [OF two_requests_reachable] demo_check_step show ?thesis
    by blast
qed

text \<open>
  The phases are the function: a request that is not interleaved with others goes through the phases to the
  result and the state of \<open>ensureUserRepoAccess\<close>, in at most five steps.
\<close>

theorem sync_phases_are_ensure:
  assumes "sv_githubAppClient a = Some c"
  shows "run_alone 5 a c now user (Begin, s) = (case ensureUserRepoAccess a now user s of (r, s') \<Rightarrow> (Finished r, s'))"
  using assms by (rule alone_ensure)

theorem sync_phases_are_ensure_witness:
  "fst (run_alone 5 demo_server demo_client (Instant 400000000000) 1 (Begin, demo_web demo_site)) = Finished (Inr True)"
proof -
  have client: "sv_githubAppClient demo_server = Some demo_client"
    by (simp add: demo_server_def NewServer_def)
  have "fst (ensureUserRepoAccess demo_server (Instant 400000000000) 1 (demo_web demo_site)) = Inr True"
    by code_simp
  then show ?thesis
    unfolding sync_phases_are_ensure [OF client]
    by (cases "ensureUserRepoAccess demo_server (Instant 400000000000) 1 (demo_web demo_site)")
      (simp only: prod.case fst_conv)
qed

end
