(* ===== verification/Process.thy ===== *)
theory Process
  imports Web_Routes
begin

text \<open>
  The life of the process after its start: the end of \<open>main\<close> in \<open>server/cmd/server/main.go\<close> with the goroutine
  that shuts the HTTP server down, and the loop of \<open>PullRunner.Start\<close> in \<open>server/internal/workers/pull.go\<close> with
  its context. \<open>main\<close>, the goroutine, the worker and the handlers of open requests interleave in
  any order. Of \<open>net/http\<close> this uses that a request begins on a connection that was accepted before, that
  \<open>Shutdown\<close> first closes the listener, upon which \<open>ListenAndServe\<close> returns \<open>ErrServerClosed\<close>, lets no
  connection be kept for another request, closes those that carry none and waits until none is left
  or its context ends; of the pool that \<open>Close\<close> hands out no more connections and waits for those in use.
  A connection that was accepted before the shutdown can still begin its request during it.
\<close>

section \<open>The state\<close>

datatype main_phase = ServingPhase | Returning | Exited int

datatype shutdown_phase = AwaitingSignal | ShuttingDown instant | ShutdownReturned

datatype worker_phase = InPass | Sleeping | WorkerStopped

text \<open>
  Requests are numbered; an open one is mapped to whether it holds a connection of the pool. Network
  connections are numbered too; \<open>pc_conns\<close> are the accepted ones that carry no request, new or kept
  alive, and a connection that carries one is represented by the request.
\<close>

record process =
  pc_ctx_done :: bool
  pc_listening :: bool
  pc_conns :: "nat set"
  pc_requests :: "nat \<rightharpoonup> bool"
  pc_answered :: "nat list"
  pc_worker :: worker_phase
  pc_worker_conn :: bool
  pc_shutdown :: shutdown_phase
  pc_main :: main_phase
  pc_clock :: instant
  pc_log :: "string list"

definition conns_in_use :: "process \<Rightarrow> bool" where
  "conns_in_use P \<longleftrightarrow> pc_worker_conn P \<or> Some True \<in> range (pc_requests P)"

section \<open>The code\<close>

text \<open>
  \<open>main\<close> after \<open>ListenAndServe\<close>, whose error is \<open>ErrServerClosed\<close> (\<open>None\<close>) or another one: \<open>log.Fatalf\<close> ends the process
  at once, without the deferred calls.
\<close>

definition after_listen :: "string option \<Rightarrow> process \<Rightarrow> process" where
  "after_listen err P =
     (case err of
        Some e \<Rightarrow> P\<lparr>pc_main := Exited 1, pc_log := pc_log P @ [''listen: '' @ e]\<rparr>
      | None \<Rightarrow> P\<lparr>pc_main := Returning, pc_log := pc_log P @ [''server stopped'']\<rparr>)"

text \<open>The goroutine: \<open>Shutdown\<close> with a context of ten seconds, and what it does when that returns.\<close>

definition call_shutdown :: "process \<Rightarrow> process" where
  "call_shutdown P =
     P\<lparr>pc_shutdown := ShuttingDown (time_Add (pc_clock P) (10 * 1000000000)), pc_listening := False\<rparr>"

definition after_shutdown :: "string option \<Rightarrow> process \<Rightarrow> process" where
  "after_shutdown err P =
     (case err of
        Some e \<Rightarrow> P\<lparr>pc_shutdown := ShutdownReturned, pc_log := pc_log P @ [''http shutdown: '' @ e]\<rparr>
      | None \<Rightarrow> P\<lparr>pc_shutdown := ShutdownReturned\<rparr>)"

text \<open>The loop of the worker when a pass has ended with this error or none.\<close>

definition after_pass :: "string option \<Rightarrow> process \<Rightarrow> process" where
  "after_pass err P =
     (case err of
        Some e \<Rightarrow>
          if pc_ctx_done P then P\<lparr>pc_worker := WorkerStopped\<rparr>
          else P\<lparr>pc_worker := Sleeping, pc_log := pc_log P @ [''pull workers error: '' @ e]\<rparr>
      | None \<Rightarrow> P\<lparr>pc_worker := Sleeping\<rparr>)"

text \<open>The process when \<open>main\<close> calls \<open>ListenAndServe\<close>.\<close>

definition started :: "config \<Rightarrow> bool \<Rightarrow> instant \<Rightarrow> process" where
  "started cfg has_worker now =
     \<lparr>pc_ctx_done = False, pc_listening = True, pc_conns = {}, pc_requests = Map.empty, pc_answered = [],
      pc_worker = (if has_worker then InPass else WorkerStopped), pc_worker_conn = False,
      pc_shutdown = AwaitingSignal, pc_main = ServingPhase, pc_clock = now,
      pc_log = [''control-plane listening on '' @ ListenAddr cfg]\<rparr>"

inductive process_step :: "process \<Rightarrow> process \<Rightarrow> bool" where
  signal: "process_step P (P\<lparr>pc_ctx_done := True\<rparr>)"
| time: "pc_clock P \<le> now \<Longrightarrow> process_step P (P\<lparr>pc_clock := now\<rparr>)"
| accept: "pc_listening P \<Longrightarrow> process_step P (P\<lparr>pc_conns := insert c (pc_conns P)\<rparr>)"
| hang_up: "process_step P (P\<lparr>pc_conns := pc_conns P - {c}\<rparr>)"
| request: "c \<in> pc_conns P \<Longrightarrow> pc_requests P i = None \<Longrightarrow> i \<notin> set (pc_answered P) \<Longrightarrow>
    process_step P (P\<lparr>pc_conns := pc_conns P - {c}, pc_requests := (pc_requests P)(i \<mapsto> False)\<rparr>)"
| connect: "pc_requests P i = Some False \<Longrightarrow> pc_main P = ServingPhase \<Longrightarrow>
    process_step P (P\<lparr>pc_requests := (pc_requests P)(i \<mapsto> True)\<rparr>)"
| release: "pc_requests P i = Some True \<Longrightarrow> process_step P (P\<lparr>pc_requests := (pc_requests P)(i \<mapsto> False)\<rparr>)"
| answer: "pc_requests P i = Some False \<Longrightarrow>
    process_step P (P\<lparr>pc_requests := (pc_requests P)(i := None), pc_answered := pc_answered P @ [i]\<rparr>)"
| answer_keep: "pc_requests P i = Some False \<Longrightarrow> pc_shutdown P = AwaitingSignal \<Longrightarrow>
    process_step P (P\<lparr>pc_requests := (pc_requests P)(i := None), pc_answered := pc_answered P @ [i],
      pc_conns := insert c (pc_conns P)\<rparr>)"
| worker_connect: "pc_worker P = InPass \<Longrightarrow> pc_main P = ServingPhase \<Longrightarrow> process_step P (P\<lparr>pc_worker_conn := True\<rparr>)"
| worker_release: "pc_worker_conn P \<Longrightarrow> process_step P (P\<lparr>pc_worker_conn := False\<rparr>)"
| pass_ends: "pc_worker P = InPass \<Longrightarrow> \<not> pc_worker_conn P \<Longrightarrow> process_step P (after_pass err P)"
| worker_done: "pc_worker P = Sleeping \<Longrightarrow> pc_ctx_done P \<Longrightarrow> process_step P (P\<lparr>pc_worker := WorkerStopped\<rparr>)"
| worker_tick: "pc_worker P = Sleeping \<Longrightarrow> process_step P (P\<lparr>pc_worker := InPass\<rparr>)"
| shutdown_called: "pc_shutdown P = AwaitingSignal \<Longrightarrow> pc_ctx_done P \<Longrightarrow> process_step P (call_shutdown P)"
| shutdown_drained: "pc_shutdown P = ShuttingDown deadline \<Longrightarrow> pc_requests P = Map.empty \<Longrightarrow> pc_conns P = {} \<Longrightarrow>
    process_step P (after_shutdown None P)"
| shutdown_late: "pc_shutdown P = ShuttingDown deadline \<Longrightarrow> deadline \<le> pc_clock P \<Longrightarrow>
    process_step P (after_shutdown (Some ''context deadline exceeded'') P)"
| listener_closed: "pc_main P = ServingPhase \<Longrightarrow> \<not> pc_listening P \<Longrightarrow> process_step P (after_listen None P)"
| listener_failed: "pc_main P = ServingPhase \<Longrightarrow> pc_listening P \<Longrightarrow>
    process_step P (after_listen (Some e) (P\<lparr>pc_listening := False\<rparr>))"
| main_returns: "pc_main P = Returning \<Longrightarrow> \<not> conns_in_use P \<Longrightarrow> process_step P (P\<lparr>pc_main := Exited 0\<rparr>)"

text \<open>When \<open>main\<close> has returned, every goroutine is gone with the process.\<close>

inductive process_runs :: "process \<Rightarrow> process \<Rightarrow> bool" where
  none: "process_runs P P"
| more: "process_runs P P' \<Longrightarrow> (\<And>code. pc_main P' \<noteq> Exited code) \<Longrightarrow> process_step P' P'' \<Longrightarrow> process_runs P P''"

section \<open>How the process ends\<close>

definition process_ok :: "process \<Rightarrow> bool" where
  "process_ok P \<longleftrightarrow>
     (pc_shutdown P \<noteq> AwaitingSignal \<longrightarrow> pc_ctx_done P \<and> \<not> pc_listening P) \<and>
     (pc_main P = ServingPhase \<longrightarrow> \<not> pc_listening P \<longrightarrow> pc_shutdown P \<noteq> AwaitingSignal) \<and>
     (pc_main P = Returning \<longrightarrow> pc_shutdown P \<noteq> AwaitingSignal \<and> ''server stopped'' \<in> set (pc_log P)) \<and>
     (\<forall>code. pc_main P = Exited code \<longrightarrow>
        code = 0 \<and> pc_shutdown P \<noteq> AwaitingSignal \<and> \<not> conns_in_use P \<and> ''server stopped'' \<in> set (pc_log P) \<or>
        code = 1 \<and> pc_shutdown P = AwaitingSignal \<and> (\<exists>e. last (pc_log P) = ''listen: '' @ e))"

lemmas process_code = after_listen_def call_shutdown_def after_shutdown_def after_pass_def

lemma step_ok:
  assumes "process_step P P'" "process_ok P" "\<And>code. pc_main P \<noteq> Exited code"
  shows "process_ok P'"
  using assms by (cases rule: process_step.cases) (auto simp: process_ok_def process_code conns_in_use_def split: option.splits)

lemma runs_ok: "process_runs P P' \<Longrightarrow> process_ok P \<Longrightarrow> process_ok P'"
  by (induction rule: process_runs.induct) (auto intro: step_ok)

lemma runs_trans: "process_runs P' P'' \<Longrightarrow> process_runs P P' \<Longrightarrow> process_runs P P''"
  by (induction rule: process_runs.induct) (auto intro: process_runs.more)

lemma started_ok: "process_ok (started cfg has_worker now)"
  by (simp add: process_ok_def started_def)

text \<open>The steps that a signal can be followed by before any other goroutine moves.\<close>

definition stop_at_once :: "process \<Rightarrow> process" where
  "stop_at_once P = (after_listen None (call_shutdown (P\<lparr>pc_ctx_done := True\<rparr>)))\<lparr>pc_main := Exited 0\<rparr>"

lemma stop_at_once_run:
  assumes "pc_main P = ServingPhase" "pc_shutdown P = AwaitingSignal" "\<not> conns_in_use P"
  shows "process_runs P (stop_at_once P)"
proof -
  let ?P1 = "P\<lparr>pc_ctx_done := True\<rparr>"
  let ?P2 = "call_shutdown ?P1"
  let ?P3 = "after_listen None ?P2"
  have "process_runs P ?P1"
    by (rule process_runs.more [OF process_runs.none]) (simp_all add: assms process_step.signal)
  then have "process_runs P ?P2"
    by (rule process_runs.more) (simp_all add: assms process_step.shutdown_called)
  then have run: "process_runs P ?P3"
    by (rule process_runs.more) (simp_all add: assms call_shutdown_def process_step.listener_closed)
  have returning: "pc_main ?P3 \<noteq> Exited code" for code
    by (simp add: after_listen_def)
  have "process_step ?P3 (?P3\<lparr>pc_main := Exited 0\<rparr>)"
    by (rule process_step.main_returns)
      (use assms(3) in \<open>simp_all add: after_listen_def call_shutdown_def conns_in_use_def\<close>)
  from process_runs.more [OF run returning this] show ?thesis
    by (simp only: stop_at_once_def)
qed

section \<open>Properties\<close>

text \<open>
  C20: However its goroutines interleave, the process ends with code 0 only after a signal and a call of
  \<open>Shutdown\<close>, with the listener closed, every connection to the database returned and its last words in
  the log, and with code 1 only because the listener failed before any shutdown.
\<close>

theorem process_ends_clean:
  assumes "process_runs (started cfg has_worker now) P" and "pc_main P = Exited code"
  shows "code = 0 \<and> pc_ctx_done P \<and> pc_shutdown P \<noteq> AwaitingSignal \<and> \<not> pc_listening P \<and> \<not> conns_in_use P \<and>
      ''server stopped'' \<in> set (pc_log P) \<or>
    code = 1 \<and> pc_shutdown P = AwaitingSignal \<and> (\<exists>e. last (pc_log P) = ''listen: '' @ e)"
proof -
  have "process_ok P"
    by (rule runs_ok [OF assms(1) started_ok])
  with assms(2) show ?thesis
    unfolding process_ok_def by metis
qed

text \<open>
  C36: The shutdown does not wait for the requests that are open: from any state of a serving process in which
  no handler is using the database, a signal can be followed by the end of the process with code 0
  at the same instant, with the same requests open and none of them answered. The ten seconds are never used,
  since \<open>main\<close> returns as soon as \<open>Shutdown\<close> has closed the listener.
\<close>

theorem shutdown_drops_requests:
  assumes "process_runs (started cfg has_worker now) P" "pc_main P = ServingPhase" "pc_listening P" "\<not> conns_in_use P"
  shows "\<exists>P'. process_runs P P' \<and> pc_main P' = Exited 0 \<and> pc_requests P' = pc_requests P \<and>
    pc_answered P' = pc_answered P \<and> pc_clock P' = pc_clock P"
proof -
  have "pc_shutdown P = AwaitingSignal"
    using runs_ok [OF assms(1) started_ok] assms(3) by (auto simp: process_ok_def)
  with stop_at_once_run [OF assms(2) _ assms(4)] show ?thesis
    by (intro exI [of _ "stop_at_once P"]) (simp add: stop_at_once_def process_code)
qed

definition one_open :: process where
  "one_open = (started (FromEnv (\<lambda>_. [])) True (Instant 7))\<lparr>pc_requests := [3 \<mapsto> False]\<rparr>"

lemma one_open_run: "process_runs (started (FromEnv (\<lambda>_. [])) True (Instant 7)) one_open"
proof -
  let ?P = "started (FromEnv (\<lambda>_. [])) True (Instant 7)"
  let ?C = "?P\<lparr>pc_conns := insert 0 (pc_conns ?P)\<rparr>"
  have "process_step ?P ?C"
    by (rule process_step.accept) (simp add: started_def)
  then have run: "process_runs ?P ?C"
    by (rule process_runs.more [OF process_runs.none, rotated]) (simp add: started_def)
  have "process_step ?C (?C\<lparr>pc_conns := pc_conns ?C - {0}, pc_requests := (pc_requests ?C)(3 \<mapsto> False)\<rparr>)"
    by (rule process_step.request) (simp_all add: started_def)
  then have "process_step ?C one_open"
    by (simp add: one_open_def started_def)
  then show ?thesis
    by (rule process_runs.more [OF run, rotated]) (simp add: started_def)
qed

lemma one_open_idle: "\<not> conns_in_use one_open"
  by (auto simp: one_open_def started_def conns_in_use_def split: if_splits)

theorem process_ends_clean_witness:
  "pc_main (stop_at_once one_open) = Exited 0 \<and> ''server stopped'' \<in> set (pc_log (stop_at_once one_open))"
proof -
  have main: "pc_main (stop_at_once one_open) = Exited 0"
    by (simp add: stop_at_once_def)
  have "process_runs one_open (stop_at_once one_open)"
    by (rule stop_at_once_run [OF _ _ one_open_idle]) (simp_all add: one_open_def started_def)
  with one_open_run have "process_runs (started (FromEnv (\<lambda>_. [])) True (Instant 7)) (stop_at_once one_open)"
    by (rule runs_trans [rotated])
  from process_ends_clean [OF this main] main show ?thesis
    by simp
qed

theorem shutdown_drops_requests_witness:
  "\<exists>P'. process_runs one_open P' \<and> pc_main P' = Exited 0 \<and> pc_requests P' = [3 \<mapsto> False] \<and> pc_answered P' = []"
proof -
  have "pc_main one_open = ServingPhase" "pc_listening one_open"
    and same: "pc_requests one_open = [3 \<mapsto> False]" "pc_answered one_open = []"
    by (simp_all add: one_open_def started_def)
  from shutdown_drops_requests [OF one_open_run this(1,2) one_open_idle] show ?thesis
    unfolding same by blast
qed

end
