(* ===== verification/Sql_Split.thy ===== *)
theory Sql_Split
  imports Go_Strings
begin

text \<open>
  \<open>splitStatements\<close> and \<open>parseDollarTag\<close> of \<open>server/internal/postgres/migrate.go\<close>: a migration
  file is cut at the semicolons that are not inside a string, a quoted identifier, a
  dollar-quoted body or a line comment; line comments are dropped. PostgreSQL's other lexical forms,
  block comments and strings with backslash escapes, are unknown to the code (\<open>block_comment_is_cut\<close>).

  The Go loop runs over an index \<open>i\<close>; here it runs over the rest of the text \<open>sql[i:]\<close>, which is
  all the loop body looks at. Its variables are the record \<open>scan\<close>. The specification is a grammar
  of pieces with a printer, stated without any function of the code, and the main theorem says that
  scanning a printed text gives the statements the pieces denote.
\<close>

section \<open>The scanner\<close>

definition is_ident_char :: "char \<Rightarrow> bool" where
  "is_ident_char ch \<longleftrightarrow> ch = CHR ''_'' \<or> is_digit ch \<or> is_lower ch \<or> is_upper ch"

fun tag_rest :: "string \<Rightarrow> string option" where
  "tag_rest [] = None"
| "tag_rest (ch # s) =
     (if ch = CHR ''$'' then Some [ch]
      else if \<not> is_ident_char ch then None
      else map_option ((#) ch) (tag_rest s))"

definition parseDollarTag :: "string \<Rightarrow> string option" where
  "parseDollarTag s =
     (case s of
        [] \<Rightarrow> None
      | ch # t \<Rightarrow> if ch \<noteq> CHR ''$'' then None else map_option ((#) ch) (tag_rest t))"

record scan =
  stmts :: "string list"
  current :: string
  inLineComment :: bool
  inSingleQuote :: bool
  inDoubleQuote :: bool
  dollarTag :: string

definition emit :: "string \<Rightarrow> scan \<Rightarrow> scan" where
  "emit t s = s\<lparr>current := current s @ t\<rparr>"

definition flush :: "scan \<Rightarrow> scan" where
  "flush s =
     (let stmt = TrimSpace (current s)
      in s\<lparr>stmts := (if stmt \<noteq> [] then stmts s @ [stmt] else stmts s), current := []\<rparr>)"

text \<open>
  One iteration of the loop at the byte \<open>ch\<close>, with \<open>rest\<close> after it: the new variables and the
  number of further bytes that the iteration consumes (what it adds to \<open>i\<close> before the \<open>i++\<close>).
\<close>

definition scan_step :: "scan \<Rightarrow> char \<Rightarrow> string \<Rightarrow> scan \<times> nat" where
  "scan_step s ch rest =
     (if inLineComment s then
        (if ch = CHR 0x0A then (emit [ch] (s\<lparr>inLineComment := False\<rparr>), 0) else (s, 0))
      else if dollarTag s \<noteq> [] then
        (if HasPrefix (ch # rest) (dollarTag s)
         then ((emit (dollarTag s) s)\<lparr>dollarTag := []\<rparr>, length (dollarTag s) - 1)
         else (emit [ch] s, 0))
      else if inSingleQuote s then
        (if ch = CHR 0x27
         then (if rest \<noteq> [] \<and> hd rest = CHR 0x27 then (emit [ch, hd rest] s, 1)
               else ((emit [ch] s)\<lparr>inSingleQuote := False\<rparr>, 0))
         else (emit [ch] s, 0))
      else if inDoubleQuote s then
        (if ch = CHR 0x22
         then (if rest \<noteq> [] \<and> hd rest = CHR 0x22 then (emit [ch, hd rest] s, 1)
               else ((emit [ch] s)\<lparr>inDoubleQuote := False\<rparr>, 0))
         else (emit [ch] s, 0))
      else if ch = CHR ''-'' \<and> rest \<noteq> [] \<and> hd rest = CHR ''-'' then (s\<lparr>inLineComment := True\<rparr>, 1)
      else if ch = CHR 0x27 then (emit [ch] (s\<lparr>inSingleQuote := True\<rparr>), 0)
      else if ch = CHR 0x22 then (emit [ch] (s\<lparr>inDoubleQuote := True\<rparr>), 0)
      else (case (if ch = CHR ''$'' then parseDollarTag (ch # rest) else None) of
              Some tag \<Rightarrow> (emit tag (s\<lparr>dollarTag := tag\<rparr>), length tag - 1)
            | None \<Rightarrow> if ch = CHR '';'' then (flush s, 0) else (emit [ch] s, 0)))"

function split_loop :: "scan \<Rightarrow> string \<Rightarrow> scan" where
  "split_loop s [] = s"
| "split_loop s (ch # rest) = (case scan_step s ch rest of (s', k) \<Rightarrow> split_loop s' (drop k rest))"
  by pat_completeness auto
termination
  by (relation "measure (\<lambda>(s, rest). length rest)") auto

definition scan_start :: scan where
  "scan_start = \<lparr>stmts = [], current = [], inLineComment = False, inSingleQuote = False,
     inDoubleQuote = False, dollarTag = []\<rparr>"

definition splitStatements :: "string \<Rightarrow> string list" where
  "splitStatements sql = stmts (flush (split_loop scan_start sql))"

section \<open>The statements that come out\<close>

lemma emit_simps [simp]:
  "stmts (emit t s) = stmts s" "current (emit t s) = current s @ t"
  "inLineComment (emit t s) = inLineComment s" "inSingleQuote (emit t s) = inSingleQuote s"
  "inDoubleQuote (emit t s) = inDoubleQuote s" "dollarTag (emit t s) = dollarTag s"
  by (simp_all add: emit_def)

lemma flush_simps [simp]:
  "current (flush s) = []" "inLineComment (flush s) = inLineComment s"
  "inSingleQuote (flush s) = inSingleQuote s" "inDoubleQuote (flush s) = inDoubleQuote s"
  "dollarTag (flush s) = dollarTag s"
  by (simp_all add: flush_def Let_def)

definition clean_stmts :: "scan \<Rightarrow> bool" where
  "clean_stmts s \<longleftrightarrow> (\<forall>t \<in> set (stmts s). t \<noteq> [] \<and> TrimSpace t = t)"

lemma clean_flush: "clean_stmts s \<Longrightarrow> clean_stmts (flush s)"
  by (auto simp: clean_stmts_def flush_def Let_def)

lemma clean_updates [simp]:
  "clean_stmts (emit t s) = clean_stmts s" "clean_stmts (s\<lparr>inLineComment := b\<rparr>) = clean_stmts s"
  "clean_stmts (s\<lparr>inSingleQuote := b\<rparr>) = clean_stmts s"
  "clean_stmts (s\<lparr>inDoubleQuote := b\<rparr>) = clean_stmts s"
  "clean_stmts (s\<lparr>dollarTag := d\<rparr>) = clean_stmts s"
  by (simp_all add: clean_stmts_def)

lemma clean_scan_step: "clean_stmts s \<Longrightarrow> clean_stmts (fst (scan_step s ch rest))"
  by (simp add: scan_step_def clean_flush split: option.split)

lemma clean_split_loop: "clean_stmts s \<Longrightarrow> clean_stmts (split_loop s sql)"
proof (induction s sql rule: split_loop.induct)
  case (1 s)
  then show ?case by simp
next
  case (2 s ch rest)
  then show ?case
    using clean_scan_step [of s ch rest] by (cases "scan_step s ch rest") simp
qed

text \<open>Nothing is invented: what has been collected is part of what was read, in order.\<close>

definition collected :: "scan \<Rightarrow> string" where
  "collected s = concat (stmts s) @ current s"

lemma subseq_TrimSpace: "subseq (TrimSpace s) s"
proof -
  have "subseq (TrimSpace s) (trim_encs white_space s)"
    using TrimSpace_sublist_left prefix_imp_subseq by blast
  also have "subseq (trim_encs white_space s) s"
    using trim_encs_suffix suffix_imp_subseq by blast
  finally show ?thesis .
qed

lemma collected_emit [simp]: "collected (emit t s) = collected s @ t"
  by (simp add: collected_def)

lemma collected_updates [simp]:
  "collected (s\<lparr>inLineComment := b\<rparr>) = collected s"
  "collected (s\<lparr>inSingleQuote := b\<rparr>) = collected s"
  "collected (s\<lparr>inDoubleQuote := b\<rparr>) = collected s"
  "collected (s\<lparr>dollarTag := d\<rparr>) = collected s"
  by (simp_all add: collected_def)

lemma collected_flush: "subseq (collected (flush s)) (collected s)"
  by (auto simp: collected_def flush_def Let_def subseq_TrimSpace list_emb_append_mono)

lemma subseq_skip: "subseq xs (ys @ zs) \<Longrightarrow> subseq xs (ys @ z # zs)"
  by (metis append_Cons append_Nil list_emb_append2 list_emb_append_mono subseq_order.order_refl
      subseq_order.trans)

lemma parseDollarTag_prefix: "parseDollarTag s = Some tag \<Longrightarrow> prefix tag s"
proof -
  have "tag_rest t = Some u \<Longrightarrow> prefix u t" for t u
    by (induction t arbitrary: u) (auto split: if_splits)
  then show "parseDollarTag s = Some tag \<Longrightarrow> prefix tag s"
    by (auto simp: parseDollarTag_def split: list.splits if_splits)
qed

lemma prefix_drop_eq:
  assumes "prefix tag (ch # rest)" and "tag \<noteq> []"
  shows "tag @ drop (length tag - 1) rest = ch # rest"
proof -
  obtain d t where tag: "tag = d # t" using assms(2) by (cases tag) auto
  with assms(1) show ?thesis by (auto elim: prefixE)
qed

lemma prefix_take_eq:
  assumes "prefix tag (ch # rest)" and "tag \<noteq> []"
  shows "tag = ch # take (length tag - 1) rest"
proof -
  obtain t where tag: "tag = ch # t" using assms by (cases tag) auto
  with assms(1) show ?thesis by (auto elim: prefixE)
qed

lemma collected_step:
  assumes "scan_step s ch rest = (s', k)"
  shows "subseq (collected s') (collected s @ ch # take k rest)"
proof -
  have skip: "subseq (collected s) (collected s @ xs)" for xs
    by (rule subseq_rev_drop_many) simp
  have flush: "subseq (collected (flush s)) (collected s @ [ch])"
    using collected_flush skip subseq_order.trans by blast
  have tag: "tag = ch # take (length tag - Suc 0) rest"
    if "parseDollarTag (ch # rest) = Some tag" for tag
    using that parseDollarTag_prefix [OF that] prefix_take_eq [of tag ch rest]
    by (auto simp: parseDollarTag_def split: if_splits)
  have open_tag: "d = ch # take (length d - Suc 0) rest"
    if "HasPrefix (ch # rest) d" and "d \<noteq> []" for d
    using that prefix_take_eq [of d ch rest] by (simp add: HasPrefix_def)
  show ?thesis
    using assms skip flush tag [symmetric] open_tag [symmetric]
    by (auto simp: scan_step_def take_Suc split: if_splits option.splits)
qed

lemma collected_loop: "subseq (collected (split_loop s sql)) (collected s @ sql)"
proof (induction s sql rule: split_loop.induct)
  case (1 s)
  then show ?case by simp
next
  case (2 s ch rest)
  obtain s' k where step: "scan_step s ch rest = (s', k)" by fastforce
  have "subseq (collected (split_loop s' (drop k rest))) (collected s' @ drop k rest)"
    using 2 step by simp
  also have "subseq \<dots> ((collected s @ ch # take k rest) @ drop k rest)"
    by (rule list_emb_append_mono [OF collected_step [OF step]]) simp
  finally show ?case by (simp add: step)
qed

section \<open>A grammar of SQL text\<close>

text \<open>
  The lexical pieces of a migration as the scanner distinguishes them, and their text. A piece
  may need something of the text after it, for instance a single-quoted string must not be
  followed by another quote, which would continue it, and a plain dollar must not begin the opening
  of a dollar-quoted body. The opening is a name, perhaps empty, of letters, digits and underscores
  between two dollars, and the body ends where the same text comes again.
\<close>

datatype piece =
    Plain char
  | SingleQuoted string
  | DoubleQuoted string
  | DollarQuoted string string
  | Comment string
  | Semicolon

fun double :: "char \<Rightarrow> string \<Rightarrow> string" where
  "double q [] = []"
| "double q (c # s) = (if c = q then [q, q] else [c]) @ double q s"

definition tag_codes :: "nat list" where
  "tag_codes = [48..<58] @ [65..<91] @ [95] @ [97..<123]"

definition tag_char :: "char \<Rightarrow> bool" where
  "tag_char c \<longleftrightarrow> of_char c \<in> set tag_codes"

definition dollars :: "string \<Rightarrow> string" where
  "dollars name = CHR ''$'' # name @ [CHR ''$'']"

primrec piece_text :: "piece \<Rightarrow> string" where
  "piece_text (Plain c) = [c]"
| "piece_text (SingleQuoted s) = CHR 0x27 # double (CHR 0x27) s @ [CHR 0x27]"
| "piece_text (DoubleQuoted s) = CHR 0x22 # double (CHR 0x22) s @ [CHR 0x22]"
| "piece_text (DollarQuoted name body) = dollars name @ body @ dollars name"
| "piece_text (Comment s) = ''--'' @ s @ [CHR 0x0A]"
| "piece_text Semicolon = '';''"

definition render_sql :: "piece list \<Rightarrow> string" where
  "render_sql ps = concat (map piece_text ps)"

fun tag_only_at_end :: "string \<Rightarrow> string \<Rightarrow> bool" where
  "tag_only_at_end tag [] = True"
| "tag_only_at_end tag (c # b) = (\<not> prefix tag (c # b @ tag) \<and> tag_only_at_end tag b)"

fun piece_ok :: "piece \<Rightarrow> string \<Rightarrow> bool" where
  "piece_ok (Plain c) rest =
     (c \<noteq> CHR 0x27 \<and> c \<noteq> CHR 0x22 \<and> c \<noteq> CHR '';'' \<and>
      (c = CHR ''-'' \<longrightarrow> take 1 rest \<noteq> ''-'') \<and> (c = CHR ''$'' \<longrightarrow> take 1 (dropWhile tag_char rest) \<noteq> ''$''))"
| "piece_ok (SingleQuoted s) rest = (take 1 rest \<noteq> [CHR 0x27])"
| "piece_ok (DoubleQuoted s) rest = (take 1 rest \<noteq> [CHR 0x22])"
| "piece_ok (DollarQuoted name body) rest =
     (list_all tag_char name \<and> tag_only_at_end (dollars name) body)"
| "piece_ok (Comment s) rest = (CHR 0x0A \<notin> set s)"
| "piece_ok Semicolon rest = True"

fun pieces_ok :: "piece list \<Rightarrow> bool" where
  "pieces_ok [] = True"
| "pieces_ok (p # ps) = (piece_ok p (render_sql ps) \<and> pieces_ok ps)"

text \<open>What the pieces denote: a comment is the line end it contains.\<close>

fun kept_text :: "piece \<Rightarrow> string" where
  "kept_text (Comment s) = [CHR 0x0A]"
| "kept_text p = piece_text p"

fun statements_of :: "string \<Rightarrow> piece list \<Rightarrow> string list" where
  "statements_of cur [] = [cur]"
| "statements_of cur (p # ps) =
     (if p = Semicolon then cur # statements_of [] ps else statements_of (cur @ kept_text p) ps)"

definition denoted_statements :: "piece list \<Rightarrow> string list" where
  "denoted_statements ps = filter (\<lambda>t. t \<noteq> []) (map TrimSpace (statements_of [] ps))"

section \<open>Scanning a printed piece\<close>

definition neutral :: "scan \<Rightarrow> bool" where
  "neutral s \<longleftrightarrow> \<not> inLineComment s \<and> \<not> inSingleQuote s \<and> \<not> inDoubleQuote s \<and> dollarTag s = []"

lemma neutral_emit [simp]: "neutral (emit t s) = neutral s"
  by (simp add: neutral_def)

lemma emit_emit [simp]: "emit u (emit t s) = emit (t @ u) s"
  by (simp add: emit_def)

lemma emit_Nil [simp]: "emit [] s = s"
  by (simp add: emit_def)

lemma emit_commute [simp]:
  "emit t (s\<lparr>inSingleQuote := b\<rparr>) = (emit t s)\<lparr>inSingleQuote := b\<rparr>"
  "emit t (s\<lparr>inDoubleQuote := b\<rparr>) = (emit t s)\<lparr>inDoubleQuote := b\<rparr>"
  "emit t (s\<lparr>inLineComment := b\<rparr>) = (emit t s)\<lparr>inLineComment := b\<rparr>"
  "emit t (s\<lparr>dollarTag := d\<rparr>) = (emit t s)\<lparr>dollarTag := d\<rparr>"
  by (simp_all add: emit_def)

lemma flag_resets [simp]:
  "\<not> inSingleQuote s \<Longrightarrow> s\<lparr>inSingleQuote := False\<rparr> = s"
  "\<not> inDoubleQuote s \<Longrightarrow> s\<lparr>inDoubleQuote := False\<rparr> = s"
  "\<not> inLineComment s \<Longrightarrow> s\<lparr>inLineComment := False\<rparr> = s"
  "dollarTag s = [] \<Longrightarrow> s\<lparr>dollarTag := []\<rparr> = s"
  by simp_all

lemma next_char: "take 1 rest \<noteq> [c] \<Longrightarrow> \<not> (rest \<noteq> [] \<and> hd rest = c)"
  by (cases rest) simp_all

lemma split_single_quoted:
  assumes "neutral s" and "take 1 rest \<noteq> [CHR 0x27]"
  shows "split_loop (s\<lparr>inSingleQuote := True\<rparr>) (double (CHR 0x27) t @ CHR 0x27 # rest) =
    split_loop (emit (double (CHR 0x27) t @ [CHR 0x27]) s) rest"
  using assms(1)
proof (induction t arbitrary: s)
  case Nil
  with next_char [OF assms(2)] show ?case
    by (auto simp: scan_step_def neutral_def)
next
  case (Cons c t)
  from Cons.IH [of "emit (if c = CHR 0x27 then [c, c] else [c]) s"] Cons.prems show ?case
    by (cases "c = CHR 0x27") (simp_all add: scan_step_def neutral_def)
qed

lemma split_double_quoted:
  assumes "neutral s" and "take 1 rest \<noteq> [CHR 0x22]"
  shows "split_loop (s\<lparr>inDoubleQuote := True\<rparr>) (double (CHR 0x22) t @ CHR 0x22 # rest) =
    split_loop (emit (double (CHR 0x22) t @ [CHR 0x22]) s) rest"
  using assms(1)
proof (induction t arbitrary: s)
  case Nil
  with next_char [OF assms(2)] show ?case
    by (auto simp: scan_step_def neutral_def)
next
  case (Cons c t)
  from Cons.IH [of "emit (if c = CHR 0x22 then [c, c] else [c]) s"] Cons.prems show ?case
    by (cases "c = CHR 0x22") (simp_all add: scan_step_def neutral_def)
qed

lemma split_comment:
  assumes "neutral s" and "CHR 0x0A \<notin> set t"
  shows "split_loop (s\<lparr>inLineComment := True\<rparr>) (t @ CHR 0x0A # rest) = split_loop (emit [CHR 0x0A] s) rest"
  using assms(2)
proof (induction t)
  case Nil
  with assms(1) show ?case
    by (simp add: scan_step_def neutral_def)
next
  case (Cons c t)
  with assms(1) show ?case
    by (auto simp: scan_step_def neutral_def)
qed

lemma prefix_append_short: "length p \<le> length xs \<Longrightarrow> prefix p (xs @ ys) = prefix p xs"
  by (metis append_eq_append_conv_if prefix_def prefix_length_prefix prefix_order.order_refl prefixI)

lemma split_dollar_quoted:
  assumes "neutral s" and "tag \<noteq> []" and "tag_only_at_end tag body"
  shows "split_loop (s\<lparr>dollarTag := tag\<rparr>) (body @ tag @ rest) = split_loop (emit (body @ tag) s) rest"
  using assms(1,3)
proof (induction body arbitrary: s)
  case Nil
  obtain d t where tag: "tag = d # t" using assms(2) by (cases tag) auto
  with Nil show ?case
    by (simp add: scan_step_def neutral_def HasPrefix_def)
next
  case (Cons c body)
  have "\<not> prefix tag ((c # body @ tag) @ rest)"
    using Cons.prems(2) by (subst prefix_append_short) simp_all
  then have "scan_step (s\<lparr>dollarTag := tag\<rparr>) c (body @ tag @ rest) = ((emit [c] s)\<lparr>dollarTag := tag\<rparr>, 0)"
    using Cons.prems(1) assms(2) by (simp add: scan_step_def neutral_def HasPrefix_def)
  with Cons.IH [of "emit [c] s"] Cons.prems show ?case by simp
qed

lemma tag_char_ident: "tag_char c = is_ident_char c"
proof -
  have "of_char c = (95::nat) \<longleftrightarrow> c = CHR ''_''"
    using of_char_eq_iff [of c "CHR ''_''", where ?'a = nat] by simp
  then show ?thesis
    unfolding tag_char_def tag_codes_def is_ident_char_def is_digit_def is_lower_def is_upper_def
      set_append set_upt Un_iff atLeastLessThan_iff list.set insert_iff empty_iff
    by auto
qed

lemma not_tag_char_dollar [simp]: "\<not> tag_char CHR ''$''"
  by code_simp

lemma tag_rest_name: "list_all tag_char name \<Longrightarrow> tag_rest (name @ CHR ''$'' # rest) = Some (name @ ''$'')"
  by (induction name) (auto simp flip: tag_char_ident)

lemma tag_rest_none: "take 1 (dropWhile tag_char rest) \<noteq> ''$'' \<Longrightarrow> tag_rest rest = None"
  by (induction rest) (auto simp flip: tag_char_ident split: if_splits)

lemma parseDollarTag_dollars:
  "list_all tag_char name \<Longrightarrow> parseDollarTag (dollars name @ rest) = Some (dollars name)"
  by (simp add: parseDollarTag_def dollars_def tag_rest_name)

lemma parseDollarTag_none:
  "take 1 (dropWhile tag_char rest) \<noteq> ''$'' \<Longrightarrow> parseDollarTag (CHR ''$'' # rest) = None"
  by (simp only: parseDollarTag_def list.case simp_thms if_False tag_rest_none option.map)

lemma split_piece:
  assumes "neutral s" and "piece_ok p rest" and "p \<noteq> Semicolon"
  shows "split_loop s (piece_text p @ rest) = split_loop (emit (kept_text p) s) rest"
proof (cases p)
  case (Plain c)
  with assms next_char [of rest "CHR ''-''"] parseDollarTag_none [of rest] show ?thesis
    by (auto simp: scan_step_def neutral_def)
next
  case (SingleQuoted t)
  with assms split_single_quoted [of "emit [CHR 0x27] s" rest t] show ?thesis
    by (simp add: scan_step_def neutral_def)
next
  case (DoubleQuoted t)
  with assms split_double_quoted [of "emit [CHR 0x22] s" rest t] show ?thesis
    by (simp add: scan_step_def neutral_def)
next
  case (DollarQuoted name body)
  let ?tag = "dollars name"
  from DollarQuoted assms(2) have name: "list_all tag_char name" and body: "tag_only_at_end ?tag body"
    by simp_all
  obtain t where t: "?tag = CHR ''$'' # t"
    by (simp add: dollars_def)
  have "scan_step s (CHR ''$'') (t @ body @ ?tag @ rest) = (emit ?tag (s\<lparr>dollarTag := ?tag\<rparr>), length ?tag - 1)"
    using assms(1) parseDollarTag_dollars [OF name, of "body @ ?tag @ rest"] t
    by (simp add: scan_step_def neutral_def)
  with split_dollar_quoted [of "emit ?tag s" ?tag body rest] assms(1) body DollarQuoted t show ?thesis
    by simp
next
  case (Comment t)
  with assms split_comment [of s t rest] show ?thesis
    by (simp add: scan_step_def neutral_def)
next
  case Semicolon
  with assms(3) show ?thesis by simp
qed

lemma split_semicolon: "neutral s \<Longrightarrow> split_loop s (CHR '';'' # rest) = split_loop (flush s) rest"
  by (simp add: scan_step_def neutral_def)

lemma stmts_flush: "stmts (flush s) = stmts s @ filter (\<lambda>t. t \<noteq> []) [TrimSpace (current s)]"
  by (simp add: flush_def Let_def)

lemma render_Cons: "render_sql (p # ps) = piece_text p @ render_sql ps"
  by (simp add: render_sql_def)

lemma split_render:
  "neutral s \<Longrightarrow> pieces_ok ps \<Longrightarrow>
   stmts (flush (split_loop s (render_sql ps))) =
     stmts s @ filter (\<lambda>t. t \<noteq> []) (map TrimSpace (statements_of (current s) ps))"
proof (induction ps arbitrary: s)
  case Nil
  then show ?case by (simp add: render_sql_def stmts_flush)
next
  case (Cons p ps)
  show ?case
  proof (cases "p = Semicolon")
    case True
    have "neutral (flush s)" using Cons.prems(1) by (simp add: neutral_def)
    then have "stmts (flush (split_loop s (render_sql (p # ps)))) =
        stmts (flush s) @ filter (\<lambda>t. t \<noteq> []) (map TrimSpace (statements_of [] ps))"
      using Cons.IH [of "flush s"] Cons.prems True
      by (simp only: render_Cons piece_text.simps append_Cons append_Nil split_semicolon
          pieces_ok.simps flush_simps)
    with True show ?thesis by (simp add: stmts_flush)
  next
    case False
    with Cons.IH [of "emit (kept_text p) s"] Cons.prems show ?thesis
      by (simp add: render_Cons split_piece)
  qed
qed

section \<open>Properties\<close>

text \<open>
  C23: Splitting a migration text gives exactly the statements its lexical pieces denote: cut at
  the semicolons outside strings, quoted identifiers, dollar-quoted bodies and line comments, with
  line comments dropped, surrounding space removed and empty statements left out. A dollar-quoted
  body is one between two equal tags, with or without a name. The text of a block comment is text
  like any other here.
\<close>

theorem splitStatements_render:
  "pieces_ok ps \<Longrightarrow> splitStatements (render_sql ps) = denoted_statements ps"
  using split_render [of scan_start ps]
  by (simp add: splitStatements_def denoted_statements_def neutral_def scan_start_def)

lemma splitStatements_render_witness:
  "splitStatements (''-- setup; '' @ [CHR 0x0A] @ ''a'' @ [CHR 0x27] @ '';'' @ [CHR 0x27] @ ''; $f$ $$; $f$;$$;$$ $1;'') =
     [''a'' @ [CHR 0x27] @ '';'' @ [CHR 0x27], ''$f$ $$; $f$'', ''$$;$$ $1'']"
proof -
  let ?ps = "[Comment '' setup; '', Plain (CHR ''a''), SingleQuoted '';'', Semicolon,
     Plain (CHR '' ''), DollarQuoted ''f'' '' $$; '', Semicolon,
     DollarQuoted [] '';'', Plain (CHR '' ''), Plain (CHR ''$''), Plain (CHR ''1''), Semicolon]"
  have "pieces_ok ?ps" by code_simp
  moreover have "denoted_statements ?ps =
      [''a'' @ [CHR 0x27] @ '';'' @ [CHR 0x27], ''$f$ $$; $f$'', ''$$;$$ $1'']"
    by code_simp
  moreover have "render_sql ?ps =
      ''-- setup; '' @ [CHR 0x0A] @ ''a'' @ [CHR 0x27] @ '';'' @ [CHR 0x27] @ ''; $f$ $$; $f$;$$;$$ $1;''"
    by code_simp
  ultimately show ?thesis using splitStatements_render [of ?ps] by simp
qed

text \<open>
  PostgreSQL skips a block comment, semicolons and quotes in it included; the code cuts there and
  sends two statements that are both refused. No migration of the repository has a block comment.
\<close>

lemma block_comment_is_cut: "splitStatements ''/* a; b */ c'' = [''/* a'', ''b */ c'']"
  by code_simp

text \<open>
  For any text, well-formed or not (an unclosed string or comment included), every statement
  is non-empty and has no surrounding space, and the statements in order are a subsequence of
  the text: nothing is invented, duplicated or reordered.
\<close>

theorem splitStatements_safe:
  "(\<forall>t \<in> set (splitStatements sql). t \<noteq> [] \<and> TrimSpace t = t)
   \<and> subseq (concat (splitStatements sql)) sql"
proof -
  let ?fin = "flush (split_loop scan_start sql)"
  have "clean_stmts ?fin"
    by (intro clean_flush clean_split_loop) (simp add: clean_stmts_def scan_start_def)
  moreover have "subseq (collected ?fin) sql"
    using collected_flush collected_loop [of scan_start sql]
    by (metis append_Nil collected_def concat.simps(1) scan.select_convs(1,2) scan_start_def
        subseq_order.trans)
  ultimately show ?thesis
    by (auto simp: splitStatements_def clean_stmts_def collected_def)
qed

lemma splitStatements_safe_witness:
  "TrimSpace (hd (splitStatements '' a ; b '')) = hd (splitStatements '' a ; b '')"
proof -
  have "splitStatements '' a ; b '' = [''a'', ''b'']" by code_simp
  then show ?thesis using splitStatements_safe [of "'' a ; b ''"] by simp
qed

end
