(* ===== verification/Migrate.thy ===== *)
theory Migrate
  imports Sql_Split Pg "HOL-Library.List_Lexorder" "HOL-Library.Char_ord"
begin

text \<open>
  \<open>Migrate\<close> and \<open>applyMigration\<close> of \<open>server/internal/postgres/migrate.go\<close>. What a migration
  statement does to the database is PostgreSQL's, so it is a parameter
  \<open>exec_sql :: string \<Rightarrow> 'd \<Rightarrow> 'd result\<close> on the application tables \<open>'d\<close>; the table
  \<open>schema_migrations\<close> that the migrator itself owns is modelled here. The embedded files are the
  directory listing and a reading function. Reading the rows of the applied versions is one
  exchange; its three error messages are one.
\<close>

section \<open>The migrator\<close>

record 'd migdb =
  schema_migrations :: "string list option"
  app :: 'd

record dir_entry =
  de_Name :: string
  de_IsDir :: bool

text \<open>\<open>filepath.Ext\<close>: from the last dot of the last path element.\<close>

definition path_Ext :: "string \<Rightarrow> string" where
  "path_Ext p =
     (let base = rev (takeWhile (\<lambda>c. c \<noteq> CHR ''/'') (rev p))
      in case LastIndex base (CHR ''.'') of None \<Rightarrow> [] | Some i \<Rightarrow> drop i base)"

definition migration_files :: "dir_entry list \<Rightarrow> string list" where
  "migration_files entries =
     sort (filter (\<lambda>name. path_Ext name = ''.sql'') (map de_Name (filter (\<lambda>e. \<not> de_IsDir e) entries)))"

definition create_schema_migrations :: "('d migdb, unit) stmt" where
  "create_schema_migrations t =
     Inr ((), t\<lparr>schema_migrations := Some (case schema_migrations t of None \<Rightarrow> [] | Some vs \<Rightarrow> vs)\<rparr>)"

definition select_versions :: "'d migdb \<Rightarrow> string list result" where
  "select_versions t =
     (case schema_migrations t of None \<Rightarrow> Inl (PgError ''42P01'') | Some vs \<Rightarrow> Inr vs)"

definition insert_version :: "string \<Rightarrow> ('d migdb, unit) stmt" where
  "insert_version name t =
     (case schema_migrations t of
        None \<Rightarrow> Inl (PgError ''42P01'')
      | Some vs \<Rightarrow> if name \<in> set vs then Inl (PgError ''23505'')
                   else Inr ((), t\<lparr>schema_migrations := Some (vs @ [name])\<rparr>))"

definition run_statement :: "(string \<Rightarrow> 'd \<Rightarrow> 'd result) \<Rightarrow> string \<Rightarrow> ('d migdb, unit) stmt" where
  "run_statement exec_sql st t =
     (case exec_sql st (app t) of Inl e \<Rightarrow> Inl e | Inr d \<Rightarrow> Inr ((), t\<lparr>app := d\<rparr>))"

definition migration_body ::
  "(string \<Rightarrow> 'd \<Rightarrow> 'd result) \<Rightarrow> string \<Rightarrow> string \<Rightarrow> ('d migdb, unit) txop" where
  "migration_body exec_sql name sql =
     bind_op (for_each (\<lambda>st. wrap_err (''apply migration '' @ name) (tx_exec (run_statement exec_sql st)))
               (splitStatements sql))
       (\<lambda>_. wrap_err (''record migration '' @ name) (tx_exec (insert_version name)))"

definition applyMigration ::
  "(string \<Rightarrow> 'd \<Rightarrow> 'd result) \<Rightarrow> string \<Rightarrow> string \<Rightarrow> ('d migdb, unit) dbop" where
  "applyMigration exec_sql name sql =
     transaction (''begin migration transaction ('' @ name @ '')'') (''commit migration '' @ name)
       (migration_body exec_sql name sql)"

definition migrate_file ::
  "(string \<Rightarrow> 'd \<Rightarrow> 'd result) \<Rightarrow> (string \<Rightarrow> string result) \<Rightarrow> string set \<Rightarrow> string \<Rightarrow> ('d migdb, unit) dbop" where
  "migrate_file exec_sql readFile applied name =
     (if name \<in> applied then ret ()
      else (case readFile name of
              Inl e \<Rightarrow> fail (Wrap (''read migration '' @ name) e)
            | Inr content \<Rightarrow> applyMigration exec_sql name content))"

definition Migrate ::
  "(string \<Rightarrow> 'd \<Rightarrow> 'd result) \<Rightarrow> dir_entry list result \<Rightarrow> (string \<Rightarrow> string result) \<Rightarrow> ('d migdb, unit) dbop" where
  "Migrate exec_sql readDir readFile =
     bind_op (wrap_err ''create schema_migrations'' (exec create_schema_migrations)) (\<lambda>_.
     bind_op (wrap_err ''load applied migrations'' (query select_versions)) (\<lambda>vs.
       case readDir of
         Inl e \<Rightarrow> fail (Wrap ''read embedded migrations'' e)
       | Inr entries \<Rightarrow> for_each (migrate_file exec_sql readFile (set vs)) (migration_files entries)))"

section \<open>Reference: applying files in order\<close>

fun run_sql :: "(string \<Rightarrow> 'd \<Rightarrow> 'd result) \<Rightarrow> string list \<Rightarrow> 'd \<Rightarrow> 'd result" where
  "run_sql exec_sql [] d = Inr d"
| "run_sql exec_sql (st # sts) d = bind_result (exec_sql st d) (run_sql exec_sql sts)"

fun apply_files ::
  "(string \<Rightarrow> 'd \<Rightarrow> 'd result) \<Rightarrow> (string \<Rightarrow> string result) \<Rightarrow> string list \<Rightarrow> 'd \<Rightarrow> 'd result" where
  "apply_files exec_sql readFile [] d = Inr d"
| "apply_files exec_sql readFile (name # names) d =
     bind_result (readFile name) (\<lambda>sql.
     bind_result (run_sql exec_sql (splitStatements sql) d) (apply_files exec_sql readFile names))"

definition versions :: "'d migdb \<Rightarrow> string list" where
  "versions t = (case schema_migrations t of None \<Rightarrow> [] | Some vs \<Rightarrow> vs)"

definition pending :: "dir_entry list \<Rightarrow> 'd migdb \<Rightarrow> string list" where
  "pending entries t = filter (\<lambda>name. name \<notin> set (versions t)) (migration_files entries)"

section \<open>Proofs\<close>

lemma run_statement_ok:
  "run_statement exec_sql st t = Inr ((), t') \<Longrightarrow>
   exec_sql st (app t) = Inr (app t') \<and> schema_migrations t' = schema_migrations t"
  by (auto simp: run_statement_def split: sum.splits)

lemma insert_version_ok:
  "insert_version name t = Inr ((), t') \<Longrightarrow>
   \<exists>vs. schema_migrations t = Some vs \<and> name \<notin> set vs \<and>
     schema_migrations t' = Some (vs @ [name]) \<and> app t' = app t"
  by (auto simp: insert_version_def split: option.splits if_splits)

lemma run_statements_tx:
  "for_each (\<lambda>st. wrap_err msg (tx_exec (run_statement exec_sql st))) sts x = (Inr (), x') \<Longrightarrow>
   run_sql exec_sql sts (app (work x)) = Inr (app (work x')) \<and>
   schema_migrations (work x') = schema_migrations (work x)"
proof (induction sts arbitrary: x)
  case Nil
  then show ?case by simp
next
  case (Cons st sts)
  let ?f = "\<lambda>st. wrap_err msg (tx_exec (run_statement exec_sql st))"
  from Cons.prems obtain x1 where first: "?f st x = (Inr (), x1)"
    and rest: "for_each ?f sts x1 = (Inr (), x')"
    by (auto split: prod.splits sum.splits)
  from first have "run_statement exec_sql st (work x) = Inr ((), work x1)"
    by (auto simp: wrap_err_ok dest: tx_exec_ok)
  then have "exec_sql st (app (work x)) = Inr (app (work x1))"
    "schema_migrations (work x1) = schema_migrations (work x)"
    by (simp_all add: run_statement_ok)
  with Cons.IH [OF rest] show ?case by simp
qed

lemma migration_body_ok:
  assumes "migration_body exec_sql name sql x = (Inr (), x')"
  shows "\<exists>vs. schema_migrations (work x) = Some vs \<and> name \<notin> set vs \<and>
    schema_migrations (work x') = Some (vs @ [name]) \<and>
    run_sql exec_sql (splitStatements sql) (app (work x)) = Inr (app (work x'))"
proof -
  from assms obtain x1 where
    run: "for_each (\<lambda>st. wrap_err (''apply migration '' @ name) (tx_exec (run_statement exec_sql st)))
      (splitStatements sql) x = (Inr (), x1)"
    and recorded: "tx_exec (insert_version name) x1 = (Inr (), x')"
    by (auto simp: migration_body_def bind_op_ok wrap_err_ok)
  from recorded have "insert_version name (work x1) = Inr ((), work x')"
    by (auto dest: tx_exec_ok)
  from insert_version_ok [OF this] run_statements_tx [OF run] show ?thesis
    by auto
qed

text \<open>One migration is applied and recorded, or the tables are as before.\<close>

lemma applyMigration_outcome:
  assumes "applyMigration exec_sql name sql s = (r, s')"
  shows "tables s' = tables s \<and> r \<noteq> Inr () \<or>
    (\<exists>vs. schema_migrations (tables s) = Some vs \<and> name \<notin> set vs \<and>
      schema_migrations (tables s') = Some (vs @ [name]) \<and>
      run_sql exec_sql (splitStatements sql) (app (tables s)) = Inr (app (tables s')))"
proof -
  let ?body = "migration_body exec_sql name sql"
  have applied: "\<exists>vs. schema_migrations (tables s) = Some vs \<and> name \<notin> set vs \<and>
      schema_migrations (work x) = Some (vs @ [name]) \<and>
      run_sql exec_sql (splitStatements sql) (app (tables s)) = Inr (app (work x))"
    if "body_result ?body s = (Inr v, x)" for v x
    using migration_body_ok [of exec_sql name sql _ x] that
    by (fastforce simp: body_result_def dest: migration_body_ok)
  show ?thesis
  proof (cases r)
    case (Inr v)
    with assms have "\<exists>x. body_result ?body s = (Inr v, x) \<and> tables s' = work x"
      unfolding applyMigration_def using transaction_ok by metis
    with applied show ?thesis by metis
  next
    case (Inl e)
    with assms transaction_atomic [of _ _ ?body s] applied show ?thesis
      unfolding applyMigration_def by (metis old.sum.distinct(1) snd_conv)
  qed
qed

text \<open>The loop over the files: whatever happens, a prefix of the pending ones is done.\<close>

lemma apply_files_first:
  "apply_files exec_sql readFile (name # names) d =
     bind_result (apply_files exec_sql readFile [name] d) (apply_files exec_sql readFile names)"
proof (cases "readFile name")
  case (Inr sql)
  then show ?thesis
    by (cases "run_sql exec_sql (splitStatements sql) d") simp_all
qed simp

lemma migrate_file_outcome:
  assumes "migrate_file exec_sql readFile applied name s = (r, s')" "schema_migrations (tables s) = Some vs"
  shows "name \<in> applied \<and> r = Inr () \<and> s' = s \<or>
    name \<notin> applied \<and> (tables s' = tables s \<and> r \<noteq> Inr () \<or>
      schema_migrations (tables s') = Some (vs @ [name]) \<and>
      apply_files exec_sql readFile [name] (app (tables s)) = Inr (app (tables s')))"
proof (cases "readFile name")
  case (Inl e)
  with assms show ?thesis
    by (auto simp: migrate_file_def ret_def fail_def split: if_splits)
next
  case (Inr sql)
  with assms applyMigration_outcome [of exec_sql name sql s r s'] show ?thesis
    by (auto simp: migrate_file_def ret_def split: if_splits)
qed

lemma migrate_loop:
  assumes "for_each (migrate_file exec_sql readFile applied) names s = (r, s')"
    and "schema_migrations (tables s) = Some vs"
  shows "\<exists>done rest. filter (\<lambda>n. n \<notin> applied) names = done @ rest \<and>
    schema_migrations (tables s') = Some (vs @ done) \<and>
    apply_files exec_sql readFile done (app (tables s)) = Inr (app (tables s')) \<and>
    (r = Inr () \<longrightarrow> rest = [])"
  using assms
proof (induction names arbitrary: s vs)
  case Nil
  then show ?case by simp
next
  case (Cons name names)
  obtain r1 s1 where step: "migrate_file exec_sql readFile applied name s = (r1, s1)" by fastforce
  have loop: "(case r1 of Inl e \<Rightarrow> (Inl e, s1)
      | Inr _ \<Rightarrow> for_each (migrate_file exec_sql readFile applied) names s1) = (r, s')"
    using Cons.prems(1) step by simp
  from migrate_file_outcome [OF step Cons.prems(2)] consider
      (skipped) "name \<in> applied" "r1 = Inr ()" "s1 = s"
    | (failed) "name \<notin> applied" "tables s1 = tables s" "r1 \<noteq> Inr ()"
    | (did) "name \<notin> applied" "schema_migrations (tables s1) = Some (vs @ [name])"
        "apply_files exec_sql readFile [name] (app (tables s)) = Inr (app (tables s1))"
    by blast
  then show ?case
  proof cases
    case skipped
    with Cons loop show ?thesis by simp
  next
    case failed
    with loop obtain e where "r = Inl e" "tables s' = tables s" by (cases r1) auto
    with Cons.prems(2) show ?thesis
      by (intro exI [of _ "[]"] exI [of _ "filter (\<lambda>n. n \<notin> applied) (name # names)"]) auto
  next
    case did
    show ?thesis
    proof (cases r1)
      case (Inl e)
      with loop have "r = Inl e" "s' = s1" by auto
      with did show ?thesis
        by (intro exI [of _ "[name]"] exI [of _ "filter (\<lambda>n. n \<notin> applied) names"]) simp
    next
      case (Inr u)
      with loop have "for_each (migrate_file exec_sql readFile applied) names s1 = (r, s')" by simp
      from Cons.IH [OF this did(2)] obtain "done" rest where
        "filter (\<lambda>n. n \<notin> applied) names = done @ rest"
        "schema_migrations (tables s') = Some ((vs @ [name]) @ done)"
        "apply_files exec_sql readFile done (app (tables s1)) = Inr (app (tables s'))"
        "r = Inr () \<longrightarrow> rest = []"
        by blast
      with did show ?thesis
        by (intro exI [of _ "name # done"] exI [of _ rest]) (simp add: apply_files_first [of _ _ name "done"] del: apply_files.simps(2))
    qed
  qed
qed

lemma create_schema_ok:
  "create_schema_migrations t = Inr ((), t') \<Longrightarrow>
   schema_migrations t' = Some (versions t) \<and> app t' = app t"
  by (auto simp: create_schema_migrations_def versions_def)

lemma Migrate_cases:
  assumes "Migrate exec_sql (Inr entries) readFile s = (r, s')"
  shows "\<exists>done rest. pending entries (tables s) = done @ rest \<and>
    versions (tables s') = versions (tables s) @ done \<and>
    apply_files exec_sql readFile done (app (tables s)) = Inr (app (tables s')) \<and>
    (r = Inr () \<longrightarrow> rest = [])"
proof -
  have none: ?thesis if "versions (tables s') = versions (tables s)" "app (tables s') = app (tables s)"
    "r \<noteq> Inr ()"
    using that by (intro exI [of _ "[]"] exI [of _ "pending entries (tables s)"]) simp
  obtain r1 s1 where create: "exec create_schema_migrations s = (r1, s1)" by fastforce
  have created: "versions (tables s1) = versions (tables s)" "app (tables s1) = app (tables s)"
    using exec_tables [of create_schema_migrations s] create create_schema_ok
    by (fastforce simp: versions_def)+
  show ?thesis
  proof (cases r1)
    case (Inl e)
    with assms create created none show ?thesis
      by (auto simp: Migrate_def bind_op_def wrap_err_def)
  next
    case (Inr u)
    then have some: "schema_migrations (tables s1) = Some (versions (tables s))"
      using create create_schema_ok by (metis (full_types) exec_ok old.unit.exhaust)
    obtain r2 s2 where load: "query select_versions s1 = (r2, s2)" by fastforce
    have same: "tables s2 = tables s1" using load query_tables by (metis snd_conv)
    show ?thesis
    proof (cases r2)
      case (Inl e)
      with assms create load \<open>r1 = Inr u\<close> same created none show ?thesis
        by (auto simp: Migrate_def bind_op_def wrap_err_def)
    next
      case Inr2: (Inr vs)
      then have vs: "vs = versions (tables s)"
        using query_ok load some by (fastforce simp: select_versions_def)
      have "for_each (migrate_file exec_sql readFile (set vs)) (migration_files entries) s2 = (r, s')"
        using assms create load Inr Inr2 by (simp add: Migrate_def bind_op_def wrap_err_def)
      from migrate_loop [OF this, of "versions (tables s)"] same some created vs show ?thesis
        by (auto simp: pending_def versions_def)
    qed
  qed
qed

section \<open>Properties\<close>

text \<open>
  C33: When Migrate returns without an error, exactly the pending files were applied, each once
  and in the sorted order of their names, on top of what was there, and they are recorded in
  that order; whatever exchanges failed on the way, nothing else changed.
\<close>

theorem Migrate_applies_pending:
  assumes "Migrate exec_sql (Inr entries) readFile s = (Inr (), s')"
  shows "apply_files exec_sql readFile (pending entries (tables s)) (app (tables s)) = Inr (app (tables s'))
    \<and> versions (tables s') = versions (tables s) @ pending entries (tables s)
    \<and> pending entries (tables s') = []
    \<and> sorted (pending entries (tables s))"
proof -
  from Migrate_cases [OF assms]
  have "apply_files exec_sql readFile (pending entries (tables s)) (app (tables s)) = Inr (app (tables s'))"
    and "versions (tables s') = versions (tables s) @ pending entries (tables s)"
    by auto
  moreover from this(2) have "pending entries (tables s') = []"
    by (auto simp: pending_def filter_empty_conv)
  moreover have "sorted (pending entries (tables s))"
    unfolding pending_def migration_files_def by (metis map_ident sorted_filter sorted_sort)
  ultimately show ?thesis by blast
qed

definition demo_entries :: "dir_entry list" where
  "demo_entries = [\<lparr>de_Name = ''2.sql'', de_IsDir = False\<rparr>, \<lparr>de_Name = ''embed.go'', de_IsDir = False\<rparr>,
     \<lparr>de_Name = ''1.sql'', de_IsDir = False\<rparr>]"

definition demo_files :: "string \<Rightarrow> string result" where
  "demo_files name = (if name = ''1.sql'' then Inr ''A; B;'' else Inr ''C'')"

definition demo_exec :: "string \<Rightarrow> string list \<Rightarrow> string list result" where
  "demo_exec st log = (if st = ''B'' \<and> log = [] then Inl (PgError ''42601'') else Inr (log @ [st]))"

lemma Migrate_applies_pending_witness:
  "app (tables (snd (Migrate demo_exec (Inr demo_entries) demo_files
     (healthy \<lparr>schema_migrations = None, app = []\<rparr>)))) = [''A'', ''B'', ''C'']"
proof -
  let ?s = "healthy \<lparr>schema_migrations = None, app = []\<rparr> :: string list migdb pg"
  have "fst (Migrate demo_exec (Inr demo_entries) demo_files ?s) = Inr ()" by code_simp
  then have "Migrate demo_exec (Inr demo_entries) demo_files ?s =
      (Inr (), snd (Migrate demo_exec (Inr demo_entries) demo_files ?s))"
    by (metis prod.collapse)
  from Migrate_applies_pending [OF this]
  have "Inr (app (tables (snd (Migrate demo_exec (Inr demo_entries) demo_files ?s)))) =
      apply_files demo_exec demo_files (pending demo_entries (tables ?s)) (app (tables ?s))"
    by simp
  also have "pending demo_entries (tables ?s) = [''1.sql'', ''2.sql'']" by code_simp
  also have "apply_files demo_exec demo_files [''1.sql'', ''2.sql''] (app (tables ?s)) = Inr [''A'', ''B'', ''C'']"
  proof -
    have "splitStatements ''A; B;'' = [''A'', ''B'']" and "splitStatements ''C'' = [''C'']"
      by code_simp+
    then show ?thesis by (simp add: demo_files_def demo_exec_def)
  qed
  finally show ?thesis by simp
qed

text \<open>
  C34: A failed run leaves a clean prefix: whatever fails (a lost request, a lost reply even of a
  commit, a bad statement, an unreadable file), the database is as if the first few pending
  files had been applied completely and recorded, and the others not at all.
\<close>

theorem Migrate_prefix:
  "\<exists>k. versions (tables (snd (Migrate exec_sql (Inr entries) readFile s))) =
      versions (tables s) @ take k (pending entries (tables s))
   \<and> apply_files exec_sql readFile (take k (pending entries (tables s))) (app (tables s)) =
      Inr (app (tables (snd (Migrate exec_sql (Inr entries) readFile s))))"
proof -
  obtain r s' where run: "Migrate exec_sql (Inr entries) readFile s = (r, s')" by fastforce
  from Migrate_cases [OF run] obtain "done" rest where
    "pending entries (tables s) = done @ rest" "versions (tables s') = versions (tables s) @ done"
    "apply_files exec_sql readFile done (app (tables s)) = Inr (app (tables s'))"
    by blast
  with run show ?thesis by (intro exI [of _ "length done"]) simp
qed

text \<open>
  Running the migrator again with the same files and a reachable database changes nothing
  and succeeds.
\<close>

theorem Migrate_again:
  assumes "Migrate exec_sql (Inr entries) readFile s = (Inr (), s')"
  shows "Migrate exec_sql (Inr entries) readFile (healthy (tables s')) = (Inr (), healthy (tables s'))"
proof -
  from Migrate_cases [OF assms] have pend: "pending entries (tables s') = []"
    by (auto simp: pending_def filter_empty_conv)
  have "\<exists>vs. schema_migrations (tables s') = Some vs"
  proof -
    from assms obtain s1 where ok: "exec create_schema_migrations s = (Inr (), s1)"
      by (auto simp: Migrate_def bind_op_ok wrap_err_ok)
    then have some: "schema_migrations (tables s1) = Some (versions (tables s))"
      using create_schema_ok exec_ok by metis
    from assms ok obtain vs s2 where "query select_versions s1 = (Inr vs, s2)"
      "for_each (migrate_file exec_sql readFile (set vs)) (migration_files entries) s2 = (Inr (), s')"
      by (auto simp: Migrate_def bind_op_ok wrap_err_ok)
    with some show ?thesis using migrate_loop query_ok by metis
  qed
  then obtain vs where vs: "schema_migrations (tables s') = Some vs" by blast
  have "for_each (migrate_file exec_sql readFile (set vs)) names (healthy (tables s')) =
      (Inr (), healthy (tables s'))" if "set names \<subseteq> set vs" for names
    using that by (induction names) (auto simp: migrate_file_def ret_def)
  moreover have "set (migration_files entries) \<subseteq> set vs"
    using pend vs by (auto simp: pending_def versions_def filter_empty_conv)
  moreover have "create_schema_migrations (tables s') = Inr ((), tables s')"
    using vs by (simp add: create_schema_migrations_def)
  ultimately show ?thesis
    using vs by (simp add: Migrate_def bind_op_def wrap_err_def select_versions_def)
qed

lemma Migrate_again_witness:
  "fst (Migrate demo_exec (Inr demo_entries) demo_files (healthy (tables
     (snd (Migrate demo_exec (Inr demo_entries) demo_files
       (healthy \<lparr>schema_migrations = None, app = []\<rparr>)))))) = Inr ()"
proof -
  let ?s = "healthy \<lparr>schema_migrations = None, app = []\<rparr> :: string list migdb pg"
  have "fst (Migrate demo_exec (Inr demo_entries) demo_files ?s) = Inr ()" by code_simp
  then have "Migrate demo_exec (Inr demo_entries) demo_files ?s =
      (Inr (), snd (Migrate demo_exec (Inr demo_entries) demo_files ?s))"
    by (metis prod.collapse)
  from Migrate_again [OF this] show ?thesis by simp
qed

end
