(* ===== verification/Spec2Isabelle.thy ===== *)
theory Spec2Isabelle
  imports Response_Properties Run_Page Sync_Interleaving Process Migrate
begin

text \<open>
  A verification of the control-plane server of \<open>ghapp-demo\<close>, the Go program under
  \<open>src/server/\<close>. Runners of GitHub Actions upload a summary of each run with a token that
  the server issues for their OIDC token; users sign in with GitHub, make projects, bind
  repositories to them and read the runs; workers mirror from GitHub which repositories the
  application still covers.

  \<^bold>\<open>Parts and how they meet.\<close> \<open>main\<close> reads the configuration, migrates the database and builds
  the verifier of OIDC tokens, the manager of upload tokens, the client of GitHub, the pull workers and
  the HTTP handlers. Handlers and workers share the database (through the store) and GitHub (through the
  client); handlers also share the two rate limiters and the key cache of the verifier. All of this is
  one state: \<open>web\<close> (theory Http) holds a \<open>world\<close> (theory Workers) of a database connection
  \<open>pg\<close> (theory Pg) and the GitHub side, the limiters, the verifier, the random source and the
  response being written. An operation of the store is a \<open>dbop\<close>, one of handlers or workers a state
  transformer that returns \<open>Inl\<close> of an error or \<open>Inr\<close> of a value; a handler is a function from
  \<open>web\<close> to \<open>web\<close>; \<open>Routes\<close> is the router with the session of the request, and \<open>Handler\<close> the handler of the
  process, which adds the recovery from panics, the log and the time limit.

  \<^bold>\<open>Foundations.\<close> Prelude (errors, 64-bit integers), Go_Strings, Go_Time, Go_Url and Base64 (the used parts of
  Go's library), Types (\<open>internal/types/types.go\<close>), Keyed_Table (tables with a unique key, locale
  \<open>keyed_table\<close>), Pg (statements, transactions, lost connections, locale \<open>keeps_invariant\<close>).

  \<^bold>\<open>Components\<close>, each with its file of the source:
  \<^item> Configuration, \<open>internal/config/config.go\<close>; the allowlists of Configuration and Oidc share the locale
    \<open>allowlist\<close>.
  \<^item> Limiter, the fixed-window limiter of \<open>web/handler/server.go\<close>; the specification is the locale
    \<open>windowed_admission\<close>, interpreted for both limiters.
  \<^item> Lineage, run summaries and their view, of \<open>web/handler/server.go\<close>.
  \<^item> Sql_Split and Migrate, \<open>internal/postgres/migrate.go\<close>.
  \<^item> Oidc, \<open>internal/oidc/verifier.go\<close>.
  \<^item> Key_Parsing and Runs_Auth, \<open>internal/runsauth/tokens.go\<close>.
  \<^item> Store_Tables (rows and constraints that the migrations leave), Store_Accounts, Store_Projects, Store_Runs
    and Store_Ingest, \<open>internal/postgres/store.go\<close>: one statement definition per SQL text, one
    operation per method. Store interprets the contracts for every statement; Store_Properties
    and Store_Effects hold the properties of the operations.
  \<^item> GitHub_App, \<open>internal/githubapp/client.go\<close>, and GitHub_Paging, when its loops over pages end; Workers,
    \<open>internal/workers/pull.go\<close>.
  \<^item> Sessions, \<open>internal/auth/session.go\<close>; Http, the used part of \<open>net/http\<close> and \<open>web/render.go\<close>.
  \<^item> Web_Server (state and helpers), Access_Sync (the list of repositories of a user), Web_Pages (handlers for
    browsers), Web_Ingest (the two endpoints of a runner) and Web_Routes (routes, session
    middleware, \<open>main\<close>), \<open>web/handler/server.go\<close> and \<open>cmd/server/main.go\<close>; Web_Middleware,
    \<open>web/handler/middleware.go\<close> and the end of \<open>Routes\<close>.
  \<^item> Process, the end of \<open>main\<close> with the shutdown of the HTTP server, and the loop of the worker with its context.
  \<^item> Sync_Interleaving, \<open>ensureUserRepoAccess\<close> once more, as phases of threads that share the database and
    take the lock of the user.

  \<^bold>\<open>What is shown.\<close> Store: a run is shown exactly to those who may see it, and revocation,
  retention, upsert and replacement do what they promise. Tokens: what an accepted OIDC or upload token
  proves, and that a token which the server issues verifies. Limiter: a bound over any number of windows.
  Migrations: the splitter cuts where a grammar of SQL text says, files are applied once and in order, and
  a failure leaves a prefix. Workers: the matching of jobs, and that no pass succeeds. Web_Frames and
  Web_Invariants describe each handler by the tables it writes (the locale \<open>page_invariant\<close> for what
  is kept but by the access list, and \<open>web_invariant\<close>, which adds the list; interpreted for bindings, sessions, runs,
  coverage and the constraints); on them rest the properties of whole requests: Ingest_Properties (what
  an upload stores, what the token exchange binds), Access_Properties (which requests change bindings
  and runs), Login_Properties (which change sessions, and that a login is recognised), Access_Listing
  (where the access list of a user comes from: what GitHub lists for his own token), Server_Properties (the
  public pages depend only on visible runs, access lists are recent and are GitHub's, protected pages
  need a session, the invariant of the server over any requests, worker passes and restarts with the
  constraints of the schema in it, the reduced mode without a key, and that reading changes nothing) and
  Run_Page (strangers see no command line). Worker_Frames does for a pass of the workers what
  Web_Invariants does for a request. Project_Properties shows how projects and their owners come to be.
  Access_Model is the abstract specification of access control, a machine over memberships, bindings and
  access lists with guarded events; it shows that each request is a run of it whose actor is the user of
  the request and whose lists are GitHub's, and traces whoever sees a private run back to the request
  in which he bound the repository himself. Response_Properties shows, with the locale \<open>responses\<close>, that
  every handler answers once with a status of a known set, that the log says that status, and how panics
  and late requests end. Sync_Interleaving shows that the lock of a user keeps synchronisations apart and
  the time of the last one from going back, and that its phases compose to the function that the rest
  of the development uses. Process shows when the process ends and in which state, and that the shutdown
  does not wait for open requests.

  \<^bold>\<open>Where the code fails.\<close> PostgreSQL refuses three of the program's statements, and the model has them as
  it has PostgreSQL: the coverage of a repository is never recorded (\<open>parse_params\<close>, 42P08), so that no binding
  is revoked and no run purged, and \<open>revocation_hides_uncovered\<close> and \<open>purge_safe\<close> speak of coverage rows that
  something else has written; the groups of pending runs are never listed (42P10); and a project whose slug is
  taken is never created (25P02).

  \<^bold>\<open>Conventions and bounds.\<close> Loops over pages of GitHub end because each answer is taken from a
  finite list, which stands for the answers to come; the scanner of SQL is a function with a
  measure, so no definition needs fuel. The connection has a list of fates, one per request to the
  database, so every statement, commit or begin may fail in the model. A request and a pass of the
  workers read the clock once, where the code reads it at several points. Go maps that the code iterates
  over are lists in the order of insertion. Locks make the calls they guard a sequence, which is how
  the model runs them. Requests run one after the other, except in Sync_Interleaving and Process. The log
  lines of the middleware, without the duration and the stack, and of the end of the process are kept; other log
  lines are left out. The cache of issuer keys is one state that a request reads and refreshes at once; the code
  takes its lock for each step, so that another request can refresh it in between.

  \<^bold>\<open>Parameters\<close>, each an argument of the definitions that use it: JSON, JWT and its signatures, RSA key
  parsing, AES-GCM, SHA-256, HTTP answers, random bytes, RFC 3339, the input of the PostgreSQL
  types \<open>uuid\<close> and \<open>jsonb\<close>, and \<open>html/template\<close> with the embedded files. The hypotheses on them are the
  documented contracts \<open>signer_contract\<close> and the like, which the witnesses instantiate.

  \<^bold>\<open>Not modelled.\<close> Gaps in sequences and the collation of text; the texts of PostgreSQL's errors
  beyond their codes; the refusal of text with a NUL or invalid UTF-8 (22021); the cleaning of request paths,
  the redirect of \<open>/static\<close> to \<open>/static/\<close> and the short body of a redirect; the header timeout of the listener;
  block comments and escape strings in migrations, which the code does not know either; templates and assets; the agent (Rust), the action (TypeScript), the Terraform files
  and the workflows, which are other programs.
\<close>

section \<open>Configuration and verifier\<close>

text \<open>The audiences that the configuration gives the verifier are already in normal form.\<close>

lemma FromEnv_audiences_normal:
  "verifier_audiences (OIDCAudiences (FromEnv env)) = OIDCAudiences (FromEnv env)"
proof -
  obtain raw where "OIDCAudiences (FromEnv env) = csv_items (Split raw (CHR '',''))"
    using OIDCAudiences_FromEnv by blast
  then show ?thesis
    using csv.stable [of "Split raw (CHR '','')"]
    by (metis aud.normalise_nub csv.normalise_nub)
qed

text \<open>So the verifier that \<open>main\<close> makes accepts exactly the audiences of the configuration.\<close>

lemma main_verifier_audiences:
  assumes "main lib rd gcm (FromEnv env) (Inr ()) (Inr ()) = Running a v wk"
  shows "v_audiences v = OIDCAudiences (FromEnv env)"
proof -
  have "v = NewVerifier \<lparr>oc_Issuer = OIDCIssuer (FromEnv env), oc_Audiences = OIDCAudiences (FromEnv env), oc_JWKSURL = [],
      oc_CacheTTL = 0\<rparr>"
    using assms by (auto simp: main_def Let_def split: if_splits)
  then show ?thesis
    using FromEnv_audiences_normal [of env] by simp
qed

end
